theory Spec2Isabelle
  imports Main "HOL-Library.Multiset"
begin

section \<open>Data model\<close>

text \<open>
  The three tables of the schema (\<^verbatim>\<open>ytg_jobs\<close>, \<^verbatim>\<open>ytg_scenes\<close>, \<^verbatim>\<open>ytg_assets\<close>) are
  lists of rows. Nullable columns are options. A \<^verbatim>\<open>timestamptz\<close> is the number of
  milliseconds since the epoch, which is what \<^verbatim>\<open>new Date(s)\<close> compares. The primary key
  column \<^verbatim>\<open>id\<close> of a scene is called \<open>row_id\<close> here and the one of a job \<open>jid\<close>.
\<close>

datatype JobStatus = QUEUED | RUNNING | SUCCEEDED | FAILED

record scene_row =
  row_id :: string
  job_id :: string
  scene_id :: int
  narration :: "string option"
  on_screen_text :: "string option"
  visual_brief :: "string option"
  mood :: "string option"
  duration_sec :: "int option"
  image_prompt :: "string option"
  image_path :: "string option"
  image_url :: "string option"
  image_gen_status :: "string option"
  image_gen_request_id :: "string option"
  image_gen_started_at :: "int option"
  image_gen_error :: "string option"

text \<open>
  The JSON documents. \<open>start_request\<close> is the body of a start request and the \<^verbatim>\<open>input\<close>
  column; \<open>payload_job_id\<close> is the optional id of the job to restart. Of the model's
  configuration only \<^verbatim>\<open>scene_count\<close> is read by the code modelled here; \<open>None\<close> stands
  for a missing key. A scene of the model output has a \<^verbatim>\<open>scene_id\<close> that is a finite
  number (\<open>Some\<close>) or anything else (\<open>None\<close>: missing, a string, NaN); finite scene ids
  are integers here, as the column \<^verbatim>\<open>scene_id int\<close> requires. Of the packager document the
  scenes, the two style texts, the image prompts, the render requests (without size and
  count) and the runtime log are kept;
  \<open>p_scenes = None\<close> means that \<^verbatim>\<open>scenes\<close> is not an array.
\<close>

record start_request =
  topic_domain :: string
  language :: string
  audience :: string
  input_as_text :: "string option"
  payload_job_id :: "string option"

record autoconfig_output =
  scene_count :: "int option"

record raw_scene =
  rs_scene_id :: "int option"
  rs_narration :: "string option"
  rs_on_screen_text :: "string option"
  rs_visual_brief :: "string option"
  rs_mood :: "string option"
  rs_duration_sec :: "int option"

record render_request =
  rr_scene_id :: "int option"
  rr_prompt :: "string option"

text \<open>
  An entry of the runtime log is a level and a message. The messages of the source are
  Korean sentences with a data object; each constructor below stands for one of them and
  carries the numbers of its data object.
\<close>

datatype log_level = info | warn | error

text \<open>
  A call of \<^verbatim>\<open>openaiResponsesJson\<close> by the pipeline, named by what it asks for; the repair
  request carries the scene count its instructions demand.
\<close>

datatype text_call = AutoConfigCall | PackagerSearchCall | PackagerPlainCall | PackagerRepairCall int

datatype log_msg =
    RetryRequested
  | PromptEmptySkipped int
  | BackgroundStarted nat
  | BudgetExceeded int nat
  | ImageStarted int
  | ImageDone int
  | ImageFailed int string
  | AssetInsertIgnored int
  | BackgroundFinished nat nat nat nat
  | RequeueAuthCheck int int
  | RequeueKeyEmpty
  | RequeueKeyNotJwt
  | RequeueAnswered
  | RequeueFailed
  | RootKeysChecked
  | ScenesEmptyRetrying int
  | RenderRequestsGenerated nat
  | ImagesOnDemand nat
  | AudioNoScenes
  | PackagerDone nat
  | TtsStarted int
  | TtsDone int
  | TtsFailed int string

record packager_output =
  p_scenes :: "raw_scene list option"
  p_visual_style :: "string option"
  p_tone :: "string option"
  p_image_prompts :: "render_request list option"
  p_image_render_requests :: "render_request list option"
  p_logs :: "(log_level \<times> log_msg) list"

record final_package =
  fp_scenes :: "raw_scene list"
  fp_scene_audios :: "(int \<times> string) list"

record job_row =
  jid :: string
  status :: JobStatus
  input :: start_request
  autoconfig :: "autoconfig_output option"
  packager :: "packager_output option"
  final_package :: "final_package option"
  job_error :: "string option"
  trace_id :: string

record asset_row =
  asset_job_id :: string
  asset_type :: string
  asset_path :: "string option"
  asset_url :: "string option"
  asset_scene_id :: "int option"

text \<open>
  The state the functions act on: the three tables, the object paths of the storage
  bucket, the prompts sent to the image provider so far (one entry for each call of
  \<^verbatim>\<open>openaiImagePng\<close>), the calls of the text provider and the function log written by \<^verbatim>\<open>pushRuntimeLog\<close>. Database calls whose error the source inspects fail only where
  an environment record below says so; \<^verbatim>\<open>.single()\<close> fails by itself when the row count
  is not one.
\<close>

record world =
  ytg_jobs :: "job_row list"
  ytg_scenes :: "scene_row list"
  ytg_assets :: "asset_row list"
  storage :: "string list"
  image_calls :: "string list"
  text_calls :: "text_call list"
  console :: "(log_level \<times> log_msg) list"

text \<open>An exception thrown by the source: \<^verbatim>\<open>throw new Error(msg)\<close>.\<close>

datatype exn = Error string

fun message_of :: "exn \<Rightarrow> string" where
  "message_of (Error m) = m"

section \<open>JavaScript values\<close>

text \<open>
  \<^verbatim>\<open>String.prototype.trim\<close> on the characters a \<open>char\<close> can hold: space, tab, line
  feed, vertical tab, form feed, carriage return and the no-break space.
\<close>

definition is_ws :: "char \<Rightarrow> bool" where
  "is_ws c \<longleftrightarrow> c \<in> set [CHR '' '', CHR 0x09, CHR 0x0A, CHR 0x0B, CHR 0x0C, CHR 0x0D, CHR 0xA0]"

definition js_trim :: "string \<Rightarrow> string" where
  "js_trim s = rev (dropWhile is_ws (rev (dropWhile is_ws s)))"

text \<open>\<^verbatim>\<open>String(x ?? '').trim()\<close> for a nullable string.\<close>

definition str_trim :: "string option \<Rightarrow> string" where
  "str_trim x = js_trim (case x of None \<Rightarrow> [] | Some s \<Rightarrow> s)"

text \<open>\<^verbatim>\<open>a || b\<close> on strings: the empty string is falsy.\<close>

definition or_else :: "string \<Rightarrow> string \<Rightarrow> string" where
  "or_else a b = (if a \<noteq> [] then a else b)"

text \<open>\<^verbatim>\<open>Boolean(x)\<close> for a nullable string.\<close>

definition truthy :: "string option \<Rightarrow> bool" where
  "truthy x \<longleftrightarrow> (case x of None \<Rightarrow> False | Some s \<Rightarrow> s \<noteq> [])"

text \<open>\<^verbatim>\<open>parts.join(', ')\<close>\<close>

fun join_comma :: "string list \<Rightarrow> string" where
  "join_comma [] = []"
| "join_comma [x] = x"
| "join_comma (x # y # ys) = x @ '', '' @ join_comma (y # ys)"

text \<open>
  \<^verbatim>\<open>Math.max(lo, Math.min(Number(env ?? dflt) || dflt, hi))\<close>: the tunable numbers of
  the environment. \<open>None\<close> is an unset variable or one that is not a number; zero is falsy
  and gives the default as well.
\<close>

definition env_number :: "int option \<Rightarrow> int \<Rightarrow> int" where
  "env_number v dflt = (case v of None \<Rightarrow> dflt | Some n \<Rightarrow> if n = 0 then dflt else n)"

definition clamp_env :: "int \<Rightarrow> int option \<Rightarrow> int \<Rightarrow> int \<Rightarrow> int" where
  "clamp_env lo v dflt hi = max lo (min (env_number v dflt) hi)"

section \<open>Scene claim manager\<close>

text \<open>
  \<^verbatim>\<open>.eq('job_id', jobId).eq('scene_id', sceneId)\<close> on \<^verbatim>\<open>ytg_scenes\<close>.
\<close>

definition scene_matches :: "string \<Rightarrow> int \<Rightarrow> scene_row \<Rightarrow> bool" where
  "scene_matches jobId sceneId r \<longleftrightarrow> job_id r = jobId \<and> scene_id r = sceneId"

text \<open>
  \<^verbatim>\<open>.single()\<close>: the data when exactly one row is selected, an error otherwise.
\<close>

definition single :: "'a list \<Rightarrow> exn + 'a" where
  "single rows =
     (case rows of
        [r] \<Rightarrow> Inr r
      | _ \<Rightarrow> Inl (Error ''JSON object requested, multiple (or no) rows returned''))"

text \<open>
  The first database call of \<^verbatim>\<open>claimSceneImageGeneration\<close>: the select of the scene's
  id, claim status and claim timestamp.
\<close>

definition claim_check :: "scene_row list \<Rightarrow> string \<Rightarrow> int \<Rightarrow> exn + scene_row" where
  "claim_check scenes jobId sceneId = single (filter (scene_matches jobId sceneId) scenes)"

text \<open>
  \<^verbatim>\<open>currentStatus === null || currentStatus !== 'GENERATING' ||
  (startedAt && new Date(startedAt) < new Date(staleBeforeIso))\<close>
\<close>

definition canClaim :: "string option \<Rightarrow> int option \<Rightarrow> int \<Rightarrow> bool" where
  "canClaim currentStatus startedAt staleBefore \<longleftrightarrow>
     currentStatus = None \<or> currentStatus \<noteq> Some ''GENERATING'' \<or>
     (case startedAt of None \<Rightarrow> False | Some t \<Rightarrow> t < staleBefore)"

text \<open>
  The second database call: the update keyed on job id, scene id and the primary key read
  by the first call. It returns the table and the updated rows (\<^verbatim>\<open>.select('id')\<close>).
\<close>

definition claim_write_row :: "string \<Rightarrow> int \<Rightarrow> scene_row \<Rightarrow> scene_row" where
  "claim_write_row requestId now r =
     r\<lparr>image_gen_status := Some ''GENERATING'',
       image_gen_request_id := Some requestId,
       image_gen_started_at := Some now,
       image_gen_error := None\<rparr>"

definition claim_update ::
  "scene_row list \<Rightarrow> string \<Rightarrow> int \<Rightarrow> string \<Rightarrow> string \<Rightarrow> int \<Rightarrow> scene_row list \<times> scene_row list" where
  "claim_update scenes jobId sceneId checkedId requestId now =
     (let hit = (\<lambda>r. scene_matches jobId sceneId r \<and> row_id r = checkedId)
      in (map (\<lambda>r. if hit r then claim_write_row requestId now r else r) scenes,
          map (claim_write_row requestId now) (filter hit scenes)))"

text \<open>
  \<^verbatim>\<open>claimSceneImageGeneration\<close> run alone: the select, the test, the update. The result is
  the thrown error or the returned boolean, with the table afterwards. With \<^verbatim>\<open>.single()\<close>
  the data is present whenever there is no error, so \<^verbatim>\<open>if (!check.data) return false\<close>
  has no case of its own.
\<close>

definition claimSceneImageGeneration ::
  "scene_row list \<Rightarrow> string \<Rightarrow> int \<Rightarrow> string \<Rightarrow> int \<Rightarrow> int \<Rightarrow> (exn + bool) \<times> scene_row list" where
  "claimSceneImageGeneration scenes jobId sceneId requestId staleBefore now =
     (case claim_check scenes jobId sceneId of
        Inl e \<Rightarrow> (Inl e, scenes)
      | Inr c \<Rightarrow>
          if \<not> canClaim (image_gen_status c) (image_gen_started_at c) staleBefore
          then (Inr False, scenes)
          else (let (scenes', updated) = claim_update scenes jobId sceneId (row_id c) requestId now
                in (Inr (length updated > 0), scenes')))"

text \<open>
  Two callers A and B whose database calls interleave as select A, select B, update A,
  update B. Each caller runs the code of \<^verbatim>\<open>claimSceneImageGeneration\<close>; only the order of
  the four calls is fixed. The result is what A returns, what B returns, and the table.
\<close>

definition claim_race ::
  "scene_row list \<Rightarrow> string \<Rightarrow> int \<Rightarrow> string \<Rightarrow> string \<Rightarrow> int \<Rightarrow> int \<Rightarrow> int
     \<Rightarrow> (exn + bool) \<times> (exn + bool) \<times> scene_row list" where
  "claim_race scenes jobId sceneId requestA requestB staleBefore nowA nowB =
     (let checkA = claim_check scenes jobId sceneId;
          checkB = claim_check scenes jobId sceneId;
          (resA, scenes1) =
            (case checkA of
               Inl e \<Rightarrow> (Inl e, scenes)
             | Inr c \<Rightarrow>
                 if \<not> canClaim (image_gen_status c) (image_gen_started_at c) staleBefore
                 then (Inr False, scenes)
                 else (let (s', updated) = claim_update scenes jobId sceneId (row_id c) requestA nowA
                       in (Inr (length updated > 0), s')));
          (resB, scenes2) =
            (case checkB of
               Inl e \<Rightarrow> (Inl e, scenes1)
             | Inr c \<Rightarrow>
                 if \<not> canClaim (image_gen_status c) (image_gen_started_at c) staleBefore
                 then (Inr False, scenes1)
                 else (let (s', updated) = claim_update scenes1 jobId sceneId (row_id c) requestB nowB
                       in (Inr (length updated > 0), s')))
      in (resA, resB, scenes2))"

text \<open>
  The completion writes of \<^verbatim>\<open>runGenerate\<close>: both updates are keyed on job id, scene id and
  \<^verbatim>\<open>image_gen_request_id\<close>. A null request id matches no value.
\<close>

definition completion_hit :: "string \<Rightarrow> int \<Rightarrow> string \<Rightarrow> scene_row \<Rightarrow> bool" where
  "completion_hit jobId sceneId requestId r \<longleftrightarrow>
     scene_matches jobId sceneId r \<and> image_gen_request_id r = Some requestId"

definition complete_succeeded ::
  "scene_row list \<Rightarrow> string \<Rightarrow> int \<Rightarrow> string \<Rightarrow> string \<Rightarrow> string \<Rightarrow> string \<Rightarrow> scene_row list" where
  "complete_succeeded scenes jobId sceneId requestId path publicUrl prompt =
     map (\<lambda>r. if completion_hit jobId sceneId requestId r
               then r\<lparr>image_path := Some path, image_url := Some publicUrl,
                      image_prompt := Some prompt, image_gen_status := Some ''SUCCEEDED'',
                      image_gen_error := None\<rparr>
               else r) scenes"

definition complete_failed ::
  "scene_row list \<Rightarrow> string \<Rightarrow> int \<Rightarrow> string \<Rightarrow> string \<Rightarrow> scene_row list" where
  "complete_failed scenes jobId sceneId requestId msg =
     map (\<lambda>r. if completion_hit jobId sceneId requestId r
               then r\<lparr>image_gen_status := Some ''FAILED'', image_gen_error := Some msg\<rparr>
               else r) scenes"

section \<open>Generating the image of one scene\<close>

text \<open>
  What \<^verbatim>\<open>runGenerate\<close> reads from outside the database: the fresh request id, the two
  clock readings, the staleness override, the outcome of \<^verbatim>\<open>openaiImagePng\<close> (an error or
  the image bytes), the error of the storage upload and of the insert of the asset row,
  and the object path and public URL computed for the scene.
\<close>

record gen_env =
  ge_requestId :: string
  ge_now :: int
  ge_claim_now :: int
  ge_stale_ms :: "int option"
  ge_image :: "exn + string"
  ge_upload_error :: "string option"
  ge_asset_insert_fails :: bool
  ge_path :: string
  ge_publicUrl :: string

record GenerateSceneImageResponse =
  resp_job_id :: string
  resp_scene_id :: int
  resp_accepted :: bool
  resp_status :: string
  resp_image_url :: "string option"
  resp_message :: "string option"

text \<open>\<^verbatim>\<open>String((jobRes.data.input as any)?.topic_domain ?? 'topic').trim()\<close>\<close>

definition topic_of :: "job_row \<Rightarrow> string" where
  "topic_of j = js_trim (topic_domain (input j))"

text \<open>
  The prompt of a scene: its stored prompt, else the brief (or the on-screen text, or a
  sentence about the topic), the mood, the visual style, the tone and a fixed suffix, the
  non-empty ones joined by commas.
\<close>

definition fallback_prompt :: "scene_row \<Rightarrow> string \<Rightarrow> string option \<Rightarrow> string option \<Rightarrow> string" where
  "fallback_prompt s topic visual_style tone =
     js_trim (join_comma (filter (\<lambda>x. x \<noteq> [])
       [or_else (str_trim (visual_brief s))
          (or_else (str_trim (on_screen_text s)) (''educational illustration about '' @ topic)),
        str_trim (mood s),
        str_trim visual_style,
        str_trim tone,
        ''no text, no logo, no watermark, clean composition, high quality, 16:9'']))"

definition scene_prompt :: "scene_row \<Rightarrow> job_row \<Rightarrow> string" where
  "scene_prompt s j =
     or_else (str_trim (image_prompt s))
       (fallback_prompt s (topic_of j)
          (case packager j of None \<Rightarrow> None | Some p \<Rightarrow> p_visual_style p)
          (case packager j of None \<Rightarrow> None | Some p \<Rightarrow> p_tone p))"

text \<open>
  The \<^verbatim>\<open>try\<close> block of \<^verbatim>\<open>runGenerate\<close>, entered once the claim is held: the provider call,
  the upload, the update to SUCCEEDED keyed on the request id, the insert of the asset
  row (its failure is ignored).
\<close>

definition generate_body ::
  "gen_env \<Rightarrow> world \<Rightarrow> job_row \<Rightarrow> scene_row \<Rightarrow> string \<Rightarrow> int \<Rightarrow> (exn + GenerateSceneImageResponse) \<times> world" where
  "generate_body env w j s jobId sceneId =
     (let prompt = scene_prompt s j in
      if prompt = [] then (Inl (Error ''image prompt is empty''), w)
      else
        (let w1 = w\<lparr>image_calls := image_calls w @ [prompt]\<rparr> in
         case ge_image env of
           Inl e \<Rightarrow> (Inl e, w1)
         | Inr png \<Rightarrow>
            (case ge_upload_error env of
               Some m \<Rightarrow> (Inl (Error m), w1)
             | None \<Rightarrow>
                (let w2 = w1\<lparr>storage := remdups (storage w1 @ [ge_path env])\<rparr>;
                     w3 = w2\<lparr>ytg_scenes := complete_succeeded (ytg_scenes w2) jobId sceneId
                                 (ge_requestId env) (ge_path env) (ge_publicUrl env) prompt\<rparr>;
                     w4 = (if ge_asset_insert_fails env then w3
                           else w3\<lparr>ytg_assets := ytg_assets w3 @
                                  [\<lparr>asset_job_id = jobId, asset_type = ''image'',
                                    asset_path = Some (ge_path env),
                                    asset_url = Some (ge_publicUrl env),
                                    asset_scene_id = Some sceneId\<rparr>]\<rparr>)
                 in (Inr \<lparr>resp_job_id = jobId, resp_scene_id = sceneId, resp_accepted = True,
                          resp_status = ''SUCCEEDED'',
                          resp_image_url = Some (ge_publicUrl env),
                          resp_message = None\<rparr>, w4)))))"

text \<open>
  \<^verbatim>\<open>runGenerate(jobId, sceneId, force)\<close>. The fixed Korean texts of the \<^verbatim>\<open>message\<close>
  field are not modelled (\<open>None\<close>); the message of a FAILED response is the error's.
\<close>

definition runGenerate ::
  "gen_env \<Rightarrow> world \<Rightarrow> string \<Rightarrow> int \<Rightarrow> bool \<Rightarrow> (exn + GenerateSceneImageResponse) \<times> world" where
  "runGenerate env w jobId sceneId force =
     (case single (filter (\<lambda>j. jid j = jobId) (ytg_jobs w)) of
        Inl e \<Rightarrow> (Inl e, w)
      | Inr j \<Rightarrow>
         (case single (filter (scene_matches jobId sceneId) (ytg_scenes w)) of
            Inl e \<Rightarrow> (Inl e, w)
          | Inr s \<Rightarrow>
             if \<not> force \<and> truthy (image_url s)
             then (Inr \<lparr>resp_job_id = jobId, resp_scene_id = sceneId, resp_accepted = True,
                        resp_status = ''ALREADY_EXISTS'', resp_image_url = image_url s,
                        resp_message = None\<rparr>, w)
             else
               (let staleMs = clamp_env 60000 (ge_stale_ms env) 300000 3600000;
                    staleBefore = ge_now env - staleMs
                in case claimSceneImageGeneration (ytg_scenes w) jobId sceneId
                          (ge_requestId env) staleBefore (ge_claim_now env) of
                     (Inl e, scenes') \<Rightarrow> (Inl e, w\<lparr>ytg_scenes := scenes'\<rparr>)
                   | (Inr claimed, scenes') \<Rightarrow>
                       if \<not> claimed
                       then (Inr \<lparr>resp_job_id = jobId, resp_scene_id = sceneId,
                                  resp_accepted = False, resp_status = ''IN_PROGRESS'',
                                  resp_image_url = None, resp_message = None\<rparr>,
                             w\<lparr>ytg_scenes := scenes'\<rparr>)
                       else
                         (case generate_body env (w\<lparr>ytg_scenes := scenes'\<rparr>) j s jobId sceneId of
                            (Inr out, w') \<Rightarrow> (Inr out, w')
                          | (Inl e, w') \<Rightarrow>
                              (Inr \<lparr>resp_job_id = jobId, resp_scene_id = sceneId,
                                    resp_accepted = True, resp_status = ''FAILED'',
                                    resp_image_url = None,
                                    resp_message = Some (message_of e)\<rparr>,
                               w'\<lparr>ytg_scenes := complete_failed (ytg_scenes w') jobId sceneId
                                     (ge_requestId env) (message_of e)\<rparr>)))))"

text \<open>
  The request handler of the endpoint, after the body was parsed: \<open>None\<close> for the scene id
  is a value that \<^verbatim>\<open>Number\<close> does not turn into a finite number. The result is the HTTP
  status with the error text or the response.
\<close>

record GenerateSceneImageRequest =
  gq_job_id :: "string option"
  gq_scene_id :: "int option"
  gq_force :: bool

definition generate_handler ::
  "gen_env \<Rightarrow> world \<Rightarrow> GenerateSceneImageRequest
     \<Rightarrow> (nat \<times> (string + GenerateSceneImageResponse)) \<times> world" where
  "generate_handler env w payload =
     (let jobId = str_trim (gq_job_id payload) in
      if jobId = [] then ((400, Inl ''job_id is required''), w)
      else case gq_scene_id payload of
             None \<Rightarrow> ((400, Inl ''scene_id is required''), w)
           | Some sceneId \<Rightarrow>
               if sceneId \<le> 0 then ((400, Inl ''scene_id is required''), w)
               else (case runGenerate env w jobId sceneId (gq_force payload) of
                       (Inl e, w') \<Rightarrow> ((500, Inl (message_of e)), w')
                     | (Inr out, w') \<Rightarrow>
                         ((if resp_status out = ''IN_PROGRESS'' then 202 else 200, Inr out), w')))"

section \<open>Retrying the images of a job\<close>

record RetryImagesRequest =
  rq_job_id :: "string option"
  rq_scene_ids :: "int option list option"
  rq_missing_only :: "bool option"
  rq_depth :: "int option"

record RetryImagesResponse =
  rs_job_id :: string
  attempted :: nat
  succeeded :: nat
  failed :: nat
  skipped :: nat
  accepted :: bool

record retry_task =
  t_scene_id :: int
  t_prompt :: string

text \<open>
  \<^verbatim>\<open>pushRuntimeLog(packager, level, msg, data)\<close>: the entry is appended to the packager
  document when there is one, and always written to the function log.
\<close>

definition push_packager ::
  "packager_output option \<Rightarrow> log_level \<Rightarrow> log_msg \<Rightarrow> packager_output option" where
  "push_packager p lv m =
     (case p of None \<Rightarrow> None | Some q \<Rightarrow> Some (q\<lparr>p_logs := p_logs q @ [(lv, m)]\<rparr>))"

definition push_console :: "world \<Rightarrow> log_level \<Rightarrow> log_msg \<Rightarrow> world" where
  "push_console w lv m = w\<lparr>console := console w @ [(lv, m)]\<rparr>"

text \<open>\<^verbatim>\<open>supabase.from('ytg_jobs').update({ packager }).eq('id', jobId)\<close>\<close>

definition persist_packager :: "world \<Rightarrow> string \<Rightarrow> packager_output option \<Rightarrow> world" where
  "persist_packager w jobId p =
     w\<lparr>ytg_jobs := map (\<lambda>j. if jid j = jobId then j\<lparr>packager := p\<rparr> else j) (ytg_jobs w)\<rparr>"

text \<open>
  \<^verbatim>\<open>promptByScene\<close>: the map filled from \<^verbatim>\<open>packager.image_render_requests\<close>; a later
  request for the same scene replaces an earlier one.
\<close>

fun promptByScene :: "render_request list \<Rightarrow> int \<Rightarrow> string option" where
  "promptByScene [] sid = None"
| "promptByScene (r # rs) sid =
     (case promptByScene rs sid of
        Some p \<Rightarrow> Some p
      | None \<Rightarrow>
          if rr_scene_id r = Some sid \<and> str_trim (rr_prompt r) \<noteq> []
          then Some (str_trim (rr_prompt r)) else None)"

text \<open>
  The selection loop of the request handler over the scenes of the job: a scene outside
  the requested ids is skipped, a scene that has an image is skipped when only missing
  images are wanted, a scene whose prompt is empty is skipped with a warning, every other
  scene becomes a task. The result is the tasks, the number skipped and the warnings.
\<close>

fun select_tasks ::
  "int list option \<Rightarrow> bool \<Rightarrow> job_row \<Rightarrow> scene_row list
     \<Rightarrow> retry_task list \<times> nat \<times> (log_level \<times> log_msg) list" where
  "select_tasks wantSet missingOnly j [] = ([], 0, [])"
| "select_tasks wantSet missingOnly j (s # ss) =
     (let (tasks, skip, logs) = select_tasks wantSet missingOnly j ss in
      if (case wantSet of None \<Rightarrow> False | Some ids \<Rightarrow> scene_id s \<notin> set ids)
      then (tasks, Suc skip, logs)
      else if missingOnly \<and> truthy (image_url s) then (tasks, Suc skip, logs)
      else
        (let style = packager j;
             renderReqs = (case style of None \<Rightarrow> []
                           | Some p \<Rightarrow> (case p_image_render_requests p of None \<Rightarrow> [] | Some rs \<Rightarrow> rs));
             prompt =
               or_else (str_trim (image_prompt s))
                 (or_else (str_trim (promptByScene renderReqs (scene_id s)))
                    (fallback_prompt s (topic_of j)
                       (case style of None \<Rightarrow> None | Some p \<Rightarrow> p_visual_style p)
                       (case style of None \<Rightarrow> None | Some p \<Rightarrow> p_tone p)))
         in if prompt = [] then (tasks, Suc skip, (warn, PromptEmptySkipped (scene_id s)) # logs)
            else (\<lparr>t_scene_id = scene_id s, t_prompt = prompt\<rparr> # tasks, skip, logs)))"

text \<open>
  What the background work reads from outside the database. Along a chain of
  continuations the depth grows by one with each request, so a clock reading or a provider
  outcome is named by the depth of the request and the index in its task list.
\<close>

record retry_env =
  re_started :: "int \<Rightarrow> int"
  re_now :: "int \<Rightarrow> nat \<Rightarrow> int"
  re_image :: "int \<Rightarrow> nat \<Rightarrow> exn + string"
  re_upload_error :: "int \<Rightarrow> nat \<Rightarrow> string option"
  re_asset_insert_fails :: "int \<Rightarrow> nat \<Rightarrow> bool"
  re_path :: "int \<Rightarrow> string"
  re_publicUrl :: "int \<Rightarrow> string"
  re_max_runtime_ms :: "int option"
  re_max_depth :: "int option"
  re_service_role_key :: "string option"
  re_anon_key :: "string option"
  re_fetch_fails :: "int \<Rightarrow> bool"

text \<open>
  The state of the loop of \<^verbatim>\<open>runRetryInBackground\<close>: the world, the packager document in
  memory, the four counters, the scenes taken up so far and the remainder.
\<close>

record loop_state =
  ls_world :: world
  ls_packager :: "packager_output option"
  ls_attempted :: nat
  ls_succeeded :: nat
  ls_failed :: nat
  ls_skipped :: nat
  ls_taken :: "int list"
  ls_remaining :: "int list"

definition log_both :: "loop_state \<Rightarrow> log_level \<Rightarrow> log_msg \<Rightarrow> loop_state" where
  "log_both st lv m =
     st\<lparr>ls_packager := push_packager (ls_packager st) lv m,
        ls_world := push_console (ls_world st) lv m\<rparr>"

text \<open>
  One task inside the \<^verbatim>\<open>try\<close> of the loop: the provider call, the upload, the update of
  the scene row keyed on job id and scene id, the insert of the asset row.
\<close>

definition retry_one ::
  "retry_env \<Rightarrow> int \<Rightarrow> nat \<Rightarrow> string \<Rightarrow> int \<Rightarrow> string \<Rightarrow> loop_state \<Rightarrow> loop_state" where
  "retry_one env depth idx jobId sceneId prompt st0 =
     (let st1 = log_both (st0\<lparr>ls_attempted := Suc (ls_attempted st0)\<rparr>) info (ImageStarted sceneId);
          st2 = st1\<lparr>ls_world := (ls_world st1)\<lparr>image_calls := image_calls (ls_world st1) @ [prompt]\<rparr>\<rparr>;
          failedWith = (\<lambda>st m. log_both (st\<lparr>ls_failed := Suc (ls_failed st)\<rparr>) error (ImageFailed sceneId m))
      in case re_image env depth idx of
           Inl e \<Rightarrow> failedWith st2 (message_of e)
         | Inr png \<Rightarrow>
            (case re_upload_error env depth idx of
               Some m \<Rightarrow> failedWith st2 m
             | None \<Rightarrow>
                (let w = ls_world st2;
                     w1 = w\<lparr>storage := remdups (storage w @ [re_path env sceneId])\<rparr>;
                     w2 = w1\<lparr>ytg_scenes :=
                            map (\<lambda>r. if scene_matches jobId sceneId r
                                      then r\<lparr>image_path := Some (re_path env sceneId),
                                             image_url := Some (re_publicUrl env sceneId),
                                             image_prompt := Some prompt\<rparr>
                                      else r) (ytg_scenes w1)\<rparr>;
                     st3 = st2\<lparr>ls_world := w2\<rparr>;
                     st4 = (if re_asset_insert_fails env depth idx
                            then log_both st3 warn (AssetInsertIgnored sceneId)
                            else st3\<lparr>ls_world := w2\<lparr>ytg_assets := ytg_assets w2 @
                                   [\<lparr>asset_job_id = jobId, asset_type = ''image'',
                                     asset_path = Some (re_path env sceneId),
                                     asset_url = Some (re_publicUrl env sceneId),
                                     asset_scene_id = Some sceneId\<rparr>]\<rparr>\<rparr>)
                 in log_both (st4\<lparr>ls_succeeded := Suc (ls_succeeded st4)\<rparr>) info (ImageDone sceneId))))"

text \<open>
  The loop \<^verbatim>\<open>for (let idx = 0; idx < tasks.length; idx++)\<close>, on the tasks from \<open>idx\<close> on. The
  budget test comes first; when it fires the scene ids of the tasks left are recorded and
  the loop ends. A task with an empty prompt is counted as skipped. After any other task
  the packager document is written to the job.
\<close>

fun retry_loop ::
  "retry_env \<Rightarrow> int \<Rightarrow> string \<Rightarrow> int \<Rightarrow> int \<Rightarrow> nat \<Rightarrow> retry_task list \<Rightarrow> loop_state \<Rightarrow> loop_state" where
  "retry_loop env depth jobId startedAt maxRuntimeMs idx [] st = st"
| "retry_loop env depth jobId startedAt maxRuntimeMs idx (t # ts) st =
     (if re_now env depth idx - startedAt > maxRuntimeMs
      then log_both (st\<lparr>ls_remaining := map t_scene_id (t # ts)\<rparr>) warn
             (BudgetExceeded depth (length (t # ts)))
      else if js_trim (t_prompt t) = []
      then retry_loop env depth jobId startedAt maxRuntimeMs (Suc idx) ts
             (st\<lparr>ls_skipped := Suc (ls_skipped st), ls_taken := ls_taken st @ [t_scene_id t]\<rparr>)
      else
        (let st1 = retry_one env depth idx jobId (t_scene_id t) (js_trim (t_prompt t))
                     (st\<lparr>ls_taken := ls_taken st @ [t_scene_id t]\<rparr>);
             st2 = st1\<lparr>ls_world := persist_packager (ls_world st1) jobId (ls_packager st1)\<rparr>
         in retry_loop env depth jobId startedAt maxRuntimeMs (Suc idx) ts st2))"

text \<open>
  \<^verbatim>\<open>pickJwtKey\<close> and \<^verbatim>\<open>buildEdgeFunctionAuthHeaders\<close>: a key looks like a JWT when splitting
  it at the dots gives three parts or more. The result of the second function is whether
  the key is usable and whether it looks like a JWT.
\<close>

definition jwtLike :: "string \<Rightarrow> bool" where
  "jwtLike t \<longleftrightarrow> length (filter (\<lambda>c. c = CHR ''.'') t) + 1 \<ge> 3"

definition pickJwtKey :: "string option list \<Rightarrow> string" where
  "pickJwtKey keys =
     (let ts = filter (\<lambda>t. t \<noteq> []) (map str_trim keys) in
      case filter jwtLike ts of
        k # _ \<Rightarrow> k
      | [] \<Rightarrow> (case ts of k # _ \<Rightarrow> k | [] \<Rightarrow> []))"

definition buildEdgeFunctionAuthHeaders :: "string \<Rightarrow> bool \<times> bool" where
  "buildEdgeFunctionAuthHeaders key =
     (let t = js_trim key in if t = [] then (False, False) else (True, jwtLike t))"

text \<open>The two tunable bounds of \<^verbatim>\<open>runRetryInBackground\<close>.\<close>

definition maxRuntimeMs :: "retry_env \<Rightarrow> int" where
  "maxRuntimeMs env = clamp_env 5000 (re_max_runtime_ms env) 50000 110000"

definition maxDepth :: "retry_env \<Rightarrow> int" where
  "maxDepth env = clamp_env 0 (re_max_depth env) 10 30"

text \<open>\<^verbatim>\<open>Number((payload as any)?.depth ?? 0) || 0\<close>\<close>

definition payload_depth :: "RetryImagesRequest \<Rightarrow> int" where
  "payload_depth payload = env_number (rq_depth payload) 0"

text \<open>The body of the request the background work sends to its own endpoint.\<close>

definition requeue_body :: "string \<Rightarrow> int list \<Rightarrow> int \<Rightarrow> RetryImagesRequest" where
  "requeue_body jobId remainingSceneIds depth =
     \<lparr>rq_job_id = Some jobId, rq_scene_ids = Some (map Some remainingSceneIds),
      rq_missing_only = Some True, rq_depth = Some (depth + 1)\<rparr>"

text \<open>
  \<^verbatim>\<open>runRetryInBackground\<close>: the loop, the closing log entry and write of the packager
  document, then the decision to continue. The result is the final loop state and the
  body posted to the endpoint, if any. The entries logged after the last write stay in
  the function log only.
\<close>

definition runRetryInBackground ::
  "retry_env \<Rightarrow> string \<Rightarrow> retry_task list \<Rightarrow> int \<Rightarrow> loop_state
     \<Rightarrow> loop_state \<times> RetryImagesRequest option" where
  "runRetryInBackground env jobId tasks depth st0 =
     (let st1 = log_both st0 info (BackgroundStarted (length tasks));
          st2 = retry_loop env depth jobId (re_started env depth) (maxRuntimeMs env) 0 tasks st1;
          st3 = log_both st2 info
                  (BackgroundFinished (ls_attempted st2) (ls_succeeded st2) (ls_failed st2) (ls_skipped st2));
          st4 = st3\<lparr>ls_world := persist_packager (ls_world st3) jobId (ls_packager st3)\<rparr>
      in if length (ls_remaining st4) > 0 \<and> depth < maxDepth env
         then
           (let authKey = pickJwtKey [re_service_role_key env, re_anon_key env];
                st5 = log_both st4 info (RequeueAuthCheck depth (depth + 1));
                auth = buildEdgeFunctionAuthHeaders authKey
            in if \<not> fst auth then (log_both st5 error RequeueKeyEmpty, None)
               else
                 (let st6 = (if \<not> snd auth then log_both st5 warn RequeueKeyNotJwt else st5)
                  in (st6, Some (requeue_body jobId (ls_remaining st6) depth))))
         else (st4, None))"

text \<open>
  The request handler up to the start of the background work: validation, the reads of
  the job and of its scenes in ascending scene id, the selection of the tasks. The result
  is an error response, or the job id, the tasks, the number skipped and the initial state
  of the background work.
\<close>

definition retry_images_prepare ::
  "world \<Rightarrow> RetryImagesRequest
     \<Rightarrow> (nat \<times> string) + (string \<times> retry_task list \<times> nat \<times> loop_state)" where
  "retry_images_prepare w payload =
     (let jobId = str_trim (rq_job_id payload) in
      if jobId = [] then Inl (400, ''job_id is required'')
      else case single (filter (\<lambda>j. jid j = jobId) (ytg_jobs w)) of
             Inl e \<Rightarrow> Inl (500, message_of e)
           | Inr j \<Rightarrow>
              (let scenes = sort_key scene_id (filter (\<lambda>r. job_id r = jobId) (ytg_scenes w));
                   wantSet = map_option (List.map_filter (\<lambda>n. n)) (rq_scene_ids payload);
                   missingOnly = (rq_missing_only payload \<noteq> Some False);
                   (tasks, skip, warnings) = select_tasks wantSet missingOnly j scenes;
                   logs = (info, RetryRequested) # warnings;
                   p = (case packager j of None \<Rightarrow> None
                        | Some q \<Rightarrow> Some (q\<lparr>p_logs := p_logs q @ logs\<rparr>));
                   w1 = persist_packager (w\<lparr>console := console w @ logs\<rparr>) jobId p
               in Inr (jobId, tasks, skip,
                       \<lparr>ls_world = w1, ls_packager = p, ls_attempted = 0, ls_succeeded = 0,
                        ls_failed = 0, ls_skipped = 0, ls_taken = [], ls_remaining = []\<rparr>)))"

text \<open>What one request of a chain did: its depth, its tasks, and the final loop counters.\<close>

record batch_report =
  br_depth :: int
  br_tasks :: "int list"
  br_taken :: "int list"
  br_remaining :: "int list"
  br_attempted :: nat
  br_succeeded :: nat
  br_failed :: nat
  br_skipped :: nat

definition report_of :: "int \<Rightarrow> retry_task list \<Rightarrow> loop_state \<Rightarrow> batch_report" where
  "report_of depth tasks st =
     \<lparr>br_depth = depth, br_tasks = map t_scene_id tasks, br_taken = ls_taken st,
      br_remaining = ls_remaining st, br_attempted = ls_attempted st,
      br_succeeded = ls_succeeded st, br_failed = ls_failed st, br_skipped = ls_skipped st\<rparr>"

text \<open>
  A request to the endpoint together with everything it sets off: the response of the
  handler, then the background work, then the request the background work posts to the
  same endpoint, and so on. The result is the response to the first request, the world
  at the end of the chain and the reports of the requests in order.
\<close>

function retry_images_chain ::
  "retry_env \<Rightarrow> world \<Rightarrow> RetryImagesRequest
     \<Rightarrow> (nat \<times> (string + RetryImagesResponse)) \<times> world \<times> batch_report list" where
  "retry_images_chain env w payload =
     (case retry_images_prepare w payload of
        Inl (code, msg) \<Rightarrow> ((code, Inl msg), w, [])
      | Inr (jobId, tasks, skip, st0) \<Rightarrow>
         (let out = \<lparr>rs_job_id = jobId, attempted = length tasks, succeeded = 0, failed = 0,
                     skipped = skip, accepted = True\<rparr>;
              depth = payload_depth payload
          in case runRetryInBackground env jobId tasks depth st0 of
               (st, None) \<Rightarrow> ((202, Inr out), ls_world st, [report_of depth tasks st])
             | (st, Some body) \<Rightarrow>
                 if re_fetch_fails env depth
                 then ((202, Inr out), push_console (ls_world st) error RequeueFailed,
                       [report_of depth tasks st])
                 else
                   (case retry_images_chain env (push_console (ls_world st) info RequeueAnswered) body of
                      (_, w', reports) \<Rightarrow> ((202, Inr out), w', report_of depth tasks st # reports))))"
  by pat_completeness auto
termination
  by (relation "measure (\<lambda>(env, w, payload). nat (maxDepth env - payload_depth payload))")
     (auto simp: runRetryInBackground_def Let_def requeue_body_def payload_depth_def
        env_number_def split: if_splits)

declare retry_images_chain.simps [simp del]

section \<open>Deleting a job\<close>

text \<open>
  What \<^verbatim>\<open>deleteStoragePrefix\<close> meets: the listing of the prefix throws, fails with an error
  result, or returns object names; the removal throws or not.
\<close>

datatype listing = ListThrows | ListError | Listed "string list"

record delete_env =
  de_listing :: listing
  de_remove_throws :: bool

text \<open>\<^verbatim>\<open>.replace(/\/{2,}/g, '/')\<close>\<close>

fun collapse_slashes :: "string \<Rightarrow> string" where
  "collapse_slashes (a # b # cs) =
     (if a = CHR ''/'' \<and> b = CHR ''/'' then collapse_slashes (b # cs)
      else a # collapse_slashes (b # cs))"
| "collapse_slashes cs = cs"

text \<open>
  \<^verbatim>\<open>deleteStoragePrefix(bucket, prefix)\<close>: the storage afterwards, or the exception. Empty
  object names are left out of the list to remove.
\<close>

definition deleteStoragePrefix :: "delete_env \<Rightarrow> string list \<Rightarrow> string \<Rightarrow> exn + string list" where
  "deleteStoragePrefix env objects prefix =
     (case de_listing env of
        ListThrows \<Rightarrow> Inl (Error ''storage list failed'')
      | lst \<Rightarrow>
         (let listed = (case lst of Listed names \<Rightarrow>
                          map (\<lambda>n. collapse_slashes (prefix @ ''/'' @ n)) (filter (\<lambda>n. n \<noteq> []) names)
                        | _ \<Rightarrow> []);
              unique = remdups (listed @ [prefix @ ''/narration.mp3''])
          in if de_remove_throws env then Inl (Error ''storage remove failed'')
             else Inr (filter (\<lambda>path. path \<notin> set unique) objects)))"

text \<open>
  \<^verbatim>\<open>runDeleteJob\<close>: the storage cleanup inside \<^verbatim>\<open>try\<close>/\<^verbatim>\<open>catch\<close>, then the delete of the job
  row, which cascades to the scenes and assets of the job (\<^verbatim>\<open>on delete cascade\<close>).
\<close>

definition runDeleteJob :: "delete_env \<Rightarrow> world \<Rightarrow> string \<Rightarrow> world" where
  "runDeleteJob env w jobId =
     (let w1 = (case deleteStoragePrefix env (storage w) (''jobs/'' @ jobId) of
                  Inl e \<Rightarrow> w
                | Inr objects \<Rightarrow> w\<lparr>storage := objects\<rparr>)
      in w1\<lparr>ytg_jobs := filter (\<lambda>j. jid j \<noteq> jobId) (ytg_jobs w1),
            ytg_scenes := filter (\<lambda>r. job_id r \<noteq> jobId) (ytg_scenes w1),
            ytg_assets := filter (\<lambda>a. asset_job_id a \<noteq> jobId) (ytg_assets w1)\<rparr>)"

record DeleteJobResponse =
  dr_job_id :: string
  dr_accepted :: bool

text \<open>
  The request handler: the response, and the world once the background deletion has run.
\<close>

definition delete_handler ::
  "delete_env \<Rightarrow> world \<Rightarrow> string option \<Rightarrow> (nat \<times> (string + DeleteJobResponse)) \<times> world" where
  "delete_handler env w payload_id =
     (let jobId = str_trim payload_id in
      if jobId = [] then ((400, Inl ''job_id is required''), w)
      else ((202, Inr \<lparr>dr_job_id = jobId, dr_accepted = True\<rparr>), runDeleteJob env w jobId))"

section \<open>The job pipeline\<close>

text \<open>
  What the pipeline and the start handler read from outside the database: the outcomes of
  the four calls of the text provider, the errors of the database calls whose error the
  source inspects, the fresh ids, and for each scene id the outcome of the speech call,
  of the upload and of the insert of the asset row.
\<close>

record pipe_env =
  pe_new_job_id :: string
  pe_new_trace_id :: string
  pe_insert_job_error :: "string option"
  pe_reset_error :: "string option"
  pe_autoconfig :: "exn + autoconfig_output"
  pe_autoconfig_update_error :: "string option"
  pe_packager_search :: "exn + packager_output"
  pe_packager_plain :: "exn + packager_output"
  pe_packager_repair :: "exn + packager_output"
  pe_packager_update_error :: "string option"
  pe_scenes_insert_error :: "string option"
  pe_row_id :: "nat \<Rightarrow> string"
  pe_tts :: "int \<Rightarrow> exn + string"
  pe_tts_upload_error :: "int \<Rightarrow> string option"
  pe_tts_path :: "int \<Rightarrow> string"
  pe_tts_url :: "int \<Rightarrow> string"
  pe_asset_insert_fails :: "int \<Rightarrow> bool"
  pe_marker_insert_error :: "string option"
  pe_final_update_error :: "string option"

text \<open>Updates of the job row keyed on its id.\<close>

definition update_job :: "world \<Rightarrow> string \<Rightarrow> (job_row \<Rightarrow> job_row) \<Rightarrow> world" where
  "update_job w jobId f =
     w\<lparr>ytg_jobs := map (\<lambda>j. if jid j = jobId then f j else j) (ytg_jobs w)\<rparr>"

text \<open>\<^verbatim>\<open>update({ status: 'RUNNING', error: null })\<close>, the first statement of the pipeline.\<close>

definition pipeline_mark_running :: "world \<Rightarrow> string \<Rightarrow> world" where
  "pipeline_mark_running w jobId = update_job w jobId (\<lambda>j. j\<lparr>status := RUNNING, job_error := None\<rparr>)"

text \<open>\<^verbatim>\<open>update({ status: 'FAILED', error: msg })\<close>, the \<^verbatim>\<open>catch\<close> block of the pipeline.\<close>

definition pipeline_fail :: "world \<Rightarrow> string \<Rightarrow> exn \<Rightarrow> world" where
  "pipeline_fail w jobId e =
     update_job w jobId (\<lambda>j. j\<lparr>status := FAILED, job_error := Some (message_of e)\<rparr>)"

definition empty_packager :: packager_output where
  "empty_packager =
     \<lparr>p_scenes = None, p_visual_style = None, p_tone = None, p_image_prompts = None,
      p_image_render_requests = None, p_logs = []\<rparr>"

definition call_text :: "world \<Rightarrow> text_call \<Rightarrow> world" where
  "call_text w c = w\<lparr>text_calls := text_calls w @ [c]\<rparr>"

text \<open>
  Stage 1: the packager document is initialised and stored, the configuration is asked
  for and stored.
\<close>

definition stage_autoconfig ::
  "pipe_env \<Rightarrow> world \<Rightarrow> string \<Rightarrow> (exn \<times> world) + (autoconfig_output \<times> world)" where
  "stage_autoconfig env w jobId =
     (let w1 = persist_packager w jobId (Some empty_packager);
          w2 = call_text w1 AutoConfigCall
      in case pe_autoconfig env of
           Inl e \<Rightarrow> Inl (e, w2)
         | Inr a \<Rightarrow>
            (case pe_autoconfig_update_error env of
               Some m \<Rightarrow> Inl (Error (''autoconfig DB update failed: '' @ m), w2)
             | None \<Rightarrow>
                 Inr (a, update_job w2 jobId
                           (\<lambda>j. j\<lparr>autoconfig := Some a, packager := Some empty_packager\<rparr>))))"

text \<open>
  Stage 2, the call: first with the search tool; when that throws, once more without it.
\<close>

definition stage_packager_call ::
  "pipe_env \<Rightarrow> world \<Rightarrow> (exn \<times> world) + (packager_output \<times> world)" where
  "stage_packager_call env w =
     (let w1 = call_text w PackagerSearchCall in
      case pe_packager_search env of
        Inr p \<Rightarrow> Inr (p, w1)
      | Inl _ \<Rightarrow>
         (let w2 = call_text w1 PackagerPlainCall in
          case pe_packager_plain env of
            Inl e \<Rightarrow> Inl (e, w2)
          | Inr p \<Rightarrow> Inr (p, w2)))"

text \<open>\<^verbatim>\<open>Math.max(1, Math.min(Number(autoconfig.scene_count ?? 6) || 6, 12))\<close>\<close>

definition targetCount :: "autoconfig_output \<Rightarrow> int" where
  "targetCount a = clamp_env 1 (scene_count a) 6 12"

text \<open>
  \<^verbatim>\<open>normalizeScenes\<close>: the first \<open>targetCount\<close> scenes, each with its own scene id when
  that is a finite number and with its position plus one otherwise, sorted by scene id
  (the sort of the runtime is stable). A scene of the result is its scene id and the
  other properties of the scene it was made from.
\<close>

definition normalizeScenes :: "int \<Rightarrow> packager_output \<Rightarrow> (int \<times> raw_scene) list" where
  "normalizeScenes tc p =
     sort_key fst
       (map (\<lambda>(i, s). (case rs_scene_id s of Some n \<Rightarrow> n | None \<Rightarrow> int i + 1, s))
          (enumerate 0 (take (nat tc) (case p_scenes p of None \<Rightarrow> [] | Some ss \<Rightarrow> ss))))"

text \<open>
  Stage 2, the check and the repair. When the normalised list is empty two warnings are
  logged and the repair request is sent. The variable \<^verbatim>\<open>packager\<close> is declared with
  \<^verbatim>\<open>const\<close>, so assigning the answer of the repair request to it throws a TypeError once
  the request has returned; the second check and its error
  \<^verbatim>\<open>'Packager output is invalid: scenes is empty (after repair attempt)'\<close> are not reached.
\<close>

definition stage_validate ::
  "pipe_env \<Rightarrow> world \<Rightarrow> packager_output \<Rightarrow> int
     \<Rightarrow> (exn \<times> world) + ((int \<times> raw_scene) list \<times> world)" where
  "stage_validate env w p tc =
     (let scenes = normalizeScenes tc p in
      if length scenes = 0
      then
        (let w1 = push_console (push_console w warn RootKeysChecked) warn (ScenesEmptyRetrying tc);
             w2 = call_text w1 (PackagerRepairCall tc)
         in case pe_packager_repair env of
              Inl e \<Rightarrow> Inl (e, w2)
            | Inr repaired \<Rightarrow> Inl (Error ''Assignment to constant variable.'', w2))
      else Inr (scenes, w))"

text \<open>
  The bulk insert into \<^verbatim>\<open>ytg_scenes\<close>. The insert is one statement: it adds all rows or
  none. It fails when the environment says so, when the job row is missing (foreign key)
  and when two rows would share job id and scene id (unique index
  \<^verbatim>\<open>ytg_scenes_job_scene_unique\<close>).
\<close>

definition scene_rows :: "pipe_env \<Rightarrow> string \<Rightarrow> (int \<times> raw_scene) list \<Rightarrow> scene_row list" where
  "scene_rows env jobId scenes =
     map (\<lambda>(k, (sid, s)).
            \<lparr>row_id = pe_row_id env k, job_id = jobId, scene_id = sid,
             narration = rs_narration s, on_screen_text = rs_on_screen_text s,
             visual_brief = rs_visual_brief s, mood = rs_mood s,
             duration_sec = rs_duration_sec s,
             image_prompt = None, image_path = None, image_url = None,
             image_gen_status = None, image_gen_request_id = None,
             image_gen_started_at = None, image_gen_error = None\<rparr>)
         (enumerate 0 scenes)"

definition scene_key :: "scene_row \<Rightarrow> string \<times> int" where
  "scene_key r = (job_id r, scene_id r)"

definition insert_scenes :: "pipe_env \<Rightarrow> world \<Rightarrow> string \<Rightarrow> scene_row list \<Rightarrow> (exn \<times> world) + world" where
  "insert_scenes env w jobId rows =
     (case pe_scenes_insert_error env of
        Some m \<Rightarrow> Inl (Error m, w)
      | None \<Rightarrow>
          if rows \<noteq> [] \<and> filter (\<lambda>j. jid j = jobId) (ytg_jobs w) = []
          then Inl (Error ''violates foreign key constraint'', w)
          else if \<not> distinct (map scene_key (ytg_scenes w @ rows))
          then Inl (Error ''duplicate key value violates unique constraint'', w)
          else Inr (w\<lparr>ytg_scenes := ytg_scenes w @ rows\<rparr>))"

text \<open>
  Stage 3: speech for every scene whose trimmed narration is not empty. A failure of one
  scene is logged and the loop goes on. The state is the world, the packager document in
  memory and the audio URLs collected so far.
\<close>

definition tts_one ::
  "pipe_env \<Rightarrow> string \<Rightarrow> int \<Rightarrow> world \<times> packager_output \<times> (int \<times> string) list
     \<Rightarrow> world \<times> packager_output \<times> (int \<times> string) list" where
  "tts_one env jobId sid st =
     (case st of (w, p, urls) \<Rightarrow>
       (let lg = (\<lambda>(w, p) lv m. (push_console w lv m, p\<lparr>p_logs := p_logs p @ [(lv, m)]\<rparr>));
            (w1, p1) = lg (w, p) info (TtsStarted sid);
            (w2, p2, urls2) =
              (case pe_tts env sid of
                 Inl e \<Rightarrow> (case lg (w1, p1) error (TtsFailed sid (message_of e)) of (a, b) \<Rightarrow> (a, b, urls))
               | Inr mp3 \<Rightarrow>
                  (case pe_tts_upload_error env sid of
                     Some m \<Rightarrow> (case lg (w1, p1) error (TtsFailed sid m) of (a, b) \<Rightarrow> (a, b, urls))
                   | None \<Rightarrow>
                      (let wa = w1\<lparr>storage := remdups (storage w1 @ [pe_tts_path env sid])\<rparr>;
                           (wb, pb) =
                             (if pe_asset_insert_fails env sid
                              then lg (wa, p1) warn (AssetInsertIgnored sid)
                              else (wa\<lparr>ytg_assets := ytg_assets wa @
                                      [\<lparr>asset_job_id = jobId, asset_type = ''audio'',
                                        asset_path = Some (pe_tts_path env sid),
                                        asset_url = Some (pe_tts_url env sid),
                                        asset_scene_id = Some sid\<rparr>]\<rparr>, p1))
                       in case lg (wb, pb) info (TtsDone sid) of
                            (a, b) \<Rightarrow> (a, b, urls @ [(sid, pe_tts_url env sid)]))))
        in (persist_packager w2 jobId (Some p2), p2, urls2)))"

definition stage_tts ::
  "pipe_env \<Rightarrow> string \<Rightarrow> (int \<times> raw_scene) list \<Rightarrow> world \<Rightarrow> packager_output
     \<Rightarrow> world \<times> packager_output \<times> (int \<times> string) list" where
  "stage_tts env jobId scenes w p =
     foldl (\<lambda>st sid. tts_one env jobId sid st) (w, p, [])
       (map fst (filter (\<lambda>(sid, s). str_trim (rs_narration s) \<noteq> []) scenes))"

text \<open>
  \<^verbatim>\<open>normalizeImageRenderRequests\<close>: the render requests of the document that name a scene
  of the job and have a prompt; when there is none, requests built from the image prompts
  or, when these give nothing either, from the scenes and the style guide. The boolean
  says whether the requests were built.
\<close>

definition prompt_pairs :: "int list \<Rightarrow> render_request list \<Rightarrow> (int \<times> string) list" where
  "prompt_pairs sceneIds rs =
     List.map_filter
       (\<lambda>r. case rr_scene_id r of
               None \<Rightarrow> None
             | Some sid \<Rightarrow>
                 if sid \<in> set sceneIds \<and> str_trim (rr_prompt r) \<noteq> []
                 then Some (sid, str_trim (rr_prompt r)) else None) rs"

definition scene_pairs :: "int list \<Rightarrow> packager_output \<Rightarrow> (int \<times> string) list" where
  "scene_pairs sceneIds p =
     List.map_filter
       (\<lambda>s. case rs_scene_id s of
               None \<Rightarrow> None
             | Some sid \<Rightarrow>
                 if sid \<notin> set sceneIds then None
                 else
                   (let prompt = join_comma (filter (\<lambda>x. x \<noteq> [])
                          [or_else (str_trim (rs_visual_brief s))
                             (or_else (str_trim (rs_on_screen_text s)) ''educational illustration''),
                           str_trim (rs_mood s),
                           str_trim (p_visual_style p),
                           str_trim (p_tone p),
                           ''no text, no logo, no watermark, clean composition, high quality, 16:9''])
                    in if js_trim prompt \<noteq> [] then Some (sid, js_trim prompt) else None))
       (case p_scenes p of None \<Rightarrow> [] | Some ss \<Rightarrow> ss)"

definition normalizeImageRenderRequests ::
  "packager_output \<Rightarrow> int list \<Rightarrow> render_request list \<times> bool" where
  "normalizeImageRenderRequests p sceneIds =
     (let existing = (case p_image_render_requests p of None \<Rightarrow> [] | Some rs \<Rightarrow> rs);
          cleaned = map (\<lambda>(sid, pr). \<lparr>rr_scene_id = Some sid, rr_prompt = Some pr\<rparr>)
                      (prompt_pairs sceneIds existing)
      in if length cleaned > 0 then (cleaned, False)
         else
           (let fromPrompts = prompt_pairs sceneIds
                                (case p_image_prompts p of None \<Rightarrow> [] | Some rs \<Rightarrow> rs);
                byId = (if fromPrompts = [] then scene_pairs sceneIds p else fromPrompts)
            in (List.map_filter
                  (\<lambda>sid. case map_of (rev byId) sid of
                            None \<Rightarrow> None
                          | Some pr \<Rightarrow> Some \<lparr>rr_scene_id = Some sid, rr_prompt = Some pr\<rparr>)
                  sceneIds, True)))"

text \<open>
  The pipeline after the first statement, as the body of its \<^verbatim>\<open>try\<close>: the result is the
  exception with the world at the throw, or the world after the update to SUCCEEDED.
\<close>

definition pipeline_try :: "pipe_env \<Rightarrow> world \<Rightarrow> string \<Rightarrow> start_request \<Rightarrow> (exn \<times> world) + world" where
  "pipeline_try env w jobId payload =
     (case stage_autoconfig env w jobId of
        Inl x \<Rightarrow> Inl x
      | Inr (a, w1) \<Rightarrow>
     (case stage_packager_call env w1 of
        Inl x \<Rightarrow> Inl x
      | Inr (p, w2) \<Rightarrow>
     (case stage_validate env w2 p (targetCount a) of
        Inl x \<Rightarrow> Inl x
      | Inr (scenes, w3) \<Rightarrow>
     (let p1 = p\<lparr>p_logs := p_logs p @
                   [(info, PackagerDone (case p_scenes p of None \<Rightarrow> 0 | Some ss \<Rightarrow> length ss))]\<rparr>;
          w4 = push_console w3 info
                 (PackagerDone (case p_scenes p of None \<Rightarrow> 0 | Some ss \<Rightarrow> length ss))
      in case pe_packager_update_error env of
           Some m \<Rightarrow> Inl (Error (''packager DB update failed: '' @ m), w4)
         | None \<Rightarrow>
     (case insert_scenes env (persist_packager w4 jobId (Some p1)) jobId
             (scene_rows env jobId scenes) of
        Inl x \<Rightarrow> Inl x
      | Inr w5 \<Rightarrow>
     (case stage_tts env jobId scenes w5 p1 of
        (w6, p2, sceneAudioUrls) \<Rightarrow>
     (let norm = normalizeImageRenderRequests p2 (map fst scenes);
          (w7, p3) =
            (if snd norm
             then (let q = p2\<lparr>p_image_render_requests := Some (fst norm),
                               p_logs := p_logs p2 @ [(warn, RenderRequestsGenerated (length (fst norm)))]\<rparr>
                   in (persist_packager
                         (push_console w6 warn (RenderRequestsGenerated (length (fst norm))))
                         jobId (Some q), q))
             else (w6, p2));
          p4 = p3\<lparr>p_logs := p_logs p3 @ [(info, ImagesOnDemand (length (fst norm)))]\<rparr>;
          w8 = persist_packager (push_console w7 info (ImagesOnDemand (length (fst norm))))
                 jobId (Some p4)
      in case pe_marker_insert_error env of
           Some m \<Rightarrow> Inl (Error m, w8)
         | None \<Rightarrow>
            (let w9 = w8\<lparr>ytg_assets := ytg_assets w8 @
                        [\<lparr>asset_job_id = jobId, asset_type = ''json'', asset_path = None,
                          asset_url = None, asset_scene_id = None\<rparr>]\<rparr>
             in case pe_final_update_error env of
                  Some m \<Rightarrow> Inl (Error m, w9)
                | None \<Rightarrow>
                    Inr (update_job w9 jobId
                           (\<lambda>j. j\<lparr>status := SUCCEEDED,
                                  final_package :=
                                    Some \<lparr>fp_scenes = map (\<lambda>(sid, s). s\<lparr>rs_scene_id := Some sid\<rparr>) scenes,
                                          fp_scene_audios = sceneAudioUrls\<rparr>,
                                  packager := Some p4, job_error := None\<rparr>))))))))))"

text \<open>\<^verbatim>\<open>runPipeline(jobId, traceId, payload)\<close>\<close>

definition runPipeline :: "pipe_env \<Rightarrow> world \<Rightarrow> string \<Rightarrow> start_request \<Rightarrow> world" where
  "runPipeline env w jobId payload =
     (case pipeline_try env (pipeline_mark_running w jobId) jobId payload of
        Inl (e, w') \<Rightarrow> pipeline_fail w' jobId e
      | Inr w' \<Rightarrow> w')"

section \<open>Starting and restarting a job\<close>

text \<open>
  The start handler up to the launch of the pipeline. With a job id in the body the job
  is looked up, reset and its scenes and assets are deleted; without one a new job row is
  inserted (the insert fails when the generated id is taken: \<^verbatim>\<open>id uuid primary key\<close>).
  The result is an error response, or the job id, the trace id and the world.
\<close>

definition reset_job :: "start_request \<Rightarrow> job_row \<Rightarrow> job_row" where
  "reset_job payload j =
     j\<lparr>status := QUEUED, input := payload, autoconfig := None, packager := None,
       final_package := None, job_error := None\<rparr>"

definition start_accept ::
  "pipe_env \<Rightarrow> world \<Rightarrow> start_request \<Rightarrow> (nat \<times> string) + (string \<times> string \<times> world)" where
  "start_accept env w payload =
     (if js_trim (topic_domain payload) = [] then Inl (400, ''topic_domain is required'')
      else if js_trim (language payload) = [] then Inl (400, ''language is required'')
      else if js_trim (audience payload) = [] then Inl (400, ''audience is required'')
      else if str_trim (payload_job_id payload) \<noteq> []
      then
        (let existingJobId = str_trim (payload_job_id payload) in
         case single (filter (\<lambda>j. jid j = existingJobId) (ytg_jobs w)) of
           Inl e \<Rightarrow> Inl (404, ''existing job not found: '' @ message_of e)
         | Inr existing \<Rightarrow>
            (case pe_reset_error env of
               Some m \<Rightarrow> Inl (500, m)
             | None \<Rightarrow>
                (let w1 = update_job w existingJobId (reset_job payload);
                     w2 = w1\<lparr>ytg_scenes := filter (\<lambda>r. job_id r \<noteq> existingJobId) (ytg_scenes w1)\<rparr>;
                     w3 = w2\<lparr>ytg_assets := filter (\<lambda>a. asset_job_id a \<noteq> existingJobId) (ytg_assets w2)\<rparr>
                 in Inr (jid existing, trace_id existing, w3))))
      else
        (case pe_insert_job_error env of
           Some m \<Rightarrow> Inl (500, m)
         | None \<Rightarrow>
             if pe_new_job_id env \<in> set (map jid (ytg_jobs w))
             then Inl (500, ''duplicate key value violates unique constraint'')
             else
             Inr (pe_new_job_id env, pe_new_trace_id env,
                  w\<lparr>ytg_jobs := ytg_jobs w @
                       [\<lparr>jid = pe_new_job_id env, status = QUEUED, input = payload,
                         autoconfig = None, packager = None, final_package = None,
                         job_error = None, trace_id = pe_new_trace_id env\<rparr>]\<rparr>)))"

record TrendStoryStartResponse =
  sr_job_id :: string
  sr_trace_id :: string

text \<open>The handler: the response, and the world once the pipeline has run.\<close>

definition start_handler ::
  "pipe_env \<Rightarrow> world \<Rightarrow> start_request \<Rightarrow> (nat \<times> (string + TrendStoryStartResponse)) \<times> world" where
  "start_handler env w payload =
     (case start_accept env w payload of
        Inl (code, msg) \<Rightarrow> ((code, Inl msg), w)
      | Inr (jobId, traceId, w1) \<Rightarrow>
          ((200, Inr \<lparr>sr_job_id = jobId, sr_trace_id = traceId\<rparr>), runPipeline env w1 jobId payload))"

text \<open>
  The worlds a start request goes through at its writes of the job status: after the
  handler's reset or insert, after the first statement of the pipeline, at the end of the
  pipeline.
\<close>

definition start_states :: "pipe_env \<Rightarrow> world \<Rightarrow> start_request \<Rightarrow> world list" where
  "start_states env w payload =
     (case start_accept env w payload of
        Inl _ \<Rightarrow> []
      | Inr (jobId, traceId, w1) \<Rightarrow>
          [w1, pipeline_mark_running w1 jobId, runPipeline env w1 jobId payload])"

text \<open>The status of a job, if the job exists.\<close>

definition status_of :: "world \<Rightarrow> string \<Rightarrow> JobStatus option" where
  "status_of w jobId =
     (case filter (\<lambda>j. jid j = jobId) (ytg_jobs w) of [] \<Rightarrow> None | j # _ \<Rightarrow> Some (status j))"

section \<open>Retrying the audio of a job\<close>

record audio_env =
  ae_tts :: "int \<Rightarrow> exn + string"
  ae_upload_error :: "int \<Rightarrow> string option"
  ae_path :: "int \<Rightarrow> string"
  ae_url :: "int \<Rightarrow> string"
  ae_asset_insert_fails :: "int \<Rightarrow> bool"

definition audio_one ::
  "audio_env \<Rightarrow> string \<Rightarrow> int \<Rightarrow> loop_state \<times> (int \<times> string) list
     \<Rightarrow> loop_state \<times> (int \<times> string) list" where
  "audio_one env jobId sid acc =
     (case acc of (st, urls) \<Rightarrow>
       (let st1 = log_both st info (TtsStarted sid);
            (st2, urls2) =
              (case ae_tts env sid of
                 Inl e \<Rightarrow> (log_both st1 error (TtsFailed sid (message_of e)), urls)
               | Inr mp3 \<Rightarrow>
                  (case ae_upload_error env sid of
                     Some m \<Rightarrow> (log_both st1 error (TtsFailed sid m), urls)
                   | None \<Rightarrow>
                      (let w = ls_world st1;
                           sa = log_both (st1\<lparr>ls_world := w\<lparr>storage := remdups (storage w @ [ae_path env sid])\<rparr>\<rparr>)
                                  info (TtsDone sid);
                           sb = (if ae_asset_insert_fails env sid
                                 then log_both sa warn (AssetInsertIgnored sid)
                                 else sa\<lparr>ls_world := (ls_world sa)\<lparr>ytg_assets := ytg_assets (ls_world sa) @
                                        [\<lparr>asset_job_id = jobId, asset_type = ''audio'',
                                          asset_path = Some (ae_path env sid),
                                          asset_url = Some (ae_url env sid),
                                          asset_scene_id = Some sid\<rparr>]\<rparr>\<rparr>)
                       in (sb, urls @ [(sid, ae_url env sid)]))))
        in (st2\<lparr>ls_world := persist_packager (ls_world st2) jobId (ls_packager st2)\<rparr>, urls2)))"

text \<open>
  \<^verbatim>\<open>runRetryAudio(jobId)\<close>: speech for every scene of the job with a narration, then the
  audio URLs are written into the final package when there is one.
\<close>

definition runRetryAudio :: "audio_env \<Rightarrow> world \<Rightarrow> string \<Rightarrow> (exn + unit) \<times> world" where
  "runRetryAudio env w jobId =
     (case single (filter (\<lambda>j. jid j = jobId) (ytg_jobs w)) of
        Inl e \<Rightarrow> (Inl e, w)
      | Inr j \<Rightarrow>
         (let sceneRows =
                sort_key fst
                  (filter (\<lambda>(sid, n). n \<noteq> [])
                     (map (\<lambda>r. (scene_id r, str_trim (narration r)))
                        (sort_key scene_id (filter (\<lambda>r. job_id r = jobId) (ytg_scenes w)))));
              st0 = \<lparr>ls_world = w, ls_packager = packager j, ls_attempted = 0, ls_succeeded = 0,
                     ls_failed = 0, ls_skipped = 0, ls_taken = [], ls_remaining = []\<rparr>;
              (st, urls) =
                (if sceneRows = [] then (log_both st0 error AudioNoScenes, [])
                 else foldl (\<lambda>acc sid. audio_one env jobId sid acc) (st0, []) (map fst sceneRows))
          in (Inr (),
              update_job (ls_world st) jobId
                (\<lambda>k. case final_package j of
                        None \<Rightarrow> k\<lparr>packager := ls_packager st\<rparr>
                      | Some fp \<Rightarrow> k\<lparr>final_package := Some (fp\<lparr>fp_scene_audios := urls\<rparr>),
                                      packager := ls_packager st\<rparr>))))"

definition retry_audio_handler ::
  "audio_env \<Rightarrow> world \<Rightarrow> string option \<Rightarrow> nat \<times> world" where
  "retry_audio_handler env w payload_id =
     (let jobId = str_trim payload_id in
      if jobId = [] then (400, w) else (202, snd (runRetryAudio env w jobId)))"

section \<open>Observations\<close>

text \<open>The ids and statuses of all jobs, in table order.\<close>

definition job_statuses :: "world \<Rightarrow> (string \<times> JobStatus) list" where
  "job_statuses w = map (\<lambda>j. (jid j, status j)) (ytg_jobs w)"

text \<open>Whether a call of the text provider is a repair request.\<close>

fun is_repair :: "text_call \<Rightarrow> bool" where
  "is_repair (PackagerRepairCall n) = True"
| "is_repair c = False"

text \<open>The scene id that \<^verbatim>\<open>normalizeScenes\<close> gives the scene at position \<open>i\<close>.\<close>

definition resolved_id :: "nat \<times> raw_scene \<Rightarrow> int \<times> raw_scene" where
  "resolved_id x = (case x of (i, s) \<Rightarrow> (case rs_scene_id s of Some n \<Rightarrow> n | None \<Rightarrow> int i + 1, s))"

text \<open>
  The scenes of a job in ascending scene id, as the retry handler reads them, and the
  test of its selection loop: the scene is among the requested ids, if any were given,
  and it has no image when only missing images are wanted.
\<close>

definition job_scenes :: "world \<Rightarrow> string \<Rightarrow> scene_row list" where
  "job_scenes w k = sort_key scene_id (filter (\<lambda>r. job_id r = k) (ytg_scenes w))"

definition wanted :: "int list option \<Rightarrow> bool \<Rightarrow> scene_row \<Rightarrow> bool" where
  "wanted wantSet missingOnly s \<longleftrightarrow>
     (case wantSet of None \<Rightarrow> True | Some ids \<Rightarrow> scene_id s \<in> set ids)
     \<and> \<not> (missingOnly \<and> truthy (image_url s))"

text \<open>
  A scene row before and after some work on the scenes in \<open>T\<close>: the keys are the same, and
  the row is unchanged when its scene is not in \<open>T\<close>.
\<close>

definition kept :: "int set \<Rightarrow> scene_row \<Rightarrow> scene_row \<Rightarrow> bool" where
  "kept T r r' \<longleftrightarrow> job_id r' = job_id r \<and> scene_id r' = scene_id r \<and> (scene_id r \<notin> T \<longrightarrow> r' = r)"

text \<open>Whether the key picked for the continuation request passes the check for emptiness.\<close>

definition key_usable :: "retry_env \<Rightarrow> bool" where
  "key_usable env \<longleftrightarrow>
     fst (buildEdgeFunctionAuthHeaders (pickJwtKey [re_service_role_key env, re_anon_key env]))"

text \<open>
  The budget test of the loop at index \<open>i\<close> of the request at depth \<open>d\<close>, and what it means
  for a report: the test passed at every index taken, and failed at the first index left
  when something is left.
\<close>

definition within_budget :: "retry_env \<Rightarrow> int \<Rightarrow> nat \<Rightarrow> bool" where
  "within_budget env d i \<longleftrightarrow> \<not> re_now env d i - re_started env d > maxRuntimeMs env"

definition budget_split :: "retry_env \<Rightarrow> batch_report \<Rightarrow> bool" where
  "budget_split env r \<longleftrightarrow>
     list_all (within_budget env (br_depth r)) [0..<length (br_taken r)]
     \<and> (br_remaining r \<noteq> [] \<longrightarrow> \<not> within_budget env (br_depth r) (length (br_taken r)))"

text \<open>
  The reports of a chain that starts at depth \<open>d\<close> with the tasks \<open>ids\<close>: every request
  splits its tasks into the ones taken and the remainder at the point where the budget
  ran out; a request is followed by another only if its remainder is not empty and its
  depth is below the maximum, and the next request has exactly the remainder as its tasks
  and the depth plus one; the last request has no remainder, or is at the maximum depth,
  or found no usable key, or its post failed.
\<close>

fun chain_ok :: "retry_env \<Rightarrow> int \<Rightarrow> int list \<Rightarrow> batch_report list \<Rightarrow> bool" where
  "chain_ok env d ids [] = False"
| "chain_ok env d ids [r] =
     (br_depth r = d \<and> br_tasks r = ids \<and> br_taken r @ br_remaining r = ids \<and>
      budget_split env r \<and>
      (br_remaining r = [] \<or> maxDepth env \<le> d \<or> \<not> key_usable env \<or> re_fetch_fails env d))"
| "chain_ok env d ids (r # r' # rs) =
     (br_depth r = d \<and> br_tasks r = ids \<and> br_taken r @ br_remaining r = ids \<and>
      budget_split env r \<and>
      br_remaining r \<noteq> [] \<and> d < maxDepth env \<and>
      chain_ok env (d + 1) (br_remaining r) (r' # rs))"

text \<open>Whether the function log holds the warning with the size of the remainder of a report.\<close>

definition logged_remainder :: "world \<Rightarrow> batch_report \<Rightarrow> bool" where
  "logged_remainder w r \<longleftrightarrow>
     (warn, BudgetExceeded (br_depth r) (length (br_remaining r))) \<in> set (console w)"


text \<open>
  The per-item outcomes in a log. An entry is an outcome when it reports an image as done
  or as failed. The outcome of the task at index \<open>i\<close> of the request at depth \<open>d\<close> is fixed by
  the environment: failed with the message of the provider or of the upload, done
  otherwise. \<open>outcomes\<close> lists the outcomes of tasks that start at index \<open>i\<close>.
\<close>

fun is_outcome :: "log_level \<times> log_msg \<Rightarrow> bool" where
  "is_outcome (lv, ImageDone sid) = True"
| "is_outcome (lv, ImageFailed sid m) = True"
| "is_outcome e = False"

definition outcome_of :: "retry_env \<Rightarrow> int \<Rightarrow> nat \<Rightarrow> int \<Rightarrow> log_level \<times> log_msg" where
  "outcome_of env d i sid =
     (case re_image env d i of
        Inl e \<Rightarrow> (error, ImageFailed sid (message_of e))
      | Inr png \<Rightarrow>
         (case re_upload_error env d i of
            Some m \<Rightarrow> (error, ImageFailed sid m)
          | None \<Rightarrow> (info, ImageDone sid)))"

definition outcomes :: "retry_env \<Rightarrow> int \<Rightarrow> nat \<Rightarrow> retry_task list \<Rightarrow> (log_level \<times> log_msg) list" where
  "outcomes env d i ts = map (\<lambda>(j, t). outcome_of env d j (t_scene_id t)) (enumerate i ts)"

text \<open>
  The packager document stored in the row of a job, and the outcome entries of the
  runtime log of a document.
\<close>

definition job_packager :: "world \<Rightarrow> string \<Rightarrow> packager_output option" where
  "job_packager w k = (case filter (\<lambda>j. jid j = k) (ytg_jobs w) of [j] \<Rightarrow> packager j | _ \<Rightarrow> None)"

definition outcome_log :: "packager_output option \<Rightarrow> (log_level \<times> log_msg) list option" where
  "outcome_log p = map_option (\<lambda>q. filter is_outcome (p_logs q)) p"

section \<open>Concrete inputs\<close>

text \<open>
  A job \<^verbatim>\<open>j1\<close> about space with three scenes; the first scene has an image, the other two
  have none and were never claimed.
\<close>

definition ex_scene :: "string \<Rightarrow> int \<Rightarrow> string option \<Rightarrow> scene_row" where
  "ex_scene rid sid url =
     \<lparr>row_id = rid, job_id = ''j1'', scene_id = sid, narration = Some ''Once upon a time'',
      on_screen_text = None, visual_brief = Some ''a rocket'', mood = None, duration_sec = None,
      image_prompt = None, image_path = None, image_url = url,
      image_gen_status = None, image_gen_request_id = None,
      image_gen_started_at = None, image_gen_error = None\<rparr>"

definition ex_input :: start_request where
  "ex_input =
     \<lparr>topic_domain = ''space'', language = ''en'', audience = ''teens'',
      input_as_text = None, payload_job_id = None\<rparr>"

definition ex_job :: "JobStatus \<Rightarrow> job_row" where
  "ex_job st =
     \<lparr>jid = ''j1'', status = st, input = ex_input,
      autoconfig = None, packager = Some empty_packager, final_package = None,
      job_error = None, trace_id = ''t1''\<rparr>"

definition ex_world :: "JobStatus \<Rightarrow> world" where
  "ex_world st =
     \<lparr>ytg_jobs = [ex_job st],
      ytg_scenes = [ex_scene ''r1'' 1 (Some ''http://img/1''), ex_scene ''r2'' 2 None,
                    ex_scene ''r3'' 3 None],
      ytg_assets = [], storage = [], image_calls = [], text_calls = [], console = []\<rparr>"

definition ex_gen_env :: gen_env where
  "ex_gen_env =
     \<lparr>ge_requestId = ''A'', ge_now = 1000000, ge_claim_now = 1000001, ge_stale_ms = None,
      ge_image = Inr ''png'', ge_upload_error = None, ge_asset_insert_fails = False,
      ge_path = ''jobs/j1/scene-01-space.png'', ge_publicUrl = ''http://img/new''\<rparr>"

definition ex_delete_env :: delete_env where
  "ex_delete_env = \<lparr>de_listing = ListThrows, de_remove_throws = False\<rparr>"

text \<open>
  A restart request for job \<^verbatim>\<open>j1\<close>, the world right after the handler's reset, a model
  answer whose scenes carry the given scene ids, and an environment in which the text
  provider gives that answer and nothing fails except the speech calls.
\<close>

definition ex_restart :: start_request where
  "ex_restart = ex_input\<lparr>payload_job_id := Some ''j1''\<rparr>"

definition ex_reset_world :: world where
  "ex_reset_world =
     \<lparr>ytg_jobs = [\<lparr>jid = ''j1'', status = QUEUED, input = ex_restart, autoconfig = None,
                   packager = None, final_package = None, job_error = None,
                   trace_id = ''t1''\<rparr>],
      ytg_scenes = [], ytg_assets = [], storage = [], image_calls = [], text_calls = [],
      console = []\<rparr>"

definition ex_raw_scene :: "int option \<Rightarrow> raw_scene" where
  "ex_raw_scene i =
     \<lparr>rs_scene_id = i, rs_narration = Some ''Hello'', rs_on_screen_text = Some ''Hi'',
      rs_visual_brief = Some ''a rocket'', rs_mood = Some ''calm'', rs_duration_sec = Some 5\<rparr>"

definition ex_packager :: "int option list \<Rightarrow> packager_output" where
  "ex_packager ids = empty_packager\<lparr>p_scenes := Some (map ex_raw_scene ids)\<rparr>"

definition ex_pipe_env :: "packager_output \<Rightarrow> pipe_env" where
  "ex_pipe_env p =
     \<lparr>pe_new_job_id = ''j2'', pe_new_trace_id = ''t2'', pe_insert_job_error = None,
      pe_reset_error = None,
      pe_autoconfig = Inr \<lparr>scene_count = Some 6\<rparr>, pe_autoconfig_update_error = None,
      pe_packager_search = Inr p, pe_packager_plain = Inr p, pe_packager_repair = Inr p,
      pe_packager_update_error = None, pe_scenes_insert_error = None,
      pe_row_id = (\<lambda>k. ''row''),
      pe_tts = (\<lambda>sid. Inl (Error ''tts down'')), pe_tts_upload_error = (\<lambda>sid. None),
      pe_tts_path = (\<lambda>sid. ''audio''), pe_tts_url = (\<lambda>sid. ''http://audio''),
      pe_asset_insert_fails = (\<lambda>sid. False),
      pe_marker_insert_error = None, pe_final_update_error = None\<rparr>"

text \<open>
  A retry request for the missing images of job \<^verbatim>\<open>j1\<close>, and an environment in which every
  image call succeeds, the clock advances by \<open>step\<close> milliseconds per task and the maximum
  depth is set to 1.
\<close>

definition ex_retry_request :: RetryImagesRequest where
  "ex_retry_request =
     \<lparr>rq_job_id = Some ''j1'', rq_scene_ids = None, rq_missing_only = None, rq_depth = None\<rparr>"

definition ex_retry_env :: "int \<Rightarrow> retry_env" where
  "ex_retry_env step =
     \<lparr>re_started = (\<lambda>d. 0), re_now = (\<lambda>d i. step * int i),
      re_image = (\<lambda>d i. Inr ''png''), re_upload_error = (\<lambda>d i. None),
      re_asset_insert_fails = (\<lambda>d i. False),
      re_path = (\<lambda>sid. ''path''), re_publicUrl = (\<lambda>sid. ''http://img/new''),
      re_max_runtime_ms = None, re_max_depth = Some 1,
      re_service_role_key = Some ''a.b.c'', re_anon_key = None,
      re_fetch_fails = (\<lambda>d. False)\<rparr>"

text \<open>An environment of the audio retry in which every speech call succeeds.\<close>

definition ex_audio_env :: audio_env where
  "ex_audio_env =
     \<lparr>ae_tts = (\<lambda>sid. Inr ''mp3''), ae_upload_error = (\<lambda>sid. None),
      ae_path = (\<lambda>sid. ''audio''), ae_url = (\<lambda>sid. ''http://audio''),
      ae_asset_insert_fails = (\<lambda>sid. False)\<rparr>"

text \<open>
  The same job when each of its three scenes has an image, a request to make the images
  of the three scenes again whether or not they exist, and an environment in which every
  image call succeeds, every task takes 60 seconds and the maximum depth is not set.
\<close>

definition ex_full_world :: world where
  "ex_full_world =
     (ex_world SUCCEEDED)\<lparr>ytg_scenes := [ex_scene ''r1'' 1 (Some ''http://img/1''),
                                          ex_scene ''r2'' 2 (Some ''http://img/2''),
                                          ex_scene ''r3'' 3 (Some ''http://img/3'')]\<rparr>"

definition ex_force_request :: RetryImagesRequest where
  "ex_force_request =
     \<lparr>rq_job_id = Some ''j1'', rq_scene_ids = Some [Some 1, Some 2, Some 3],
      rq_missing_only = Some False, rq_depth = None\<rparr>"

definition ex_slow_env :: retry_env where
  "ex_slow_env = (ex_retry_env 60000)\<lparr>re_max_depth := None\<rparr>"


section \<open>Properties of the scene claim manager\<close>

text \<open>
  C1, evaluated on the code: two callers claim the unclaimed scene 2 of job \<^verbatim>\<open>j1\<close>, and
  both selects run before either update. Both callers get \<open>true\<close>: the update of the
  second caller is keyed on the primary key of the row, which the first update does not
  change, so it matches the row again and overwrites the first claim.
\<close>

theorem claim_race_both_callers_win:
  "claim_race [ex_scene ''r2'' 2 None] ''j1'' 2 ''A'' ''B'' 0 100 101 =
     (Inr True, Inr True,
      [(ex_scene ''r2'' 2 None)\<lparr>image_gen_status := Some ''GENERATING'',
         image_gen_request_id := Some ''B'', image_gen_started_at := Some 101,
         image_gen_error := None\<rparr>])"
  by (simp add: claim_race_def claim_check_def single_def scene_matches_def ex_scene_def
        canClaim_def claim_update_def claim_write_row_def)

text \<open>
  C2: for a scene row that is the only one of its job and scene id, a call of
  \<^verbatim>\<open>claimSceneImageGeneration\<close> that runs alone returns \<open>true\<close> exactly when the prior
  claim status is null, or is not GENERATING, or is GENERATING with a claim timestamp
  older than \<open>staleBefore\<close>. When it returns \<open>true\<close> the row has status GENERATING, the given
  request id and the current timestamp (and a cleared error), every other column and
  every other row being as before; when it returns \<open>false\<close> the table is unchanged.
\<close>

theorem claim_succeeds_iff_unclaimed_or_stale:
  assumes "filter (scene_matches jobId sceneId) scenes = [r]"
  shows "fst (claimSceneImageGeneration scenes jobId sceneId requestId staleBefore now) =
           Inr (image_gen_status r = None \<or> image_gen_status r \<noteq> Some ''GENERATING'' \<or>
                (image_gen_status r = Some ''GENERATING'' \<and>
                 (\<exists>t. image_gen_started_at r = Some t \<and> t < staleBefore)))
       \<and> snd (claimSceneImageGeneration scenes jobId sceneId requestId staleBefore now) =
           (if image_gen_status r = None \<or> image_gen_status r \<noteq> Some ''GENERATING'' \<or>
                (image_gen_status r = Some ''GENERATING'' \<and>
                 (\<exists>t. image_gen_started_at r = Some t \<and> t < staleBefore))
            then map (\<lambda>x. if scene_matches jobId sceneId x
                           then x\<lparr>image_gen_status := Some ''GENERATING'',
                                  image_gen_request_id := Some requestId,
                                  image_gen_started_at := Some now,
                                  image_gen_error := None\<rparr>
                           else x) scenes
            else scenes)"
proof -
  have mem: "x = r" if "x \<in> set scenes" "scene_matches jobId sceneId x" for x
  proof -
    from that have "x \<in> set (filter (scene_matches jobId sceneId) scenes)" by simp
    with assms show ?thesis by simp
  qed
  have hit: "filter (\<lambda>x. scene_matches jobId sceneId x \<and> row_id x = row_id r) scenes = [r]"
  proof -
    have "filter (\<lambda>x. scene_matches jobId sceneId x \<and> row_id x = row_id r) scenes
          = filter (scene_matches jobId sceneId) scenes"
      by (rule filter_cong) (auto dest: mem)
    with assms show ?thesis by simp
  qed
  have upd: "map (\<lambda>x. if scene_matches jobId sceneId x \<and> row_id x = row_id r
                       then claim_write_row requestId now x else x) scenes
           = map (\<lambda>x. if scene_matches jobId sceneId x
                           then x\<lparr>image_gen_status := Some ''GENERATING'',
                                  image_gen_request_id := Some requestId,
                                  image_gen_started_at := Some now,
                                  image_gen_error := None\<rparr>
                           else x) scenes"
    by (rule map_cong) (auto dest: mem simp: claim_write_row_def)
  have chk: "claim_check scenes jobId sceneId = Inr r"
    using assms by (simp add: claim_check_def single_def)
  show ?thesis
    by (cases "image_gen_started_at r")
       (auto simp: claimSceneImageGeneration_def chk canClaim_def claim_update_def Let_def hit upd)
qed

text \<open>
  The theorem at an unclaimed scene (the claim succeeds and is written).
\<close>

theorem claim_succeeds_iff_unclaimed_or_stale_witness:
  "filter (scene_matches ''j1'' 2) [ex_scene ''r2'' 2 None] = [ex_scene ''r2'' 2 None]
   \<and> claimSceneImageGeneration [ex_scene ''r2'' 2 None] ''j1'' 2 ''A'' 0 100 =
       (Inr True, [(ex_scene ''r2'' 2 None)\<lparr>image_gen_status := Some ''GENERATING'',
          image_gen_request_id := Some ''A'', image_gen_started_at := Some 100,
          image_gen_error := None\<rparr>])"
proof -
  have h: "filter (scene_matches ''j1'' 2) [ex_scene ''r2'' 2 None] = [ex_scene ''r2'' 2 None]"
    by (simp add: scene_matches_def ex_scene_def)
  have s: "scene_matches ''j1'' 2 (ex_scene ''r2'' 2 None)"
    by (simp add: scene_matches_def ex_scene_def)
  have n: "image_gen_status (ex_scene ''r2'' 2 None) = None"
    by (simp add: ex_scene_def)
  from claim_succeeds_iff_unclaimed_or_stale [OF h, of "''A''" 0 100]
  show ?thesis using h s n by (simp add: prod_eq_iff)
qed

text \<open>
  C3: a completion write (to SUCCEEDED after generation, to FAILED after an error) whose
  request id differs from the request id stored on the scene changes no row: claim
  status, image fields and error field of the scene stay as they are.
\<close>

theorem stale_completion_is_noop:
  assumes "\<forall>r \<in> set scenes. scene_matches jobId sceneId r \<longrightarrow> image_gen_request_id r \<noteq> Some requestId"
  shows "complete_succeeded scenes jobId sceneId requestId path publicUrl prompt = scenes
       \<and> complete_failed scenes jobId sceneId requestId msg = scenes"
  using assms
  by (auto simp: complete_succeeded_def complete_failed_def completion_hit_def intro!: map_idI)

text \<open>
  The theorem at a scene claimed by request B when request A completes.
\<close>

theorem stale_completion_is_noop_witness:
  "complete_succeeded [(ex_scene ''r2'' 2 None)\<lparr>image_gen_request_id := Some ''B''\<rparr>]
         ''j1'' 2 ''A'' ''p'' ''u'' ''q''
       = [(ex_scene ''r2'' 2 None)\<lparr>image_gen_request_id := Some ''B''\<rparr>]
   \<and> complete_failed [(ex_scene ''r2'' 2 None)\<lparr>image_gen_request_id := Some ''B''\<rparr>]
         ''j1'' 2 ''A'' ''boom''
       = [(ex_scene ''r2'' 2 None)\<lparr>image_gen_request_id := Some ''B''\<rparr>]"
proof -
  have h: "\<forall>r \<in> set [(ex_scene ''r2'' 2 None)\<lparr>image_gen_request_id := Some ''B''\<rparr>].
      scene_matches ''j1'' 2 r \<longrightarrow> image_gen_request_id r \<noteq> Some ''A''"
    by simp
  from stale_completion_is_noop [OF h, of "''p''" "''u''" "''q''" "''boom''"]
  show ?thesis by simp
qed

section \<open>Properties of the scene image request\<close>

text \<open>
  C8: for a scene that has a stored image URL, \<^verbatim>\<open>runGenerate\<close> with \<open>force = false\<close> returns
  ALREADY_EXISTS with that URL and leaves the whole world as it was: no claim is taken,
  no call of the image provider is made, claim fields and image fields are unchanged, so
  a second call gives the same answer. The request handler answers 200 with this body.
\<close>

theorem existing_image_returned_without_generation:
  assumes "filter (\<lambda>j. jid j = jobId) (ytg_jobs w) = [j]"
      and "filter (scene_matches jobId sceneId) (ytg_scenes w) = [s]"
      and "image_url s = Some url" and "url \<noteq> []"
  shows "runGenerate env w jobId sceneId False =
           (Inr \<lparr>resp_job_id = jobId, resp_scene_id = sceneId, resp_accepted = True,
                 resp_status = ''ALREADY_EXISTS'', resp_image_url = Some url,
                 resp_message = None\<rparr>, w)
       \<and> (js_trim jobId = jobId \<and> jobId \<noteq> [] \<and> 0 < sceneId \<longrightarrow>
            generate_handler env w
              \<lparr>gq_job_id = Some jobId, gq_scene_id = Some sceneId, gq_force = False\<rparr> =
              ((200, Inr \<lparr>resp_job_id = jobId, resp_scene_id = sceneId, resp_accepted = True,
                          resp_status = ''ALREADY_EXISTS'', resp_image_url = Some url,
                          resp_message = None\<rparr>), w))"
proof -
  have run: "runGenerate env w jobId sceneId False =
           (Inr \<lparr>resp_job_id = jobId, resp_scene_id = sceneId, resp_accepted = True,
                 resp_status = ''ALREADY_EXISTS'', resp_image_url = Some url,
                 resp_message = None\<rparr>, w)"
    using assms by (simp add: runGenerate_def single_def truthy_def)
  show ?thesis
    by (simp add: run generate_handler_def str_trim_def)
qed

text \<open>
  The theorem at scene 1 of the example job, which has an image, with a provider that
  would succeed: the provider is not called.
\<close>

theorem existing_image_returned_without_generation_witness:
  "filter (\<lambda>j. jid j = ''j1'') (ytg_jobs (ex_world SUCCEEDED)) = [ex_job SUCCEEDED]
   \<and> filter (scene_matches ''j1'' 1) (ytg_scenes (ex_world SUCCEEDED)) = [ex_scene ''r1'' 1 (Some ''http://img/1'')]
   \<and> image_url (ex_scene ''r1'' 1 (Some ''http://img/1'')) = Some ''http://img/1''
   \<and> ''http://img/1'' \<noteq> []
   \<and> js_trim ''j1'' = ''j1'' \<and> ''j1'' \<noteq> [] \<and> (0::int) < 1
   \<and> runGenerate ex_gen_env (ex_world SUCCEEDED) ''j1'' 1 False =
       (Inr \<lparr>resp_job_id = ''j1'', resp_scene_id = 1, resp_accepted = True,
             resp_status = ''ALREADY_EXISTS'', resp_image_url = Some ''http://img/1'',
             resp_message = None\<rparr>, ex_world SUCCEEDED)
   \<and> generate_handler ex_gen_env (ex_world SUCCEEDED)
       \<lparr>gq_job_id = Some ''j1'', gq_scene_id = Some 1, gq_force = False\<rparr> =
       ((200, Inr \<lparr>resp_job_id = ''j1'', resp_scene_id = 1, resp_accepted = True,
                   resp_status = ''ALREADY_EXISTS'', resp_image_url = Some ''http://img/1'',
                   resp_message = None\<rparr>), ex_world SUCCEEDED)"
proof -
  have a: "filter (\<lambda>j. jid j = ''j1'') (ytg_jobs (ex_world SUCCEEDED)) = [ex_job SUCCEEDED]"
    by (simp add: ex_world_def ex_job_def)
  have b: "filter (scene_matches ''j1'' 1) (ytg_scenes (ex_world SUCCEEDED))
             = [ex_scene ''r1'' 1 (Some ''http://img/1'')]"
    by (simp add: ex_world_def ex_scene_def scene_matches_def)
  have c: "image_url (ex_scene ''r1'' 1 (Some ''http://img/1'')) = Some ''http://img/1''"
    by (simp add: ex_scene_def)
  have d: "''http://img/1'' \<noteq> []" by simp
  have t: "js_trim ''j1'' = ''j1''" by (simp add: js_trim_def is_ws_def)
  from existing_image_returned_without_generation [OF a b c d, of ex_gen_env]
  show ?thesis using a b c t by simp
qed

section \<open>Properties of the delete request\<close>

text \<open>
  C10 as stated fails: a body whose job id is the one-blank string is not empty, and the
  handler answers 400, since it tests the trimmed id.
\<close>

theorem delete_blank_job_id_rejected:
  "'' '' \<noteq> [] \<and> fst (delete_handler ex_delete_env (ex_world SUCCEEDED) (Some '' '')) =
     (400, Inl ''job_id is required'')"
  by (simp add: delete_handler_def str_trim_def js_trim_def is_ws_def)

text \<open>
  C10, amended: for every delete request whose job id is not empty after trimming, the
  response is 202 with \<open>accepted = true\<close>, whether or not a job with that id exists; and
  whatever the storage cleanup does (it may throw), the background deletion leaves no job
  row, no scene row and no asset row of that id, and keeps the other jobs.
\<close>

theorem delete_accepted_and_rows_removed:
  assumes "str_trim payload_id \<noteq> []"
  shows "fst (delete_handler env w payload_id) =
           (202, Inr \<lparr>dr_job_id = str_trim payload_id, dr_accepted = True\<rparr>)
       \<and> filter (\<lambda>j. jid j = str_trim payload_id)
           (ytg_jobs (snd (delete_handler env w payload_id))) = []
       \<and> filter (\<lambda>r. job_id r = str_trim payload_id)
           (ytg_scenes (snd (delete_handler env w payload_id))) = []
       \<and> filter (\<lambda>a. asset_job_id a = str_trim payload_id)
           (ytg_assets (snd (delete_handler env w payload_id))) = []
       \<and> filter (\<lambda>j. jid j \<noteq> str_trim payload_id)
           (ytg_jobs (snd (delete_handler env w payload_id)))
           = filter (\<lambda>j. jid j \<noteq> str_trim payload_id) (ytg_jobs w)"
  using assms
  by (auto simp: delete_handler_def runDeleteJob_def Let_def split: sum.splits)

text \<open>
  The theorem at a job id that no job has, with a storage listing that throws.
\<close>

theorem delete_accepted_and_rows_removed_witness:
  "str_trim (Some ''nope'') \<noteq> []
   \<and> delete_handler ex_delete_env (ex_world SUCCEEDED) (Some ''nope'') =
       ((202, Inr \<lparr>dr_job_id = ''nope'', dr_accepted = True\<rparr>), ex_world SUCCEEDED)"
proof -
  have t: "str_trim (Some ''nope'') = ''nope''"
    by (simp add: str_trim_def js_trim_def is_ws_def)
  have h: "str_trim (Some ''nope'') \<noteq> []" by (simp add: t)
  have w: "snd (delete_handler ex_delete_env (ex_world SUCCEEDED) (Some ''nope'')) = ex_world SUCCEEDED"
    by (simp add: delete_handler_def t runDeleteJob_def deleteStoragePrefix_def ex_delete_env_def
          ex_world_def ex_job_def ex_scene_def)
  from delete_accepted_and_rows_removed [OF h, of ex_delete_env "ex_world SUCCEEDED"]
  show ?thesis using h w by (simp add: t prod_eq_iff)
qed

section \<open>Auxiliary facts about the pipeline\<close>

text \<open>Which operations leave the ids and statuses of the jobs alone.\<close>

lemma js_persist [simp]: "job_statuses (persist_packager w k p) = job_statuses w"
  by (simp add: job_statuses_def persist_packager_def comp_def)

lemma js_console [simp]: "job_statuses (push_console w lv m) = job_statuses w"
  by (simp add: job_statuses_def push_console_def)

lemma js_call [simp]: "job_statuses (call_text w c) = job_statuses w"
  by (simp add: job_statuses_def call_text_def)

lemma js_fields [simp]:
  "job_statuses (w\<lparr>ytg_scenes := a\<rparr>) = job_statuses w"
  "job_statuses (w\<lparr>ytg_assets := b\<rparr>) = job_statuses w"
  "job_statuses (w\<lparr>storage := c\<rparr>) = job_statuses w"
  "job_statuses (w\<lparr>image_calls := d\<rparr>) = job_statuses w"
  "job_statuses (w\<lparr>text_calls := e\<rparr>) = job_statuses w"
  "job_statuses (w\<lparr>console := f\<rparr>) = job_statuses w"
  by (simp_all add: job_statuses_def)

lemma js_update_job:
  "(\<And>j. jid (f j) = jid j \<and> status (f j) = status j) \<Longrightarrow> job_statuses (update_job w k f) = job_statuses w"
  by (simp add: job_statuses_def update_job_def comp_def)

lemma status_of_map_of: "status_of w k = map_of (job_statuses w) k"
proof -
  have "(case filter (\<lambda>j. jid j = k) js of [] \<Rightarrow> None | j # _ \<Rightarrow> Some (status j))
        = map_of (map (\<lambda>j. (jid j, status j)) js) k" for js
    by (induction js) auto
  then show ?thesis by (simp add: status_of_def job_statuses_def)
qed

lemma status_of_set_status:
  assumes "\<And>j. jid (f j) = jid j" and "\<And>j. status (f j) = s"
  shows "status_of (update_job w k f) k' =
           (if k' = k then (case status_of w k of None \<Rightarrow> None | Some _ \<Rightarrow> Some s) else status_of w k')"
proof -
  have "(case filter (\<lambda>j. jid j = k') (map (\<lambda>j. if jid j = k then f j else j) js) of
           [] \<Rightarrow> None | j # _ \<Rightarrow> Some (status j))
        = (if k' = k then (case (case filter (\<lambda>j. jid j = k) js of [] \<Rightarrow> None | j # _ \<Rightarrow> Some (status j))
                             of None \<Rightarrow> None | Some _ \<Rightarrow> Some s)
           else (case filter (\<lambda>j. jid j = k') js of [] \<Rightarrow> None | j # _ \<Rightarrow> Some (status j)))" for js
    by (induction js) (auto simp: assms)
  then show ?thesis by (simp add: status_of_def update_job_def)
qed


lemma job_exists_iff: "filter (\<lambda>j. jid j = k) (ytg_jobs w) = [] \<longleftrightarrow> status_of w k = None"
  by (simp add: status_of_def split: list.splits)

text \<open>The stages of the pipeline write no job status.\<close>

lemma js_autoconfig:
  "stage_autoconfig env w k = Inl (e, w') \<Longrightarrow> job_statuses w' = job_statuses w"
  "stage_autoconfig env w k = Inr (a, w') \<Longrightarrow> job_statuses w' = job_statuses w"
  by (auto simp: stage_autoconfig_def Let_def js_update_job split: sum.splits option.splits)

lemma js_packager_call:
  "stage_packager_call env w = Inl (e, w') \<Longrightarrow> job_statuses w' = job_statuses w"
  "stage_packager_call env w = Inr (p, w') \<Longrightarrow> job_statuses w' = job_statuses w"
  by (auto simp: stage_packager_call_def Let_def split: sum.splits)

lemma js_validate:
  "stage_validate env w p tc = Inl (e, w') \<Longrightarrow> job_statuses w' = job_statuses w"
  "stage_validate env w p tc = Inr (s, w') \<Longrightarrow> job_statuses w' = job_statuses w"
  by (auto simp: stage_validate_def Let_def split: sum.splits if_splits)

lemma js_insert:
  "insert_scenes env w k rows = Inl (e, w') \<Longrightarrow> job_statuses w' = job_statuses w"
  "insert_scenes env w k rows = Inr w' \<Longrightarrow> job_statuses w' = job_statuses w"
  by (auto simp: insert_scenes_def split: option.splits if_splits)

lemma js_tts_one: "job_statuses (fst (tts_one env k sid st)) = job_statuses (fst st)"
  by (cases st) (auto simp: tts_one_def Let_def split: sum.splits option.splits prod.splits)

lemma js_tts_fold:
  "job_statuses (fst (foldl (\<lambda>st sid. tts_one env k sid st) st sids)) = job_statuses (fst st)"
  by (induction sids arbitrary: st) (simp_all add: js_tts_one)

lemma js_tts: "stage_tts env k scenes w p = (w', p', urls) \<Longrightarrow> job_statuses w' = job_statuses w"
proof -
  assume a: "stage_tts env k scenes w p = (w', p', urls)"
  have "job_statuses (fst (stage_tts env k scenes w p)) = job_statuses (fst (w, p, [] :: (int \<times> string) list))"
    unfolding stage_tts_def by (rule js_tts_fold)
  with a show ?thesis by simp
qed

text \<open>What the stages do to the scenes, the assets and the calls of the text provider.\<close>

lemma fields_persist [simp]:
  "ytg_scenes (persist_packager w k p) = ytg_scenes w"
  "ytg_assets (persist_packager w k p) = ytg_assets w"
  "text_calls (persist_packager w k p) = text_calls w"
  "image_calls (persist_packager w k p) = image_calls w"
  by (simp_all add: persist_packager_def)

lemma fields_console [simp]:
  "ytg_scenes (push_console w lv m) = ytg_scenes w"
  "ytg_assets (push_console w lv m) = ytg_assets w"
  "text_calls (push_console w lv m) = text_calls w"
  "image_calls (push_console w lv m) = image_calls w"
  "ytg_jobs (push_console w lv m) = ytg_jobs w"
  by (simp_all add: push_console_def)

lemma fields_update_job [simp]:
  "ytg_scenes (update_job w k f) = ytg_scenes w"
  "ytg_assets (update_job w k f) = ytg_assets w"
  "text_calls (update_job w k f) = text_calls w"
  "image_calls (update_job w k f) = image_calls w"
  by (simp_all add: update_job_def)

lemma fields_call_text [simp]:
  "ytg_scenes (call_text w c) = ytg_scenes w"
  "ytg_assets (call_text w c) = ytg_assets w"
  "text_calls (call_text w c) = text_calls w @ [c]"
  "ytg_jobs (call_text w c) = ytg_jobs w"
  by (simp_all add: call_text_def)

lemma view_tts_one:
  "ytg_scenes (fst (tts_one env k sid st)) = ytg_scenes (fst st) \<and>
   text_calls (fst (tts_one env k sid st)) = text_calls (fst st)"
  by (cases st) (auto simp: tts_one_def Let_def split: sum.splits option.splits prod.splits)

lemma view_tts_fold:
  "ytg_scenes (fst (foldl (\<lambda>st sid. tts_one env k sid st) st sids)) = ytg_scenes (fst st) \<and>
   text_calls (fst (foldl (\<lambda>st sid. tts_one env k sid st) st sids)) = text_calls (fst st)"
  by (induction sids arbitrary: st) (simp_all add: view_tts_one)

lemma view_tts:
  assumes "stage_tts env k scenes w p = (w', p', urls)"
  shows "ytg_scenes w' = ytg_scenes w \<and> text_calls w' = text_calls w"
proof -
  have "ytg_scenes (fst (stage_tts env k scenes w p)) = ytg_scenes (fst (w, p, [] :: (int \<times> string) list))
      \<and> text_calls (fst (stage_tts env k scenes w p)) = text_calls (fst (w, p, [] :: (int \<times> string) list))"
    unfolding stage_tts_def by (rule view_tts_fold)
  with assms show ?thesis by simp
qed

lemma view_autoconfig:
  "stage_autoconfig env w k = Inr (a, w') \<Longrightarrow>
     pe_autoconfig env = Inr a \<and> ytg_scenes w' = ytg_scenes w \<and> ytg_assets w' = ytg_assets w
     \<and> text_calls w' = text_calls w @ [AutoConfigCall]"
  by (auto simp: stage_autoconfig_def Let_def split: sum.splits option.splits)

lemma view_packager_call:
  "stage_packager_call env w = Inr (p, w') \<Longrightarrow>
     ytg_scenes w' = ytg_scenes w \<and> ytg_assets w' = ytg_assets w \<and>
     ((pe_packager_search env = Inr p \<and> text_calls w' = text_calls w @ [PackagerSearchCall])
      \<or> ((\<exists>e. pe_packager_search env = Inl e) \<and> pe_packager_plain env = Inr p \<and>
          text_calls w' = text_calls w @ [PackagerSearchCall, PackagerPlainCall]))"
  by (auto simp: stage_packager_call_def Let_def split: sum.splits)

lemma view_validate:
  "stage_validate env w p tc = Inr (s, w') \<Longrightarrow> s = normalizeScenes tc p \<and> s \<noteq> [] \<and> w' = w"
  by (auto simp: stage_validate_def Let_def split: sum.splits if_splits)

lemma view_insert:
  "insert_scenes env w k rows = Inr w' \<Longrightarrow>
     ytg_scenes w' = ytg_scenes w @ rows \<and> text_calls w' = text_calls w
     \<and> distinct (map scene_key (ytg_scenes w @ rows))"
  by (auto simp: insert_scenes_def split: option.splits if_splits)

lemma pipeline_try_success_view:
  assumes "pipeline_try env w k payload = Inr w'"
  shows "\<exists>a p calls. pe_autoconfig env = Inr a
           \<and> ((pe_packager_search env = Inr p \<and> calls = [AutoConfigCall, PackagerSearchCall])
              \<or> ((\<exists>e. pe_packager_search env = Inl e) \<and> pe_packager_plain env = Inr p
                  \<and> calls = [AutoConfigCall, PackagerSearchCall, PackagerPlainCall]))
           \<and> normalizeScenes (targetCount a) p \<noteq> []
           \<and> distinct (map scene_key (ytg_scenes w @ scene_rows env k (normalizeScenes (targetCount a) p)))
           \<and> ytg_scenes w' = ytg_scenes w @ scene_rows env k (normalizeScenes (targetCount a) p)
           \<and> text_calls w' = text_calls w @ calls"
proof -
  from assms obtain a w1 where s1: "stage_autoconfig env w k = Inr (a, w1)"
    unfolding pipeline_try_def by (auto split: sum.splits)
  from assms s1 obtain p w2 where s2: "stage_packager_call env w1 = Inr (p, w2)"
    unfolding pipeline_try_def by (auto split: sum.splits)
  from assms s1 s2 obtain scenes w3 where s3: "stage_validate env w2 p (targetCount a) = Inr (scenes, w3)"
    unfolding pipeline_try_def by (auto split: sum.splits)
  define p1 where "p1 = p\<lparr>p_logs := p_logs p @
                   [(info, PackagerDone (case p_scenes p of None \<Rightarrow> 0 | Some ss \<Rightarrow> length ss))]\<rparr>"
  define w4 where "w4 = push_console w3 info
                 (PackagerDone (case p_scenes p of None \<Rightarrow> 0 | Some ss \<Rightarrow> length ss))"
  from assms s1 s2 s3 obtain w5 where
    s5: "insert_scenes env (persist_packager w4 k (Some p1)) k (scene_rows env k scenes) = Inr w5"
    unfolding pipeline_try_def p1_def w4_def
    by (auto simp: Let_def split: sum.splits option.splits)
  obtain w6 p2 urls where s6: "stage_tts env k scenes w5 p1 = (w6, p2, urls)"
    by (cases "stage_tts env k scenes w5 p1") auto
  have fin: "ytg_scenes w' = ytg_scenes w6 \<and> text_calls w' = text_calls w6"
    using assms s1 s2 s3 s5 s6 unfolding pipeline_try_def
    by (auto simp: Let_def p1_def[symmetric] w4_def[symmetric] split: option.splits if_splits prod.splits)
  from view_autoconfig [OF s1] view_packager_call [OF s2] view_validate [OF s3]
       view_insert [OF s5] view_tts [OF s6] fin
  show ?thesis by (auto simp: w4_def)
qed

lemma pipeline_try_empty_scenes:
  assumes a: "pe_autoconfig env = Inr a" and u: "pe_autoconfig_update_error env = None"
      and pk: "pe_packager_search env = Inr p \<or>
               ((\<exists>e. pe_packager_search env = Inl e) \<and> pe_packager_plain env = Inr p)"
      and n: "normalizeScenes (targetCount a) p = []"
  shows "\<exists>e w'. pipeline_try env w k payload = Inl (e, w') \<and> ytg_scenes w' = ytg_scenes w
           \<and> ytg_assets w' = ytg_assets w
           \<and> filter is_repair (text_calls w') =
               filter is_repair (text_calls w) @ [PackagerRepairCall (targetCount a)]"
proof -
  obtain w1 where s1: "stage_autoconfig env w k = Inr (a, w1)"
    using a u by (simp add: stage_autoconfig_def Let_def)
  obtain w2 where s2: "stage_packager_call env w1 = Inr (p, w2)"
    using pk by (auto simp: stage_packager_call_def Let_def)
  have f1: "ytg_scenes w1 = ytg_scenes w \<and> ytg_assets w1 = ytg_assets w
            \<and> text_calls w1 = text_calls w @ [AutoConfigCall]"
    using view_autoconfig [OF s1] by simp
  have f2: "ytg_scenes w2 = ytg_scenes w1 \<and> ytg_assets w2 = ytg_assets w1
            \<and> filter is_repair (text_calls w2) = filter is_repair (text_calls w1)"
    using view_packager_call [OF s2] by auto
  obtain e w3 where s3: "stage_validate env w2 p (targetCount a) = Inl (e, w3)"
      and f3: "ytg_scenes w3 = ytg_scenes w2 \<and> ytg_assets w3 = ytg_assets w2
               \<and> text_calls w3 = text_calls w2 @ [PackagerRepairCall (targetCount a)]"
    using n by (cases "pe_packager_repair env") (auto simp: stage_validate_def Let_def)
  have "pipeline_try env w k payload = Inl (e, w3)"
    by (simp add: pipeline_try_def s1 s2 s3)
  with f1 f2 f3 show ?thesis by simp
qed

lemma pipeline_try_succeeds:
  assumes a: "pe_autoconfig env = Inr a" and u: "pe_autoconfig_update_error env = None"
      and pk: "pe_packager_search env = Inr p"
      and n: "normalizeScenes (targetCount a) p \<noteq> []"
      and pu: "pe_packager_update_error env = None"
      and si: "pe_scenes_insert_error env = None"
      and ex: "status_of w k \<noteq> None"
      and di: "distinct (map scene_key (ytg_scenes w @ scene_rows env k (normalizeScenes (targetCount a) p)))"
      and mi: "pe_marker_insert_error env = None"
      and fu: "pe_final_update_error env = None"
  shows "\<exists>w'. pipeline_try env w k payload = Inr w'"
proof -
  obtain w1 where s1: "stage_autoconfig env w k = Inr (a, w1)"
    using a u by (simp add: stage_autoconfig_def Let_def)
  obtain w2 where s2: "stage_packager_call env w1 = Inr (p, w2)"
    using pk by (auto simp: stage_packager_call_def Let_def)
  have s3: "stage_validate env w2 p (targetCount a) = Inr (normalizeScenes (targetCount a) p, w2)"
    using n by (simp add: stage_validate_def Let_def)
  have sc: "ytg_scenes w2 = ytg_scenes w"
    using view_autoconfig [OF s1] view_packager_call [OF s2] by simp
  have js: "job_statuses w2 = job_statuses w"
    using js_autoconfig(2) [OF s1] js_packager_call(2) [OF s2] by simp
  define p1 where "p1 = p\<lparr>p_logs := p_logs p @
                   [(info, PackagerDone (case p_scenes p of None \<Rightarrow> 0 | Some ss \<Rightarrow> length ss))]\<rparr>"
  define w4 where "w4 = persist_packager (push_console w2 info
                 (PackagerDone (case p_scenes p of None \<Rightarrow> 0 | Some ss \<Rightarrow> length ss))) k (Some p1)"
  have js4: "job_statuses w4 = job_statuses w" by (simp add: w4_def js)
  have ex4: "filter (\<lambda>j. jid j = k) (ytg_jobs w4) \<noteq> []"
    using ex by (simp add: job_exists_iff status_of_map_of js4)
  have sc4: "ytg_scenes w4 = ytg_scenes w" by (simp add: w4_def sc)
  obtain w5 where s5: "insert_scenes env w4 k (scene_rows env k (normalizeScenes (targetCount a) p)) = Inr w5"
    using si ex4 di by (simp add: insert_scenes_def sc4)
  show ?thesis
    unfolding pipeline_try_def
    by (simp add: s1 s2 s3 Let_def pu p1_def[symmetric] w4_def[symmetric] s5 mi fu split: prod.splits)
qed

lemma js_succeed:
  "job_statuses (update_job w k (\<lambda>j. j\<lparr>status := SUCCEEDED, final_package := fp, packager := p, job_error := None\<rparr>))
     = map (\<lambda>(i, s). if i = k then (i, SUCCEEDED) else (i, s)) (job_statuses w)"
  by (simp add: job_statuses_def update_job_def comp_def)

lemma js_pipeline_try:
  "pipeline_try env w k payload = Inl (e, w') \<Longrightarrow> job_statuses w' = job_statuses w"
  "pipeline_try env w k payload = Inr w' \<Longrightarrow>
     job_statuses w' = map (\<lambda>(i, s). if i = k then (i, SUCCEEDED) else (i, s)) (job_statuses w)"
  unfolding pipeline_try_def
  by (auto simp: Let_def js_succeed split: sum.splits option.splits prod.splits if_splits
      dest!: js_autoconfig js_packager_call js_validate js_insert js_tts)

lemma trims:
  "js_trim ''space'' = ''space''" "js_trim ''en'' = ''en''" "js_trim ''teens'' = ''teens''"
  "js_trim ''j1'' = ''j1''"
  by (simp_all add: js_trim_def is_ws_def)

lemma fields_mark_fail [simp]:
  "ytg_scenes (pipeline_mark_running w k) = ytg_scenes w"
  "ytg_assets (pipeline_mark_running w k) = ytg_assets w"
  "text_calls (pipeline_mark_running w k) = text_calls w"
  "ytg_scenes (pipeline_fail w k e) = ytg_scenes w"
  "ytg_assets (pipeline_fail w k e) = ytg_assets w"
  "text_calls (pipeline_fail w k e) = text_calls w"
  by (simp_all add: pipeline_mark_running_def pipeline_fail_def)

lemma status_mark_running:
  "status_of (pipeline_mark_running w k) k' =
     (if k' = k then (case status_of w k of None \<Rightarrow> None | Some _ \<Rightarrow> Some RUNNING) else status_of w k')"
  unfolding pipeline_mark_running_def by (rule status_of_set_status) simp_all

lemma status_fail:
  "status_of (pipeline_fail w k e) k' =
     (if k' = k then (case status_of w k of None \<Rightarrow> None | Some _ \<Rightarrow> Some FAILED) else status_of w k')"
  unfolding pipeline_fail_def by (rule status_of_set_status) simp_all

lemma map_of_set_succeeded:
  "map_of (map (\<lambda>(i, s). if i = k then (i, SUCCEEDED) else (i, s)) xs) k' =
     (if k' = k then (case map_of xs k of None \<Rightarrow> None | Some _ \<Rightarrow> Some SUCCEEDED) else map_of xs k')"
  by (induction xs) auto

lemma status_runPipeline:
  "status_of (runPipeline env w k payload) k' =
     (if k' = k
      then (case status_of w k of None \<Rightarrow> None
            | Some _ \<Rightarrow> (case pipeline_try env (pipeline_mark_running w k) k payload of
                           Inl _ \<Rightarrow> Some FAILED | Inr _ \<Rightarrow> Some SUCCEEDED))
      else status_of w k')"
proof (cases "pipeline_try env (pipeline_mark_running w k) k payload")
  case (Inl x)
  obtain e w' where x: "x = (e, w')" by (cases x)
  have "job_statuses w' = job_statuses (pipeline_mark_running w k)"
    using js_pipeline_try(1) Inl x by simp
  then have "status_of w' = status_of (pipeline_mark_running w k)"
    by (simp add: status_of_map_of fun_eq_iff)
  then show ?thesis
    by (simp add: runPipeline_def Inl x status_fail status_mark_running split: option.splits)
next
  case (Inr w')
  have "job_statuses w' = map (\<lambda>(i, s). if i = k then (i, SUCCEEDED) else (i, s))
                             (job_statuses (pipeline_mark_running w k))"
    using js_pipeline_try(2) Inr by simp
  then have "status_of w' k' = map_of (map (\<lambda>(i, s). if i = k then (i, SUCCEEDED) else (i, s))
                             (job_statuses (pipeline_mark_running w k))) k'"
    by (simp add: status_of_map_of)
  then show ?thesis
    by (simp add: runPipeline_def Inr map_of_set_succeeded status_of_map_of[symmetric]
          status_mark_running split: option.splits)
qed


lemma scene_rows_fields:
  "map (\<lambda>r. (job_id r, scene_id r, narration r, on_screen_text r, visual_brief r, mood r,
               duration_sec r, image_url r, image_gen_status r)) (scene_rows env k xs)
     = map (\<lambda>(sid, s). (k, sid, rs_narration s, rs_on_screen_text s, rs_visual_brief s, rs_mood s,
               rs_duration_sec s, None, None)) xs"
  by (induction xs rule: rev_induct) (auto simp: scene_rows_def enumerate_append_eq)

lemma scene_rows_keys: "map scene_key (scene_rows env k xs) = map (\<lambda>i. (k, i)) (map fst xs)"
  by (induction xs rule: rev_induct) (auto simp: scene_rows_def enumerate_append_eq scene_key_def)

lemma normalizeScenes_sorted: "sorted (map fst (normalizeScenes tc p))"
  by (simp add: normalizeScenes_def sorted_sort_key)

lemma normalizeScenes_mset:
  "mset (normalizeScenes tc p) =
     mset (map resolved_id (enumerate 0 (take (nat tc) (case p_scenes p of None \<Rightarrow> [] | Some ss \<Rightarrow> ss))))"
proof -
  have "resolved_id = (\<lambda>(i, s). (case rs_scene_id s of Some n \<Rightarrow> n | None \<Rightarrow> int i + 1, s))"
    by (simp add: fun_eq_iff resolved_id_def)
  then show ?thesis by (simp add: normalizeScenes_def)
qed


text \<open>The example inputs, evaluated.\<close>

lemma ex_tc: "targetCount \<lparr>scene_count = Some 6\<rparr> = 6"
  by (simp add: targetCount_def clamp_env_def env_number_def)

lemma ex_status: "status_of ex_reset_world ''j1'' = Some QUEUED"
  by (simp add: status_of_def ex_reset_world_def)

lemma ex_norm:
  "normalizeScenes 6 (ex_packager []) = []"
  "normalizeScenes 6 (ex_packager [Some 1]) = [(1, ex_raw_scene (Some 1))]"
  "normalizeScenes 6 (ex_packager [Some 5, None]) = [(2, ex_raw_scene None), (5, ex_raw_scene (Some 5))]"
  "normalizeScenes 6 (ex_packager [Some 2, Some 1]) = [(1, ex_raw_scene (Some 1)), (2, ex_raw_scene (Some 2))]"
  by (simp_all add: normalizeScenes_def ex_packager_def empty_packager_def ex_raw_scene_def enumerate_eq_zip)


lemma ex_run_ok:
  assumes n: "normalizeScenes 6 p \<noteq> []"
      and d: "distinct (map fst (normalizeScenes 6 p))"
  shows "\<exists>w'. pipeline_try (ex_pipe_env p) (pipeline_mark_running ex_reset_world ''j1'') ''j1'' ex_restart = Inr w'
           \<and> runPipeline (ex_pipe_env p) ex_reset_world ''j1'' ex_restart = w'
           \<and> ytg_scenes w' = scene_rows (ex_pipe_env p) ''j1'' (normalizeScenes 6 p)
           \<and> text_calls w' = [AutoConfigCall, PackagerSearchCall]
           \<and> status_of w' ''j1'' = Some SUCCEEDED"
proof -
  have sid: "map scene_id (scene_rows env k xs) = map fst xs" for env k xs
    by (induction xs rule: rev_induct) (auto simp: scene_rows_def enumerate_append_eq)
  have key: "map scene_key (scene_rows env k xs) = map (\<lambda>i. (k, i)) (map fst xs)" for env k xs
    by (induction xs rule: rev_induct) (auto simp: scene_rows_def enumerate_append_eq scene_key_def)
  have di: "distinct (map scene_key (ytg_scenes (pipeline_mark_running ex_reset_world ''j1'') @
              scene_rows (ex_pipe_env p) ''j1'' (normalizeScenes (targetCount \<lparr>scene_count = Some 6\<rparr>) p)))"
    using d by (simp add: ex_tc key ex_reset_world_def distinct_map inj_on_def)
  have ex: "status_of (pipeline_mark_running ex_reset_world ''j1'') ''j1'' \<noteq> None"
    by (simp add: status_mark_running ex_status)
  from pipeline_try_succeeds [of "ex_pipe_env p" "\<lparr>scene_count = Some 6\<rparr>" p
         "pipeline_mark_running ex_reset_world ''j1''" "''j1''" ex_restart]
  obtain w' where t: "pipeline_try (ex_pipe_env p) (pipeline_mark_running ex_reset_world ''j1'') ''j1'' ex_restart = Inr w'"
    using n di ex by (auto simp: ex_pipe_env_def ex_tc)
  from pipeline_try_success_view [OF t]
  have v: "ytg_scenes w' = scene_rows (ex_pipe_env p) ''j1'' (normalizeScenes 6 p)
         \<and> text_calls w' = [AutoConfigCall, PackagerSearchCall]"
    by (auto simp: ex_pipe_env_def ex_tc ex_reset_world_def)
  have r: "runPipeline (ex_pipe_env p) ex_reset_world ''j1'' ex_restart = w'"
    by (simp add: runPipeline_def t)
  have s: "status_of (runPipeline (ex_pipe_env p) ex_reset_world ''j1'' ex_restart) ''j1'' = Some SUCCEEDED"
    by (simp add: status_runPipeline t ex_status)
  show ?thesis using t v r s by simp
qed

text \<open>
  The bulk insert: when it fails it leaves the world alone, and a non-empty insert succeeds
  exactly when the environment reports no error, the job exists and no key is repeated.
\<close>

lemma insert_scenes_Inl_world: "insert_scenes env w k rows = Inl (e, w') \<Longrightarrow> w' = w"
  by (auto simp: insert_scenes_def split: option.splits if_splits)

lemma insert_scenes_ok_iff:
  "rows \<noteq> [] \<Longrightarrow>
   (\<exists>w'. insert_scenes env w k rows = Inr w') \<longleftrightarrow>
     (pe_scenes_insert_error env = None \<and> status_of w k \<noteq> None
      \<and> distinct (map scene_key (ytg_scenes w @ rows)))"
  by (auto simp: insert_scenes_def job_exists_iff split: option.splits)

lemma scene_rows_Nil_iff: "scene_rows env k xs = [] \<longleftrightarrow> xs = []"
  by (simp add: scene_rows_def enumerate_eq_zip)

text \<open>
  The run of the pipeline when the normalised scene list is not empty: no repair request is
  sent; when the update of the packager document and the bulk insert go through (\<open>ok\<close>) the
  rows are in the table whatever happens later, otherwise the run fails with the scenes
  and the assets as they were.
\<close>

lemma pipeline_try_nonempty:
  assumes a: "pe_autoconfig env = Inr a" and u: "pe_autoconfig_update_error env = None"
      and pk: "pe_packager_search env = Inr p \<or>
               ((\<exists>e. pe_packager_search env = Inl e) \<and> pe_packager_plain env = Inr p)"
      and n: "normalizeScenes (targetCount a) p \<noteq> []"
      and okd: "ok \<longleftrightarrow> pe_packager_update_error env = None \<and> pe_scenes_insert_error env = None
                       \<and> status_of w k \<noteq> None
                       \<and> distinct (map scene_key (ytg_scenes w @ scene_rows env k (normalizeScenes (targetCount a) p)))"
  shows "\<exists>w'. ((\<exists>e. pipeline_try env w k payload = Inl (e, w')
                  \<and> (ok \<longrightarrow> pe_marker_insert_error env \<noteq> None \<or> pe_final_update_error env \<noteq> None))
               \<or> (pipeline_try env w k payload = Inr w' \<and> ok))
          \<and> filter is_repair (text_calls w') = filter is_repair (text_calls w)
          \<and> (\<not> ok \<longrightarrow> ytg_assets w' = ytg_assets w)
          \<and> ytg_scenes w' =
              (if ok then ytg_scenes w @ scene_rows env k (normalizeScenes (targetCount a) p)
               else ytg_scenes w)"
proof -
  let ?N = "normalizeScenes (targetCount a) p"
  let ?rows = "scene_rows env k ?N"
  obtain w1 where s1: "stage_autoconfig env w k = Inr (a, w1)"
    using a u by (simp add: stage_autoconfig_def Let_def)
  obtain w2 where s2: "stage_packager_call env w1 = Inr (p, w2)"
    using pk by (auto simp: stage_packager_call_def Let_def)
  have s3: "stage_validate env w2 p (targetCount a) = Inr (?N, w2)"
    using n by (simp add: stage_validate_def Let_def)
  have sc: "ytg_scenes w2 = ytg_scenes w" "ytg_assets w2 = ytg_assets w"
    using view_autoconfig [OF s1] view_packager_call [OF s2] by simp_all
  have tc: "filter is_repair (text_calls w2) = filter is_repair (text_calls w)"
    using view_autoconfig [OF s1] view_packager_call [OF s2] by auto
  have js: "job_statuses w2 = job_statuses w"
    using js_autoconfig(2) [OF s1] js_packager_call(2) [OF s2] by simp
  define p1 where "p1 = p\<lparr>p_logs := p_logs p @
                   [(info, PackagerDone (case p_scenes p of None \<Rightarrow> 0 | Some ss \<Rightarrow> length ss))]\<rparr>"
  define w3 where "w3 = push_console w2 info
                 (PackagerDone (case p_scenes p of None \<Rightarrow> 0 | Some ss \<Rightarrow> length ss))"
  define w4 where "w4 = persist_packager w3 k (Some p1)"
  have f4: "ytg_scenes w4 = ytg_scenes w" "text_calls w4 = text_calls w2"
    "ytg_scenes w3 = ytg_scenes w" "text_calls w3 = text_calls w2"
    "ytg_assets w4 = ytg_assets w" "ytg_assets w3 = ytg_assets w"
    by (simp_all add: w4_def w3_def sc)
  have st4: "status_of w4 k = status_of w k"
    by (simp add: status_of_map_of w4_def w3_def js)
  have rne: "?rows \<noteq> []" using n by (simp add: scene_rows_Nil_iff)
  show ?thesis
  proof (cases "pe_packager_update_error env")
    case (Some m)
    have "pipeline_try env w k payload = Inl (Error (''packager DB update failed: '' @ m), w3)"
      by (simp add: pipeline_try_def s1 s2 s3 Let_def Some w3_def)
    then show ?thesis using f4 tc Some okd by auto
  next
    case None
    show ?thesis
    proof (cases "insert_scenes env w4 k ?rows")
      case (Inl x)
      obtain e wx where x: "x = (e, wx)" by (cases x)
      have wx: "wx = w4" using Inl x insert_scenes_Inl_world by blast
      have no: "\<not> (pe_scenes_insert_error env = None \<and> status_of w k \<noteq> None
                  \<and> distinct (map scene_key (ytg_scenes w @ ?rows)))"
        using insert_scenes_ok_iff [OF rne, of env w4 k] Inl by (simp add: f4 st4)
      have "pipeline_try env w k payload = Inl (e, w4)"
        by (simp add: pipeline_try_def s1 s2 s3 Let_def None p1_def [symmetric] w3_def [symmetric]
              w4_def [symmetric] Inl x wx)
      then show ?thesis using f4 tc no okd by auto
    next
      case (Inr w5)
      have ok: "pe_scenes_insert_error env = None \<and> status_of w k \<noteq> None
                  \<and> distinct (map scene_key (ytg_scenes w @ ?rows))"
        using insert_scenes_ok_iff [OF rne, of env w4 k] Inr by (simp add: f4 st4)
      have f5: "ytg_scenes w5 = ytg_scenes w @ ?rows" "text_calls w5 = text_calls w2"
        using view_insert [OF Inr] by (simp_all add: f4)
      obtain w6 p2 urls where s6: "stage_tts env k ?N w5 p1 = (w6, p2, urls)"
        by (cases "stage_tts env k ?N w5 p1") auto
      have f6: "ytg_scenes w6 = ytg_scenes w5" "text_calls w6 = text_calls w5"
        using view_tts [OF s6] by simp_all
      have "\<exists>w'. ((\<exists>e. pipeline_try env w k payload = Inl (e, w')
                      \<and> (pe_marker_insert_error env \<noteq> None \<or> pe_final_update_error env \<noteq> None))
                   \<or> pipeline_try env w k payload = Inr w')
                 \<and> ytg_scenes w' = ytg_scenes w6 \<and> text_calls w' = text_calls w6"
        by (auto simp add: pipeline_try_def s1 s2 s3 Let_def None p1_def [symmetric] w3_def [symmetric]
              w4_def [symmetric] Inr s6 split: prod.splits option.splits)
      then show ?thesis using f5 f6 tc ok None okd by auto
    qed
  qed
qed

lemma pipeline_try_Inr_late:
  "pipeline_try env w k payload = Inr w' \<Longrightarrow>
     pe_marker_insert_error env = None \<and> pe_final_update_error env = None"
  unfolding pipeline_try_def
  by (auto simp: Let_def split: sum.splits option.splits prod.splits if_splits)

text \<open>The keys of the rows of a job that has no rows yet.\<close>

lemma scene_rows_ids: "map scene_id (scene_rows env k xs) = map fst xs"
  by (induction xs rule: rev_induct) (auto simp: scene_rows_def enumerate_append_eq)

lemma fresh_keys:
  assumes fresh: "filter (\<lambda>r. job_id r = k) (ytg_scenes w) = []"
      and dw: "distinct (map scene_key (ytg_scenes w))"
  shows "distinct (map scene_key (ytg_scenes w @ scene_rows env k xs)) \<longleftrightarrow> distinct (map fst xs)"
proof -
  have disj: "set (map scene_key (ytg_scenes w)) \<inter> set (map (\<lambda>i. (k, i)) (map fst xs)) = {}"
  proof -
    have "job_id r \<noteq> k" if "r \<in> set (ytg_scenes w)" for r
      using fresh that by (auto simp: filter_empty_conv)
    then show ?thesis by (auto simp: scene_key_def)
  qed
  have "distinct (map (\<lambda>i. (k, i)) (map fst xs)) \<longleftrightarrow> distinct (map fst xs)"
    by (simp add: distinct_map inj_on_def)
  then show ?thesis using dw disj by (simp add: scene_rows_keys)
qed

text \<open>More of the example inputs, evaluated.\<close>

lemma ex_norm_collision:
  "normalizeScenes 6 (ex_packager [Some 2, None]) = [(2, ex_raw_scene (Some 2)), (2, ex_raw_scene None)]"
  by (simp add: normalizeScenes_def ex_packager_def empty_packager_def ex_raw_scene_def enumerate_eq_zip)

lemma ex_pipe_fields:
  "pe_autoconfig (ex_pipe_env p) = Inr \<lparr>scene_count = Some 6\<rparr>"
  "pe_autoconfig_update_error (ex_pipe_env p) = None"
  "pe_packager_search (ex_pipe_env p) = Inr p"
  "pe_packager_update_error (ex_pipe_env p) = None"
  "pe_scenes_insert_error (ex_pipe_env p) = None"
  "pe_marker_insert_error (ex_pipe_env p) = None"
  "pe_final_update_error (ex_pipe_env p) = None"
  by (simp_all add: ex_pipe_env_def)

lemma ex_reset_tables:
  "ytg_scenes ex_reset_world = []" "ytg_assets ex_reset_world = []" "text_calls ex_reset_world = []"
  by (simp_all add: ex_reset_world_def)


section \<open>Properties of stage 2 of the pipeline\<close>

text \<open>
  C5 as stated fails: the configuration asks for six scenes and the model answers with
  one well-formed scene. No repair request is sent (the calls of the text provider are
  the configuration call and the packager call) and the job succeeds: the code asks for a
  repair only when the normalised scene list is empty.
\<close>

theorem short_scene_list_not_repaired:
  "targetCount \<lparr>scene_count = Some 6\<rparr> = 6
   \<and> length (normalizeScenes 6 (ex_packager [Some 1])) = 1
   \<and> text_calls (runPipeline (ex_pipe_env (ex_packager [Some 1])) ex_reset_world ''j1'' ex_restart)
       = [AutoConfigCall, PackagerSearchCall]
   \<and> status_of (runPipeline (ex_pipe_env (ex_packager [Some 1])) ex_reset_world ''j1'' ex_restart) ''j1''
       = Some SUCCEEDED"
  using ex_run_ok [of "ex_packager [Some 1]"] by (auto simp: ex_norm ex_tc)


text \<open>
  C5, amended: in every run in which the configuration call and the stage-2 call succeed,
  a repair request is sent exactly when the normalised scene list of the stage-2 answer is
  empty. When it is empty, exactly one repair request (with the stricter instructions, for
  the configured scene count) is sent during the whole run, whatever that request returns;
  the job ends FAILED and no scene row and no asset row is inserted (as the code is
  written this holds for every answer of the repair request, so in particular when the
  request fails or its answer is empty as well; the text of the error is left open). When
  the list is not empty, also when it has fewer scenes than configured, no repair request
  is sent and the run goes on with that list: when no later step fails the job ends
  SUCCEEDED with exactly the rows of that list inserted.
\<close>

theorem repair_request_iff_scene_list_empty:
  assumes ex: "status_of w jobId \<noteq> None"
      and a: "pe_autoconfig env = Inr a" and u: "pe_autoconfig_update_error env = None"
      and pk: "pe_packager_search env = Inr p \<or>
               ((\<exists>e. pe_packager_search env = Inl e) \<and> pe_packager_plain env = Inr p)"
  shows "(normalizeScenes (targetCount a) p = [] \<longrightarrow>
            filter is_repair (text_calls (runPipeline env w jobId payload)) =
              filter is_repair (text_calls w) @ [PackagerRepairCall (targetCount a)]
          \<and> status_of (runPipeline env w jobId payload) jobId = Some FAILED
          \<and> ytg_scenes (runPipeline env w jobId payload) = ytg_scenes w
          \<and> ytg_assets (runPipeline env w jobId payload) = ytg_assets w)
       \<and> (normalizeScenes (targetCount a) p \<noteq> [] \<longrightarrow>
            filter is_repair (text_calls (runPipeline env w jobId payload)) =
              filter is_repair (text_calls w)
          \<and> (pe_packager_update_error env = None \<and> pe_scenes_insert_error env = None
               \<and> distinct (map scene_key (ytg_scenes w @
                    scene_rows env jobId (normalizeScenes (targetCount a) p)))
               \<and> pe_marker_insert_error env = None \<and> pe_final_update_error env = None
             \<longrightarrow> status_of (runPipeline env w jobId payload) jobId = Some SUCCEEDED
               \<and> ytg_scenes (runPipeline env w jobId payload) =
                   ytg_scenes w @ scene_rows env jobId (normalizeScenes (targetCount a) p)))"
proof (intro conjI impI)
  assume n: "normalizeScenes (targetCount a) p = []"
  from pipeline_try_empty_scenes [OF a u pk n, of "pipeline_mark_running w jobId" jobId payload]
  obtain e w' where t: "pipeline_try env (pipeline_mark_running w jobId) jobId payload = Inl (e, w')"
    and f: "ytg_scenes w' = ytg_scenes w" "ytg_assets w' = ytg_assets w"
      "filter is_repair (text_calls w') = filter is_repair (text_calls w) @ [PackagerRepairCall (targetCount a)]"
    by auto
  show "filter is_repair (text_calls (runPipeline env w jobId payload)) =
              filter is_repair (text_calls w) @ [PackagerRepairCall (targetCount a)]"
    using f by (simp add: runPipeline_def t)
  show "status_of (runPipeline env w jobId payload) jobId = Some FAILED"
    using ex by (auto simp: status_runPipeline t)
  show "ytg_scenes (runPipeline env w jobId payload) = ytg_scenes w"
    using f by (simp add: runPipeline_def t)
  show "ytg_assets (runPipeline env w jobId payload) = ytg_assets w"
    using f by (simp add: runPipeline_def t)
next
  assume n: "normalizeScenes (targetCount a) p \<noteq> []"
  from pipeline_try_nonempty [OF a u pk n refl, of "pipeline_mark_running w jobId" jobId payload]
  obtain w' where
    r: "(\<exists>e. pipeline_try env (pipeline_mark_running w jobId) jobId payload = Inl (e, w'))
        \<or> pipeline_try env (pipeline_mark_running w jobId) jobId payload = Inr w'"
    and c: "filter is_repair (text_calls w') = filter is_repair (text_calls w)"
    by (auto simp del: distinct_append map_append)
  show "filter is_repair (text_calls (runPipeline env w jobId payload)) = filter is_repair (text_calls w)"
    using r c by (auto simp: runPipeline_def)
next
  assume n: "normalizeScenes (targetCount a) p \<noteq> []"
  assume ok: "pe_packager_update_error env = None \<and> pe_scenes_insert_error env = None
               \<and> distinct (map scene_key (ytg_scenes w @
                    scene_rows env jobId (normalizeScenes (targetCount a) p)))
               \<and> pe_marker_insert_error env = None \<and> pe_final_update_error env = None"
  have ex': "status_of (pipeline_mark_running w jobId) jobId \<noteq> None"
    using ex by (auto simp: status_mark_running)
  have okd: "True \<longleftrightarrow> pe_packager_update_error env = None \<and> pe_scenes_insert_error env = None
       \<and> status_of (pipeline_mark_running w jobId) jobId \<noteq> None
       \<and> distinct (map scene_key (ytg_scenes (pipeline_mark_running w jobId) @
             scene_rows env jobId (normalizeScenes (targetCount a) p)))"
    using ok ex' by simp
  from pipeline_try_nonempty [OF a u pk n okd, of payload] ok
  obtain w' where t: "pipeline_try env (pipeline_mark_running w jobId) jobId payload = Inr w'"
    and s: "ytg_scenes w' = ytg_scenes w @ scene_rows env jobId (normalizeScenes (targetCount a) p)"
    by auto
  show "status_of (runPipeline env w jobId payload) jobId = Some SUCCEEDED"
    using ex by (auto simp: status_runPipeline t)
  show "ytg_scenes (runPipeline env w jobId payload) =
          ytg_scenes w @ scene_rows env jobId (normalizeScenes (targetCount a) p)"
    using s by (simp add: runPipeline_def t)
qed


text \<open>
  The theorem at a restarted job: when the stage-2 answer and the repair answer both have
  no scenes; when the stage-2 answer has no scenes and the repair answer has one; and when
  the stage-2 answer has one scene of the six configured.
\<close>

theorem repair_request_iff_scene_list_empty_witness:
  "filter is_repair (text_calls (runPipeline (ex_pipe_env (ex_packager [])) ex_reset_world ''j1'' ex_restart))
     = [PackagerRepairCall 6]
   \<and> status_of (runPipeline (ex_pipe_env (ex_packager [])) ex_reset_world ''j1'' ex_restart) ''j1''
       = Some FAILED
   \<and> ytg_scenes (runPipeline (ex_pipe_env (ex_packager [])) ex_reset_world ''j1'' ex_restart) = []
   \<and> ytg_assets (runPipeline (ex_pipe_env (ex_packager [])) ex_reset_world ''j1'' ex_restart) = []
   \<and> filter is_repair (text_calls (runPipeline
         ((ex_pipe_env (ex_packager []))\<lparr>pe_packager_repair := Inr (ex_packager [Some 1])\<rparr>)
         ex_reset_world ''j1'' ex_restart))
       = [PackagerRepairCall 6]
   \<and> filter is_repair (text_calls (runPipeline (ex_pipe_env (ex_packager [Some 1])) ex_reset_world ''j1'' ex_restart))
       = []
   \<and> status_of (runPipeline (ex_pipe_env (ex_packager [Some 1])) ex_reset_world ''j1'' ex_restart) ''j1''
       = Some SUCCEEDED
   \<and> map scene_id (ytg_scenes (runPipeline (ex_pipe_env (ex_packager [Some 1])) ex_reset_world ''j1'' ex_restart))
       = [1]"
proof -
  have ex: "status_of ex_reset_world ''j1'' \<noteq> None" by (simp add: ex_status)
  have pk: "pe_packager_search (ex_pipe_env p) = Inr p \<or>
       ((\<exists>e. pe_packager_search (ex_pipe_env p) = Inl e) \<and> pe_packager_plain (ex_pipe_env p) = Inr p)" for p
    by (simp add: ex_pipe_fields)
  have one: "filter is_repair (text_calls (runPipeline (ex_pipe_env (ex_packager [])) ex_reset_world ''j1'' ex_restart))
     = [PackagerRepairCall 6]
   \<and> status_of (runPipeline (ex_pipe_env (ex_packager [])) ex_reset_world ''j1'' ex_restart) ''j1''
       = Some FAILED
   \<and> ytg_scenes (runPipeline (ex_pipe_env (ex_packager [])) ex_reset_world ''j1'' ex_restart) = []
   \<and> ytg_assets (runPipeline (ex_pipe_env (ex_packager [])) ex_reset_world ''j1'' ex_restart) = []"
    using repair_request_iff_scene_list_empty [OF ex ex_pipe_fields(1) ex_pipe_fields(2) pk,
            of "ex_packager []" ex_restart]
    by (simp add: ex_tc ex_norm ex_reset_tables)
  have two: "filter is_repair (text_calls (runPipeline
         ((ex_pipe_env (ex_packager []))\<lparr>pe_packager_repair := Inr (ex_packager [Some 1])\<rparr>)
         ex_reset_world ''j1'' ex_restart))
       = [PackagerRepairCall 6]"
    using repair_request_iff_scene_list_empty [of ex_reset_world "''j1''"
            "(ex_pipe_env (ex_packager []))\<lparr>pe_packager_repair := Inr (ex_packager [Some 1])\<rparr>"
            "\<lparr>scene_count = Some 6\<rparr>" "ex_packager []" ex_restart]
    by (simp add: ex_status ex_pipe_fields ex_tc ex_norm ex_reset_tables)
  have three: "filter is_repair (text_calls (runPipeline (ex_pipe_env (ex_packager [Some 1])) ex_reset_world ''j1'' ex_restart))
       = []
   \<and> status_of (runPipeline (ex_pipe_env (ex_packager [Some 1])) ex_reset_world ''j1'' ex_restart) ''j1''
       = Some SUCCEEDED
   \<and> map scene_id (ytg_scenes (runPipeline (ex_pipe_env (ex_packager [Some 1])) ex_reset_world ''j1'' ex_restart))
       = [1]"
    using repair_request_iff_scene_list_empty [OF ex ex_pipe_fields(1) ex_pipe_fields(2) pk,
            of "ex_packager [Some 1]" ex_restart]
    by (simp add: ex_tc ex_norm ex_reset_tables ex_pipe_fields scene_rows_keys scene_rows_ids)
  show ?thesis using one two three by simp
qed


text \<open>
  C6 as stated fails: the validated list has a scene with index 5 followed by a scene
  without index. The job succeeds and the inserted rows have the scene ids 2 and 5: the
  scene without index got its position in the list, and nothing was renumbered to 1, 2.
\<close>

theorem missing_index_not_renumbered:
  "map scene_id (ytg_scenes (runPipeline (ex_pipe_env (ex_packager [Some 5, None])) ex_reset_world ''j1'' ex_restart))
     = [2, 5]
   \<and> status_of (runPipeline (ex_pipe_env (ex_packager [Some 5, None])) ex_reset_world ''j1'' ex_restart) ''j1''
       = Some SUCCEEDED"
  using ex_run_ok [of "ex_packager [Some 5, None]"]
  by (auto simp: ex_norm scene_rows_def enumerate_eq_zip)


text \<open>
  C6, amended: take a run in which the configuration call and the stage-2 call succeed, the
  job exists and has no scene rows yet (a new or a restarted job), and the update of the
  packager document and the bulk insert meet no other database error. The rows of the bulk
  insert are those of the normalised stage-2 list: the first \<open>targetCount\<close> scenes of the
  answer, each with its own scene id when that is a finite number and with its position in
  the list (counted from one) otherwise, in ascending order of scene id, equal to that
  list in count and fields; nothing is renumbered to 1..N. When the scene ids of that list
  are pairwise different, all rows are inserted, and they stay in the table whatever the
  later steps do. When two of them are equal (a scene id repeated in the answer, or a
  position filled in that meets a scene id of the answer), the unique index rejects the
  insert: no scene row and no asset row is inserted and the job ends FAILED.
\<close>

theorem scene_insert_all_or_nothing:
  assumes ex: "status_of w jobId \<noteq> None"
      and a: "pe_autoconfig env = Inr a" and u: "pe_autoconfig_update_error env = None"
      and pk: "pe_packager_search env = Inr p \<or>
               ((\<exists>e. pe_packager_search env = Inl e) \<and> pe_packager_plain env = Inr p)"
      and pu: "pe_packager_update_error env = None"
      and si: "pe_scenes_insert_error env = None"
      and fresh: "filter (\<lambda>r. job_id r = jobId) (ytg_scenes w) = []"
      and dw: "distinct (map scene_key (ytg_scenes w))"
  shows "(distinct (map fst (normalizeScenes (targetCount a) p)) \<longrightarrow>
            ytg_scenes (runPipeline env w jobId payload) =
              ytg_scenes w @ scene_rows env jobId (normalizeScenes (targetCount a) p))
       \<and> (\<not> distinct (map fst (normalizeScenes (targetCount a) p)) \<longrightarrow>
            ytg_scenes (runPipeline env w jobId payload) = ytg_scenes w
          \<and> ytg_assets (runPipeline env w jobId payload) = ytg_assets w
          \<and> status_of (runPipeline env w jobId payload) jobId = Some FAILED)
       \<and> map scene_id (scene_rows env jobId (normalizeScenes (targetCount a) p))
           = map fst (normalizeScenes (targetCount a) p)
       \<and> sorted (map fst (normalizeScenes (targetCount a) p))
       \<and> mset (normalizeScenes (targetCount a) p) =
           mset (map resolved_id (enumerate 0 (take (nat (targetCount a))
                  (case p_scenes p of None \<Rightarrow> [] | Some ss \<Rightarrow> ss))))
       \<and> map (\<lambda>r. (job_id r, scene_id r, narration r, on_screen_text r, visual_brief r, mood r,
                    duration_sec r, image_url r, image_gen_status r))
              (scene_rows env jobId (normalizeScenes (targetCount a) p))
           = map (\<lambda>(sid, s). (jobId, sid, rs_narration s, rs_on_screen_text s, rs_visual_brief s,
                    rs_mood s, rs_duration_sec s, None, None))
              (normalizeScenes (targetCount a) p)"
proof -
  let ?N = "normalizeScenes (targetCount a) p"
  let ?w0 = "pipeline_mark_running w jobId"
  have ex': "status_of ?w0 jobId \<noteq> None"
    using ex by (auto simp: status_mark_running)
  have keys: "distinct (map scene_key (ytg_scenes ?w0 @ scene_rows env jobId ?N)) \<longleftrightarrow> distinct (map fst ?N)"
    using fresh_keys [of jobId ?w0 env ?N] fresh dw by simp
  have ins: "distinct (map fst ?N) \<longrightarrow>
               ytg_scenes (runPipeline env w jobId payload) = ytg_scenes w @ scene_rows env jobId ?N"
  proof (cases "?N = []")
    case True
    from pipeline_try_empty_scenes [OF a u pk True, of ?w0 jobId payload]
    obtain e w' where t: "pipeline_try env ?w0 jobId payload = Inl (e, w')"
      and f: "ytg_scenes w' = ytg_scenes w" by auto
    show ?thesis using f by (simp add: runPipeline_def t True scene_rows_def)
  next
    case False
    have okd: "distinct (map fst ?N) \<longleftrightarrow> pe_packager_update_error env = None \<and> pe_scenes_insert_error env = None
         \<and> status_of ?w0 jobId \<noteq> None
         \<and> distinct (map scene_key (ytg_scenes ?w0 @ scene_rows env jobId ?N))"
      using pu si ex' keys by simp
    from pipeline_try_nonempty [OF a u pk False okd, of payload]
    obtain w' where
      r: "(\<exists>e. pipeline_try env ?w0 jobId payload = Inl (e, w'))
          \<or> pipeline_try env ?w0 jobId payload = Inr w'"
      and s: "ytg_scenes w' =
              (if distinct (map fst ?N) then ytg_scenes ?w0 @ scene_rows env jobId ?N
               else ytg_scenes ?w0)"
      by auto
    have "ytg_scenes (runPipeline env w jobId payload) = ytg_scenes w'"
      using r by (auto simp: runPipeline_def)
    then show ?thesis using s by simp
  qed
  have rej: "\<not> distinct (map fst ?N) \<longrightarrow>
            ytg_scenes (runPipeline env w jobId payload) = ytg_scenes w
          \<and> ytg_assets (runPipeline env w jobId payload) = ytg_assets w
          \<and> status_of (runPipeline env w jobId payload) jobId = Some FAILED"
  proof
    assume nd: "\<not> distinct (map fst ?N)"
    then have ne: "?N \<noteq> []" by auto
    have okd: "False \<longleftrightarrow> pe_packager_update_error env = None \<and> pe_scenes_insert_error env = None
                  \<and> status_of ?w0 jobId \<noteq> None
                  \<and> distinct (map scene_key (ytg_scenes ?w0 @ scene_rows env jobId ?N))"
      using nd keys by simp
    from pipeline_try_nonempty [OF a u pk ne okd, of payload]
    obtain e w' where t: "pipeline_try env ?w0 jobId payload = Inl (e, w')"
      and s: "ytg_scenes w' = ytg_scenes ?w0" and as: "ytg_assets w' = ytg_assets ?w0"
      by auto
    have st: "status_of (runPipeline env w jobId payload) jobId = Some FAILED"
      using ex by (auto simp: status_runPipeline t)
    show "ytg_scenes (runPipeline env w jobId payload) = ytg_scenes w
          \<and> ytg_assets (runPipeline env w jobId payload) = ytg_assets w
          \<and> status_of (runPipeline env w jobId payload) jobId = Some FAILED"
      using s as st by (simp add: runPipeline_def t)
  qed
  show ?thesis
    using ins rej
    by (simp add: scene_rows_ids normalizeScenes_sorted normalizeScenes_mset scene_rows_fields)
qed


text \<open>
  The theorem at a restarted job: when the answer lists scene 2 before scene 1; when the
  answer has scene 2 followed by a scene without id, which gets position 2; and when the
  answer lists scene 2 before scene 1 and the insert of the marker asset fails afterwards.
\<close>

theorem scene_insert_all_or_nothing_witness:
  "map scene_id (ytg_scenes (runPipeline (ex_pipe_env (ex_packager [Some 2, Some 1])) ex_reset_world ''j1'' ex_restart))
     = [1, 2]
   \<and> ytg_scenes (runPipeline (ex_pipe_env (ex_packager [Some 2, None])) ex_reset_world ''j1'' ex_restart) = []
   \<and> status_of (runPipeline (ex_pipe_env (ex_packager [Some 2, None])) ex_reset_world ''j1'' ex_restart) ''j1''
       = Some FAILED
   \<and> map scene_id (ytg_scenes (runPipeline
         ((ex_pipe_env (ex_packager [Some 2, Some 1]))\<lparr>pe_marker_insert_error := Some ''marker''\<rparr>)
         ex_reset_world ''j1'' ex_restart))
       = [1, 2]
   \<and> status_of (runPipeline
         ((ex_pipe_env (ex_packager [Some 2, Some 1]))\<lparr>pe_marker_insert_error := Some ''marker''\<rparr>)
         ex_reset_world ''j1'' ex_restart) ''j1''
       = Some FAILED"
proof -
  have ex: "status_of ex_reset_world ''j1'' \<noteq> None" by (simp add: ex_status)
  have fresh: "filter (\<lambda>r. job_id r = ''j1'') (ytg_scenes ex_reset_world) = []"
    and dw: "distinct (map scene_key (ytg_scenes ex_reset_world))"
    by (simp_all add: ex_reset_tables)
  have pk: "pe_packager_search (ex_pipe_env p) = Inr p \<or>
       ((\<exists>e. pe_packager_search (ex_pipe_env p) = Inl e) \<and> pe_packager_plain (ex_pipe_env p) = Inr p)" for p
    by (simp add: ex_pipe_fields)
  have one: "map scene_id (ytg_scenes (runPipeline (ex_pipe_env (ex_packager [Some 2, Some 1])) ex_reset_world ''j1'' ex_restart))
     = [1, 2]"
    using scene_insert_all_or_nothing [OF ex ex_pipe_fields(1) ex_pipe_fields(2) pk
            ex_pipe_fields(4) ex_pipe_fields(5) fresh dw, of "ex_packager [Some 2, Some 1]" ex_restart]
    by (simp add: ex_tc ex_norm ex_reset_tables)
  have two: "ytg_scenes (runPipeline (ex_pipe_env (ex_packager [Some 2, None])) ex_reset_world ''j1'' ex_restart) = []
   \<and> status_of (runPipeline (ex_pipe_env (ex_packager [Some 2, None])) ex_reset_world ''j1'' ex_restart) ''j1''
       = Some FAILED"
    using scene_insert_all_or_nothing [OF ex ex_pipe_fields(1) ex_pipe_fields(2) pk
            ex_pipe_fields(4) ex_pipe_fields(5) fresh dw, of "ex_packager [Some 2, None]" ex_restart]
    by (simp add: ex_tc ex_norm_collision ex_reset_tables)
  let ?E = "(ex_pipe_env (ex_packager [Some 2, Some 1]))\<lparr>pe_marker_insert_error := Some ''marker''\<rparr>"
  have three: "map scene_id (ytg_scenes (runPipeline ?E ex_reset_world ''j1'' ex_restart)) = [1, 2]"
    using scene_insert_all_or_nothing [of ex_reset_world "''j1''" ?E "\<lparr>scene_count = Some 6\<rparr>"
            "ex_packager [Some 2, Some 1]" ex_restart]
    by (simp add: ex_status ex_pipe_fields ex_tc ex_norm ex_reset_tables)
  have four: "status_of (runPipeline ?E ex_reset_world ''j1'' ex_restart) ''j1'' = Some FAILED"
  proof (cases "pipeline_try ?E (pipeline_mark_running ex_reset_world ''j1'') ''j1'' ex_restart")
    case (Inl x)
    then show ?thesis by (simp add: status_runPipeline ex_status)
  next
    case (Inr w')
    from pipeline_try_Inr_late [OF Inr] show ?thesis by simp
  qed
  show ?thesis using one two three four by simp
qed


section \<open>Properties of the job status\<close>

text \<open>What the start handler does to the job row.\<close>

lemma single_InrD: "single xs = Inr x \<Longrightarrow> xs = [x]"
  by (auto simp: single_def split: list.splits)

lemma status_of_append:
  "status_of (w\<lparr>ytg_jobs := ytg_jobs w @ [j]\<rparr>) k =
     (case status_of w k of Some s \<Rightarrow> Some s
      | None \<Rightarrow> if jid j = k then Some (status j) else None)"
  by (simp add: status_of_def split: list.splits)

lemma status_of_fields [simp]:
  "status_of (w\<lparr>ytg_scenes := a\<rparr>) k = status_of w k"
  "status_of (w\<lparr>ytg_assets := b\<rparr>) k = status_of w k"
  "status_of (w\<lparr>storage := st\<rparr>) k = status_of w k"
  by (simp_all add: status_of_def)

lemma status_of_None_iff: "status_of w k = None \<longleftrightarrow> k \<notin> set (map jid (ytg_jobs w))"
  unfolding job_exists_iff [symmetric] by (auto simp: filter_empty_conv)

lemma start_accept_status:
  assumes "start_accept env w payload = Inr (k, t, w1)"
  shows "status_of w1 k = Some QUEUED \<and> (\<forall>k'. k' \<noteq> k \<longrightarrow> status_of w1 k' = status_of w k')"
proof (cases "str_trim (payload_job_id payload) \<noteq> []")
  case True
  from assms True obtain existing where
    s: "single (filter (\<lambda>j. jid j = str_trim (payload_job_id payload)) (ytg_jobs w)) = Inr existing"
    and k: "k = jid existing"
    and w1: "w1 = (update_job w (str_trim (payload_job_id payload)) (reset_job payload))
                    \<lparr>ytg_scenes := filter (\<lambda>r. job_id r \<noteq> str_trim (payload_job_id payload)) (ytg_scenes w),
                     ytg_assets := filter (\<lambda>a. asset_job_id a \<noteq> str_trim (payload_job_id payload)) (ytg_assets w)\<rparr>"
    by (auto simp: start_accept_def Let_def update_job_def split: if_splits sum.splits option.splits)
  have f: "filter (\<lambda>j. jid j = str_trim (payload_job_id payload)) (ytg_jobs w) = [existing]"
    using single_InrD [OF s] .
  then have "existing \<in> set (filter (\<lambda>j. jid j = str_trim (payload_job_id payload)) (ytg_jobs w))"
    by simp
  then have ke: "k = str_trim (payload_job_id payload)" using k by simp
  have ex: "status_of w k \<noteq> None" using f ke by (simp add: status_of_def)
  have "status_of (update_job w k (reset_job payload)) k' =
          (if k' = k then (case status_of w k of None \<Rightarrow> None | Some _ \<Rightarrow> Some QUEUED) else status_of w k')" for k'
    by (rule status_of_set_status) (simp_all add: reset_job_def)
  then show ?thesis using ex by (auto simp: w1 ke[symmetric])
next
  case False
  from assms False have k: "k = pe_new_job_id env"
    and fresh: "pe_new_job_id env \<notin> set (map jid (ytg_jobs w))"
    and w1: "w1 = w\<lparr>ytg_jobs := ytg_jobs w @
                       [\<lparr>jid = pe_new_job_id env, status = QUEUED, input = payload,
                         autoconfig = None, packager = None, final_package = None,
                         job_error = None, trace_id = pe_new_trace_id env\<rparr>]\<rparr>"
    by (auto simp: start_accept_def Let_def split: if_splits sum.splits option.splits)
  have "status_of w k = None" using fresh k by (simp add: status_of_None_iff)
  then show ?thesis by (auto simp: w1 status_of_append k split: option.splits)
qed



lemma reset_job_fields [simp]:
  "jid (reset_job payload x) = jid x" "status (reset_job payload x) = QUEUED"
  "autoconfig (reset_job payload x) = None" "packager (reset_job payload x) = None"
  "final_package (reset_job payload x) = None"
  by (simp_all add: reset_job_def)

lemma reset_clears_slots:
  "\<forall>j \<in> set (ytg_jobs (update_job w k (reset_job payload))). jid j = k \<longrightarrow>
            autoconfig j = None \<and> packager j = None \<and> final_package j = None"
proof (intro ballI impI)
  fix j assume m: "j \<in> set (ytg_jobs (update_job w k (reset_job payload)))" and e: "jid j = k"
  from m have "j \<in> (\<lambda>x. if jid x = k then reset_job payload x else x) ` set (ytg_jobs w)"
    by (simp add: update_job_def)
  then obtain x where x: "j = (if jid x = k then reset_job payload x else x)"
    by (rule imageE)
  show "autoconfig j = None \<and> packager j = None \<and> final_package j = None"
  proof (cases "jid x = k")
    case True
    then show ?thesis by (simp add: x)
  next
    case False
    with x e show ?thesis by simp
  qed
qed

lemma filter_out_then_in: "filter (\<lambda>r. f r = k) (filter (\<lambda>r. f r \<noteq> k) xs) = []"
  by (induction xs) simp_all

lemma restart_clears:
  assumes "start_accept env w payload = Inr (k, t, w1)"
      and "str_trim (payload_job_id payload) \<noteq> []"
  shows "(\<forall>j \<in> set (ytg_jobs w1). jid j = k \<longrightarrow>
            autoconfig j = None \<and> packager j = None \<and> final_package j = None)
       \<and> filter (\<lambda>r. job_id r = k) (ytg_scenes w1) = []
       \<and> filter (\<lambda>a. asset_job_id a = k) (ytg_assets w1) = []"
proof -
  from assms obtain existing where
    s: "single (filter (\<lambda>j. jid j = str_trim (payload_job_id payload)) (ytg_jobs w)) = Inr existing"
    and k: "k = jid existing"
    and w1: "w1 = (update_job w (str_trim (payload_job_id payload)) (reset_job payload))
                    \<lparr>ytg_scenes := filter (\<lambda>r. job_id r \<noteq> str_trim (payload_job_id payload)) (ytg_scenes w),
                     ytg_assets := filter (\<lambda>a. asset_job_id a \<noteq> str_trim (payload_job_id payload)) (ytg_assets w)\<rparr>"
    by (auto simp: start_accept_def Let_def update_job_def split: if_splits sum.splits option.splits)
  have "existing \<in> set (filter (\<lambda>j. jid j = str_trim (payload_job_id payload)) (ytg_jobs w))"
    using single_InrD [OF s] by simp
  then have ke: "str_trim (payload_job_id payload) = k" using k by simp
  have j: "ytg_jobs w1 = ytg_jobs (update_job w k (reset_job payload))"
    by (simp add: w1 ke)
  have sc: "ytg_scenes w1 = filter (\<lambda>r. job_id r \<noteq> k) (ytg_scenes w)"
    by (simp add: w1 ke)
  have a: "ytg_assets w1 = filter (\<lambda>a. asset_job_id a \<noteq> k) (ytg_assets w)"
    by (simp add: w1 ke)
  show ?thesis
    unfolding j sc a using reset_clears_slots [of w k payload]
    by (simp add: filter_out_then_in)
qed

text \<open>The image retry, the audio retry and the scene image request write no job status.\<close>

lemma js_log_both [simp]: "job_statuses (ls_world (log_both st lv m)) = job_statuses (ls_world st)"
  by (simp add: log_both_def)

lemma js_retry_one: "job_statuses (ls_world (retry_one env d i k sid pr st)) = job_statuses (ls_world st)"
  by (auto simp: retry_one_def Let_def split: sum.splits option.splits)

lemma js_retry_loop:
  "job_statuses (ls_world (retry_loop env d k s0 mx i ts st)) = job_statuses (ls_world st)"
  by (induction ts arbitrary: i st) (simp_all add: Let_def js_retry_one)

lemma js_background:
  "job_statuses (ls_world (fst (runRetryInBackground env k ts d st))) = job_statuses (ls_world st)"
  by (simp add: runRetryInBackground_def Let_def js_retry_loop)

lemma js_prepare:
  "retry_images_prepare w payload = Inr (k, ts, sk, st0) \<Longrightarrow> job_statuses (ls_world st0) = job_statuses w"
  by (auto simp: retry_images_prepare_def Let_def split: if_splits sum.splits prod.splits)

lemma js_chain: "job_statuses (fst (snd (retry_images_chain env w payload))) = job_statuses w"
proof (induction env w payload rule: retry_images_chain.induct)
  case (1 env w payload)
  show ?case
  proof (cases "retry_images_prepare w payload")
    case (Inl x)
    then show ?thesis by (subst retry_images_chain.simps) (simp split: prod.splits)
  next
    case (Inr y)
    obtain k ts sk st0 where y: "y = (k, ts, sk, st0)" by (cases y) auto
    obtain st b where bg: "runRetryInBackground env k ts (payload_depth payload) st0 = (st, b)"
      by (cases "runRetryInBackground env k ts (payload_depth payload) st0") auto
    have st: "job_statuses (ls_world st) = job_statuses w"
      using js_background [of env k ts "payload_depth payload" st0] js_prepare [of w payload k ts sk st0]
      by (simp add: bg Inr y)
    show ?thesis
    proof (cases b)
      case None
      then show ?thesis
        by (subst retry_images_chain.simps) (simp add: Inr y bg st Let_def)
    next
      case (Some body)
      show ?thesis
      proof (cases "re_fetch_fails env (payload_depth payload)")
        case True
        then show ?thesis
          by (subst retry_images_chain.simps) (simp add: Inr y bg st Let_def Some)
      next
        case False
        have ih: "job_statuses (fst (snd (retry_images_chain env (push_console (ls_world st) info RequeueAnswered) body)))
                  = job_statuses (push_console (ls_world st) info RequeueAnswered)"
          by (rule "1.IH" [OF Inr, of k "(ts, sk, st0)" ts "(sk, st0)" sk st0 _ "payload_depth payload" st b body])
             (simp_all add: y bg Some False)
        show ?thesis
          apply (subst retry_images_chain.simps)
          using ih
          apply (auto simp: Inr y bg st Let_def Some False split: prod.splits)
          done
      qed
    qed
  qed
qed


lemma js_audio_one: "job_statuses (ls_world (fst (audio_one env k sid acc))) = job_statuses (ls_world (fst acc))"
  by (cases acc) (auto simp: audio_one_def Let_def split: sum.splits option.splits prod.splits)

lemma js_audio_fold:
  "job_statuses (ls_world (fst (foldl (\<lambda>acc sid. audio_one env k sid acc) acc sids)))
     = job_statuses (ls_world (fst acc))"
  by (induction sids arbitrary: acc) (simp_all add: js_audio_one)

lemma js_audio_fold_pair:
  assumes "foldl (\<lambda>acc sid. audio_one env k sid acc) acc sids = (x1, x2)"
  shows "job_statuses (ls_world x1) = job_statuses (ls_world (fst acc))"
  using js_audio_fold [of env k acc sids] assms by simp

lemma js_audio: "job_statuses (snd (runRetryAudio env w k)) = job_statuses w"
proof (cases "single (filter (\<lambda>j. jid j = k) (ytg_jobs w))")
  case (Inl e)
  then show ?thesis by (simp add: runRetryAudio_def)
next
  case (Inr j)
  have u: "job_statuses (update_job w' k
                (\<lambda>x. case final_package j of
                        None \<Rightarrow> x\<lparr>packager := p\<rparr>
                      | Some fp \<Rightarrow> x\<lparr>final_package := Some (fp\<lparr>fp_scene_audios := urls\<rparr>),
                                      packager := p\<rparr>)) = job_statuses w'" for w' p urls
    by (rule js_update_job) (simp split: option.splits)
  show ?thesis
    unfolding runRetryAudio_def Inr Let_def
    by (auto simp: u split: prod.splits dest!: js_audio_fold_pair)
qed

lemma js_audio_handler: "job_statuses (snd (retry_audio_handler env w pid)) = job_statuses w"
  by (simp add: retry_audio_handler_def Let_def js_audio)

lemma js_claim: "claimSceneImageGeneration scenes k sid rid stale now = (r, scenes') \<Longrightarrow>
   job_statuses (w\<lparr>ytg_scenes := scenes'\<rparr>) = job_statuses w"
  by simp

lemma js_generate_body:
  "job_statuses (snd (generate_body env w j s k sid)) = job_statuses w"
  by (auto simp: generate_body_def Let_def split: sum.splits option.splits)

lemma js_runGenerate: "job_statuses (snd (runGenerate env w k sid force)) = job_statuses w"
proof -
  have b: "generate_body env w' j s k sid = (r, w'') \<Longrightarrow> job_statuses w'' = job_statuses w'"
    for w' j s r w''
    using js_generate_body [of env w' j s k sid] by simp
  show ?thesis
    unfolding runGenerate_def Let_def
    by (auto split: sum.splits prod.splits dest!: b)
qed

lemma js_generate_handler: "job_statuses (snd (generate_handler env w gq)) = job_statuses w"
proof -
  have b: "runGenerate env w k sid force = (r, w') \<Longrightarrow> job_statuses w' = job_statuses w"
    for k sid force r w'
    using js_runGenerate [of env w k sid force] by simp
  show ?thesis
    by (auto simp: generate_handler_def Let_def split: option.splits prod.splits sum.splits dest!: b)
qed

lemma status_of_filter_other:
  "k \<noteq> d \<Longrightarrow> status_of (w\<lparr>ytg_jobs := filter (\<lambda>j. jid j \<noteq> d) (ytg_jobs w)\<rparr>) k = status_of w k"
proof -
  assume n: "k \<noteq> d"
  have "filter (\<lambda>j. jid j = k) (filter (\<lambda>j. jid j \<noteq> d) js) = filter (\<lambda>j. jid j = k) js" for js :: "job_row list"
    using n by (induction js) auto
  then show ?thesis by (simp add: status_of_def)
qed

lemma status_delete:
  "k \<noteq> str_trim pid \<Longrightarrow> status_of (snd (delete_handler env w pid)) k = status_of w k"
proof -
  assume n: "k \<noteq> str_trim pid"
  have "status_of (runDeleteJob env w d) k = status_of w k" if "k \<noteq> d" for d
  proof -
    have "status_of (runDeleteJob env w d) k =
            status_of (w\<lparr>ytg_jobs := filter (\<lambda>j. jid j \<noteq> d) (ytg_jobs w)\<rparr>) k"
      by (simp add: runDeleteJob_def Let_def status_of_def split: sum.splits)
    then show ?thesis using that by (simp add: status_of_filter_other)
  qed
  then show ?thesis using n by (simp add: delete_handler_def Let_def)
qed


lemma ex_accept:
  "start_accept (ex_pipe_env p) (ex_world st) ex_restart = Inr (''j1'', ''t1'', ex_reset_world)"
  by (simp add: start_accept_def ex_restart_def ex_input_def trims str_trim_def ex_world_def
        ex_job_def single_def ex_pipe_env_def update_job_def reset_job_def ex_scene_def Let_def
        ex_reset_world_def)


text \<open>
  C4 as stated fails: a restart request for a job that is RUNNING is accepted, and the
  handler's reset moves the job from RUNNING to QUEUED, a transition that is neither
  QUEUED to RUNNING, nor RUNNING to a terminal status, nor terminal to QUEUED. The reset
  does not look at the status of the job.
\<close>

theorem restart_of_running_job_resets_to_queued:
  "status_of (ex_world RUNNING) ''j1'' = Some RUNNING
   \<and> start_accept (ex_pipe_env (ex_packager [Some 1])) (ex_world RUNNING) ex_restart
       = Inr (''j1'', ''t1'', ex_reset_world)
   \<and> status_of ex_reset_world ''j1'' = Some QUEUED"
  by (simp add: ex_accept ex_status) (simp add: status_of_def ex_world_def ex_job_def)


text \<open>
  C4, amended: an accepted start request writes the status of its job three times: QUEUED
  by the handler (for a restart whatever the status was before, RUNNING and QUEUED
  included), RUNNING by the first statement of the pipeline, SUCCEEDED or FAILED at the
  end of the pipeline, and it changes the status of no other job. So RUNNING is only ever
  written right after the handler's QUEUED, never onto a SUCCEEDED job without a restart.
  A restart leaves the three result slots of the job empty and no scene row and no asset
  row of the job. Deleting a job changes the status of no other job; the image retry
  (with all its continuations), the audio retry and the scene image request change no
  status at all.
\<close>

theorem job_status_transitions:
  "(start_accept penv w payload = Inr (jobId, traceId, w1) \<longrightarrow>
      map (\<lambda>x. status_of x jobId) (start_states penv w payload) =
        [Some QUEUED, Some RUNNING, status_of (runPipeline penv w1 jobId payload) jobId]
    \<and> (status_of (runPipeline penv w1 jobId payload) jobId = Some SUCCEEDED
        \<or> status_of (runPipeline penv w1 jobId payload) jobId = Some FAILED)
    \<and> snd (start_handler penv w payload) = runPipeline penv w1 jobId payload
    \<and> (\<forall>k. k \<noteq> jobId \<longrightarrow> status_of (runPipeline penv w1 jobId payload) k = status_of w k)
    \<and> (str_trim (payload_job_id payload) \<noteq> [] \<longrightarrow>
          (\<forall>j \<in> set (ytg_jobs w1). jid j = jobId \<longrightarrow>
              autoconfig j = None \<and> packager j = None \<and> final_package j = None)
          \<and> filter (\<lambda>r. job_id r = jobId) (ytg_scenes w1) = []
          \<and> filter (\<lambda>a. asset_job_id a = jobId) (ytg_assets w1) = []))
   \<and> (\<forall>k. k \<noteq> str_trim pid \<longrightarrow> status_of (snd (delete_handler denv w pid)) k = status_of w k)
   \<and> job_statuses (fst (snd (retry_images_chain renv w rq))) = job_statuses w
   \<and> job_statuses (snd (retry_audio_handler aenv w apid)) = job_statuses w
   \<and> job_statuses (snd (generate_handler genv w gq)) = job_statuses w"
proof -
  have start: "map (\<lambda>x. status_of x jobId) (start_states penv w payload) =
        [Some QUEUED, Some RUNNING, status_of (runPipeline penv w1 jobId payload) jobId]
    \<and> (status_of (runPipeline penv w1 jobId payload) jobId = Some SUCCEEDED
        \<or> status_of (runPipeline penv w1 jobId payload) jobId = Some FAILED)
    \<and> snd (start_handler penv w payload) = runPipeline penv w1 jobId payload
    \<and> (\<forall>k. k \<noteq> jobId \<longrightarrow> status_of (runPipeline penv w1 jobId payload) k = status_of w k)"
    if acc: "start_accept penv w payload = Inr (jobId, traceId, w1)"
  proof -
    from start_accept_status [OF acc]
    have q: "status_of w1 jobId = Some QUEUED"
      and o: "\<And>k. k \<noteq> jobId \<Longrightarrow> status_of w1 k = status_of w k" by auto
    have r: "status_of (pipeline_mark_running w1 jobId) jobId = Some RUNNING"
      by (simp add: status_mark_running q)
    have f: "status_of (runPipeline penv w1 jobId payload) jobId = Some SUCCEEDED
        \<or> status_of (runPipeline penv w1 jobId payload) jobId = Some FAILED"
      by (simp add: status_runPipeline q split: sum.splits)
    have oth: "\<forall>k. k \<noteq> jobId \<longrightarrow> status_of (runPipeline penv w1 jobId payload) k = status_of w k"
      by (simp add: status_runPipeline o)
    show ?thesis
      using q r f oth by (simp add: start_states_def start_handler_def acc)
  qed
  show ?thesis
    using start restart_clears [of penv w payload jobId traceId w1]
      status_delete [of _ pid denv w] js_chain [of renv w rq]
      js_audio_handler [of aenv w apid] js_generate_handler [of genv w gq]
    by blast
qed

text \<open>
  The theorem at a restart of the succeeded example job whose stage-2 answer has one
  scene.
\<close>

theorem job_status_transitions_witness:
  "start_accept (ex_pipe_env (ex_packager [Some 1])) (ex_world SUCCEEDED) ex_restart
     = Inr (''j1'', ''t1'', ex_reset_world)
   \<and> map (\<lambda>x. status_of x ''j1'')
         (start_states (ex_pipe_env (ex_packager [Some 1])) (ex_world SUCCEEDED) ex_restart)
       = [Some QUEUED, Some RUNNING, Some SUCCEEDED]
   \<and> filter (\<lambda>r. job_id r = ''j1'') (ytg_scenes ex_reset_world) = []
   \<and> filter (\<lambda>a. asset_job_id a = ''j1'') (ytg_assets ex_reset_world) = []
   \<and> job_statuses (snd (retry_audio_handler ex_audio_env (ex_world SUCCEEDED) (Some ''j1'')))
       = [(''j1'', SUCCEEDED)]"
proof -
  have a: "start_accept (ex_pipe_env (ex_packager [Some 1])) (ex_world SUCCEEDED) ex_restart
             = Inr (''j1'', ''t1'', ex_reset_world)"
    by (rule ex_accept)
  have t: "str_trim (payload_job_id ex_restart) \<noteq> []"
    by (simp add: ex_restart_def str_trim_def trims)
  have s: "status_of (runPipeline (ex_pipe_env (ex_packager [Some 1])) ex_reset_world ''j1'' ex_restart) ''j1''
             = Some SUCCEEDED"
    using ex_run_ok [of "ex_packager [Some 1]"] by (auto simp: ex_norm)
  have j: "job_statuses (ex_world SUCCEEDED) = [(''j1'', SUCCEEDED)]"
    by (simp add: job_statuses_def ex_world_def ex_job_def)
  from job_status_transitions [of "ex_pipe_env (ex_packager [Some 1])" "ex_world SUCCEEDED" ex_restart
         "''j1''" "''t1''" ex_reset_world "Some ''j1''" ex_delete_env "ex_retry_env 0" ex_retry_request
         ex_audio_env "Some ''j1''" ex_gen_env
         "\<lparr>gq_job_id = Some ''j1'', gq_scene_id = Some 1, gq_force = False\<rparr>"]
  show ?thesis using a t s j by simp
qed


section \<open>Auxiliary facts about the image retry\<close>

text \<open>Trimming twice is trimming once, and the fallback prompt is never empty.\<close>

lemma js_trim_Nil_iff: "js_trim s = [] \<longleftrightarrow> (\<forall>c \<in> set s. is_ws c)"
proof -
  have "js_trim s = [] \<longleftrightarrow> (\<forall>c \<in> set (dropWhile is_ws s). is_ws c)"
    by (simp add: js_trim_def dropWhile_eq_Nil_conv)
  also have "\<dots> \<longleftrightarrow> dropWhile is_ws s = []"
  proof
    assume a: "\<forall>c \<in> set (dropWhile is_ws s). is_ws c"
    show "dropWhile is_ws s = []"
    proof (rule ccontr)
      assume n: "dropWhile is_ws s \<noteq> []"
      then have "\<not> is_ws (hd (dropWhile is_ws s))" by (rule hd_dropWhile)
      moreover have "hd (dropWhile is_ws s) \<in> set (dropWhile is_ws s)" using n by simp
      ultimately show False using a by blast
    qed
  next
    assume e: "dropWhile is_ws s = []"
    show "\<forall>c \<in> set (dropWhile is_ws s). is_ws c" unfolding e by simp
  qed
  also have "\<dots> \<longleftrightarrow> (\<forall>c \<in> set s. is_ws c)" by (simp add: dropWhile_eq_Nil_conv)
  finally show ?thesis .
qed

lemma js_trim_idem: "js_trim (js_trim s) = js_trim s"
proof -
  define t where "t = dropWhile is_ws s"
  define u where "u = rev (dropWhile is_ws (rev t))"
  have ju: "js_trim s = u" by (simp add: js_trim_def t_def u_def)
  have ru: "dropWhile is_ws (rev u) = rev u" by (simp add: u_def dropWhile_idem)
  have tu: "t = u @ rev (takeWhile is_ws (rev t))"
  proof -
    have "rev t = takeWhile is_ws (rev t) @ dropWhile is_ws (rev t)" by simp
    then have "rev (rev t) = rev (takeWhile is_ws (rev t) @ dropWhile is_ws (rev t))" by simp
    then show ?thesis unfolding u_def by (simp del: takeWhile_dropWhile_id)
  qed
  have du: "dropWhile is_ws u = u"
  proof (cases u)
    case Nil
    then show ?thesis by simp
  next
    case (Cons x xs)
    then have "t \<noteq> []" and "hd t = x" using tu by (metis append_is_Nil_conv list.distinct(1), metis hd_append2 list.sel(1) list.distinct(1))
    moreover have "t \<noteq> [] \<Longrightarrow> \<not> is_ws (hd t)" unfolding t_def by (rule hd_dropWhile)
    ultimately have "\<not> is_ws x" by simp
    then show ?thesis by (simp add: Cons)
  qed
  show ?thesis unfolding ju by (simp add: js_trim_def du ru)
qed

lemma set_join_comma: "x \<in> set xs \<Longrightarrow> set x \<subseteq> set (join_comma xs)"
  by (induction xs rule: join_comma.induct) auto

lemma fallback_prompt_nonempty: "fallback_prompt s topic vs tone \<noteq> []"
proof -
  let ?suffix = "''no text, no logo, no watermark, clean composition, high quality, 16:9''"
  let ?parts = "filter (\<lambda>x. x \<noteq> [])
       [or_else (str_trim (visual_brief s))
          (or_else (str_trim (on_screen_text s)) (''educational illustration about '' @ topic)),
        str_trim (mood s), str_trim vs, str_trim tone, ?suffix]"
  have "?suffix \<in> set ?parts" by simp
  then have "set ?suffix \<subseteq> set (join_comma ?parts)" by (rule set_join_comma)
  moreover have "CHR ''n'' \<in> set ?suffix" by simp
  ultimately have "CHR ''n'' \<in> set (join_comma ?parts)" by blast
  moreover have "\<not> is_ws (CHR ''n'')" by (simp add: is_ws_def)
  ultimately have "js_trim (join_comma ?parts) \<noteq> []"
    unfolding js_trim_Nil_iff by blast
  then show ?thesis by (simp add: fallback_prompt_def)
qed

lemma or_else_nonempty: "b \<noteq> [] \<Longrightarrow> or_else a b \<noteq> []"
  by (simp add: or_else_def)

lemma select_tasks_ids:
  "map t_scene_id (fst (select_tasks wantSet missingOnly j ss)) =
     map scene_id (filter (wanted wantSet missingOnly) ss)"
proof (induction ss)
  case Nil
  then show ?case by simp
next
  case (Cons s ss)
  obtain tasks skip logs where r: "select_tasks wantSet missingOnly j ss = (tasks, skip, logs)"
    by (cases "select_tasks wantSet missingOnly j ss") auto
  have ne: "or_else (str_trim (image_prompt s))
                 (or_else (str_trim (promptByScene rr (scene_id s)))
                    (fallback_prompt s tp a b)) \<noteq> []" for rr tp a b
    by (intro or_else_nonempty fallback_prompt_nonempty)
  show ?case
    using Cons.IH
    by (simp add: r Let_def ne wanted_def split: option.splits)
qed

text \<open>What the loop does to the scene table and to the lists of the scenes taken and left.\<close>

lemma kept_refl: "list_all2 (kept T) rs rs"
  by (simp add: list_all2_refl kept_def)

lemma kept_trans:
  "list_all2 (kept T) xs ys \<Longrightarrow> list_all2 (kept T') ys zs \<Longrightarrow> list_all2 (kept (T \<union> T')) xs zs"
proof -
  assume a: "list_all2 (kept T) xs ys" and b: "list_all2 (kept T') ys zs"
  have "list_all2 (\<lambda>x z. \<exists>y. kept T x y \<and> kept T' y z) xs zs"
    using a b by (induction arbitrary: zs rule: list_all2_induct) (auto simp: list_all2_Cons1)
  then show ?thesis
    by (rule list_all2_mono) (auto simp: kept_def)
qed

lemma kept_filter:
  assumes "list_all2 (kept T) xs ys"
  shows "list_all2 (kept T) (filter (\<lambda>r. job_id r = k) xs) (filter (\<lambda>r. job_id r = k) ys)"
  using assms by (induction rule: list_all2_induct) (auto simp: kept_def)

lemma kept_insort:
  assumes "list_all2 (kept T) xs ys" and "kept T x y"
  shows "list_all2 (kept T) (insort_key scene_id x xs) (insort_key scene_id y ys)"
  using assms by (induction rule: list_all2_induct) (auto simp: kept_def)

lemma kept_sort:
  assumes "list_all2 (kept T) xs ys"
  shows "list_all2 (kept T) (sort_key scene_id xs) (sort_key scene_id ys)"
  using assms by (induction rule: list_all2_induct) (auto simp: sort_key_def intro: kept_insort)

lemma kept_job_scenes:
  "list_all2 (kept T) (ytg_scenes w) (ytg_scenes w') \<Longrightarrow> list_all2 (kept T) (job_scenes w k) (job_scenes w' k)"
  unfolding job_scenes_def by (intro kept_sort kept_filter)

lemma kept_map_filter:
  assumes "list_all2 (kept T) xs ys"
      and "\<And>r r'. kept T r r' \<Longrightarrow> P r = Q r'"
  shows "map scene_id (filter P xs) = map scene_id (filter Q ys)"
  using assms(1)
proof (induction rule: list_all2_induct)
  case Nil
  then show ?case by simp
next
  case (Cons x xs y ys)
  have "P x = Q y" using Cons.hyps(1) by (rule assms(2))
  moreover have "scene_id y = scene_id x" using Cons.hyps(1) by (simp add: kept_def)
  ultimately show ?case using Cons.IH by simp
qed

lemma log_both_fields [simp]:
  "ls_taken (log_both st lv m) = ls_taken st"
  "ls_remaining (log_both st lv m) = ls_remaining st"
  "ytg_scenes (ls_world (log_both st lv m)) = ytg_scenes (ls_world st)"
  by (simp_all add: log_both_def push_console_def)

lemma retry_one_lists:
  "ls_taken (retry_one env d i k sid pr st) = ls_taken st \<and>
   ls_remaining (retry_one env d i k sid pr st) = ls_remaining st"
  by (auto simp: retry_one_def Let_def split: sum.splits option.splits)

lemma retry_one_scenes:
  "list_all2 (kept {sid}) (ytg_scenes (ls_world st)) (ytg_scenes (ls_world (retry_one env d i k sid pr st)))"
proof -
  have m: "list_all2 (kept {sid}) rs
            (map (\<lambda>r. if scene_matches k sid r then r\<lparr>image_path := a, image_url := b, image_prompt := c\<rparr> else r) rs)"
    for rs a b c
    by (induction rs) (auto simp: kept_def scene_matches_def)
  show ?thesis
    by (auto simp: retry_one_def Let_def kept_refl m split: sum.splits option.splits)
qed

lemma retry_loop_lists:
  "ls_remaining st = [] \<Longrightarrow>
     ls_taken (retry_loop env d k s0 mx i ts st) @ ls_remaining (retry_loop env d k s0 mx i ts st)
       = ls_taken st @ map t_scene_id ts
     \<and> (\<exists>n \<le> length ts. ls_taken (retry_loop env d k s0 mx i ts st) = ls_taken st @ take n (map t_scene_id ts))"
proof (induction ts arbitrary: i st)
  case Nil
  then show ?case by simp
next
  case (Cons t ts)
  show ?case
  proof (cases "re_now env d i - s0 > mx")
    case True
    then show ?thesis by (auto intro: exI [of _ 0])
  next
    case False
    define st' where "st' = (if js_trim (t_prompt t) = []
       then st\<lparr>ls_skipped := Suc (ls_skipped st), ls_taken := ls_taken st @ [t_scene_id t]\<rparr>
       else (let st1 = retry_one env d i k (t_scene_id t) (js_trim (t_prompt t))
                     (st\<lparr>ls_taken := ls_taken st @ [t_scene_id t]\<rparr>)
             in st1\<lparr>ls_world := persist_packager (ls_world st1) k (ls_packager st1)\<rparr>))"
    have step: "retry_loop env d k s0 mx i (t # ts) st = retry_loop env d k s0 mx (Suc i) ts st'"
      using False by (simp add: st'_def Let_def)
    have tk: "ls_taken st' = ls_taken st @ [t_scene_id t]" and rm: "ls_remaining st' = []"
      using Cons.prems by (auto simp: st'_def Let_def retry_one_lists)
    from Cons.IH [OF rm, of "Suc i"] obtain n where
      a: "ls_taken (retry_loop env d k s0 mx (Suc i) ts st') @ ls_remaining (retry_loop env d k s0 mx (Suc i) ts st')
          = ls_taken st' @ map t_scene_id ts"
      and n: "n \<le> length ts"
      and b: "ls_taken (retry_loop env d k s0 mx (Suc i) ts st') = ls_taken st' @ take n (map t_scene_id ts)"
      by blast
    show ?thesis
      unfolding step using a n b tk by (auto intro!: exI [of _ "Suc n"])
  qed
qed

lemma retry_loop_scenes:
  "\<exists>T. T \<subseteq> set (map t_scene_id ts) \<and>
     set (ls_taken (retry_loop env d k s0 mx i ts st)) = set (ls_taken st) \<union> T \<and>
     list_all2 (kept T) (ytg_scenes (ls_world st))
       (ytg_scenes (ls_world (retry_loop env d k s0 mx i ts st)))"
proof (induction ts arbitrary: i st)
  case Nil
  then show ?case by (auto simp: kept_refl intro!: exI [of _ "{}"])
next
  case (Cons t ts)
  show ?case
  proof (cases "re_now env d i - s0 > mx")
    case True
    then show ?thesis by (auto simp: kept_refl intro!: exI [of _ "{}"])
  next
    case False
    define st' where "st' = (if js_trim (t_prompt t) = []
       then st\<lparr>ls_skipped := Suc (ls_skipped st), ls_taken := ls_taken st @ [t_scene_id t]\<rparr>
       else (let st1 = retry_one env d i k (t_scene_id t) (js_trim (t_prompt t))
                     (st\<lparr>ls_taken := ls_taken st @ [t_scene_id t]\<rparr>)
             in st1\<lparr>ls_world := persist_packager (ls_world st1) k (ls_packager st1)\<rparr>))"
    have step: "retry_loop env d k s0 mx i (t # ts) st = retry_loop env d k s0 mx (Suc i) ts st'"
      using False by (simp add: st'_def Let_def)
    have tk: "ls_taken st' = ls_taken st @ [t_scene_id t]"
      by (auto simp: st'_def Let_def retry_one_lists)
    have sc: "list_all2 (kept {t_scene_id t}) (ytg_scenes (ls_world st)) (ytg_scenes (ls_world st'))"
      using retry_one_scenes [of "t_scene_id t" "st\<lparr>ls_taken := ls_taken st @ [t_scene_id t]\<rparr>" env d i k "js_trim (t_prompt t)"]
      by (auto simp: st'_def Let_def kept_refl persist_packager_def)
    from Cons.IH [of "Suc i" st'] obtain T where
      T: "T \<subseteq> set (map t_scene_id ts)"
      and s: "set (ls_taken (retry_loop env d k s0 mx (Suc i) ts st')) = set (ls_taken st') \<union> T"
      and l: "list_all2 (kept T) (ytg_scenes (ls_world st'))
                (ytg_scenes (ls_world (retry_loop env d k s0 mx (Suc i) ts st')))"
      by blast
    have "list_all2 (kept ({t_scene_id t} \<union> T)) (ytg_scenes (ls_world st))
                (ytg_scenes (ls_world (retry_loop env d k s0 mx (Suc i) ts st')))"
      using sc l by (rule kept_trans)
    then show ?thesis
      unfolding step using T s tk by (auto intro!: exI [of _ "{t_scene_id t} \<union> T"])
  qed
qed

lemma retry_loop_budget:
  "ls_remaining st = [] \<Longrightarrow>
     \<exists>n \<le> length ts.
        ls_taken (retry_loop env d k s0 mx i ts st) = ls_taken st @ take n (map t_scene_id ts)
      \<and> ls_remaining (retry_loop env d k s0 mx i ts st) = drop n (map t_scene_id ts)
      \<and> (\<forall>j<n. \<not> re_now env d (i + j) - s0 > mx)
      \<and> (n < length ts \<longrightarrow> re_now env d (i + n) - s0 > mx)"
proof (induction ts arbitrary: i st)
  case Nil
  then show ?case by simp
next
  case (Cons t ts)
  show ?case
  proof (cases "re_now env d i - s0 > mx")
    case True
    then show ?thesis by (auto intro!: exI [of _ 0])
  next
    case False
    define st' where "st' = (if js_trim (t_prompt t) = []
       then st\<lparr>ls_skipped := Suc (ls_skipped st), ls_taken := ls_taken st @ [t_scene_id t]\<rparr>
       else (let st1 = retry_one env d i k (t_scene_id t) (js_trim (t_prompt t))
                     (st\<lparr>ls_taken := ls_taken st @ [t_scene_id t]\<rparr>)
             in st1\<lparr>ls_world := persist_packager (ls_world st1) k (ls_packager st1)\<rparr>))"
    have step: "retry_loop env d k s0 mx i (t # ts) st = retry_loop env d k s0 mx (Suc i) ts st'"
      using False by (simp add: st'_def Let_def)
    have tk: "ls_taken st' = ls_taken st @ [t_scene_id t]" and rm: "ls_remaining st' = []"
      using Cons.prems by (auto simp: st'_def Let_def retry_one_lists)
    from Cons.IH [OF rm, of "Suc i"] obtain n where
      n: "n \<le> length ts"
      and a: "ls_taken (retry_loop env d k s0 mx (Suc i) ts st') = ls_taken st' @ take n (map t_scene_id ts)"
      and b: "ls_remaining (retry_loop env d k s0 mx (Suc i) ts st') = drop n (map t_scene_id ts)"
      and c: "\<forall>j<n. \<not> re_now env d (Suc i + j) - s0 > mx"
      and e: "n < length ts \<longrightarrow> re_now env d (Suc i + n) - s0 > mx"
      by blast
    have c': "\<forall>j<Suc n. \<not> re_now env d (i + j) - s0 > mx"
    proof (intro allI impI)
      fix j assume "j < Suc n"
      then show "\<not> re_now env d (i + j) - s0 > mx"
        using False c by (cases j) auto
    qed
    show ?thesis
      unfolding step using n a b c' e tk by (intro exI [of _ "Suc n"]) simp
  qed
qed

text \<open>
  The selection of a continuation request: among scenes with different ids, when the
  scenes taken are the only ones that changed, asking for the missing images of the
  remainder selects exactly the remainder.
\<close>

lemma sel_continuation:
  assumes dist: "distinct (map scene_id S)"
      and R: "map scene_id (filter (wanted W True) S) = T @ R'"
      and k: "list_all2 (kept (set T)) S S'"
  shows "map scene_id (filter (wanted (Some R') True) S') = R'"
proof -
  have dTR: "distinct (T @ R')"
    using distinct_map_filter [OF dist, of "wanted W True"] R by simp
  have mem: "(case W of None \<Rightarrow> True | Some ids \<Rightarrow> i \<in> set ids)" if "i \<in> set R'" for i
  proof -
    from that have "i \<in> set (map scene_id (filter (wanted W True) S))" unfolding R by simp
    then obtain s where "wanted W True s" "scene_id s = i" by auto
    then show ?thesis by (auto simp: wanted_def)
  qed
  have pq: "(scene_id r \<in> set R' \<and> wanted W True r) = wanted (Some R') True r'"
    if "kept (set T) r r'" for r r'
  proof (cases "scene_id r \<in> set R'")
    case True
    then have "scene_id r \<notin> set T" using dTR by auto
    then have "r' = r" using that by (simp add: kept_def)
    then show ?thesis using True mem [OF True] by (auto simp: wanted_def)
  next
    case False
    moreover have "scene_id r' = scene_id r" using that by (simp add: kept_def)
    ultimately show ?thesis by (simp add: wanted_def)
  qed
  have "map scene_id (filter (wanted (Some R') True) S')
          = map scene_id (filter (\<lambda>r. scene_id r \<in> set R' \<and> wanted W True r) S)"
    by (rule kept_map_filter [OF k, symmetric]) (rule pq)
  also have "\<dots> = filter (\<lambda>i. i \<in> set R') (map scene_id (filter (wanted W True) S))"
    by (simp add: filter_map comp_def conj_commute)
  also have "\<dots> = R'"
    unfolding R using dTR by (auto simp: filter_empty_conv filter_id_conv)
  finally show ?thesis .
qed

lemma prepare_InrD:
  assumes "retry_images_prepare w payload = Inr (k, tasks, skip, st0)"
  shows "k = str_trim (rq_job_id payload) \<and> k \<noteq> []
       \<and> (\<exists>j. single (filter (\<lambda>j. jid j = k) (ytg_jobs w)) = Inr j)
       \<and> ls_taken st0 = [] \<and> ls_remaining st0 = []
       \<and> ytg_scenes (ls_world st0) = ytg_scenes w
       \<and> map t_scene_id tasks =
           map scene_id (filter (wanted (map_option (List.map_filter (\<lambda>n. n)) (rq_scene_ids payload))
                                  (rq_missing_only payload \<noteq> Some False)) (job_scenes w k))"
proof -
  from assms have k: "k = str_trim (rq_job_id payload)" and ne: "k \<noteq> []"
    by (auto simp: retry_images_prepare_def Let_def split: if_splits sum.splits prod.splits)
  from assms ne k obtain j where j: "single (filter (\<lambda>j. jid j = k) (ytg_jobs w)) = Inr j"
    by (auto simp: retry_images_prepare_def Let_def split: if_splits sum.splits prod.splits)
  obtain ts sk lg where sel: "select_tasks (map_option (List.map_filter (\<lambda>n. n)) (rq_scene_ids payload))
              (rq_missing_only payload \<noteq> Some False) j (job_scenes w k) = (ts, sk, lg)"
    by (metis prod_cases3)
  have "tasks = ts \<and> ls_taken st0 = [] \<and> ls_remaining st0 = [] \<and> ytg_scenes (ls_world st0) = ytg_scenes w"
    using assms ne j sel unfolding k [symmetric] job_scenes_def
    by (auto simp: retry_images_prepare_def Let_def k [symmetric] persist_packager_def)
  moreover have "map t_scene_id ts = map scene_id (filter (wanted (map_option (List.map_filter (\<lambda>n. n)) (rq_scene_ids payload))
                                  (rq_missing_only payload \<noteq> Some False)) (job_scenes w k))"
    using select_tasks_ids [of "map_option (List.map_filter (\<lambda>n. n)) (rq_scene_ids payload)"
              "rq_missing_only payload \<noteq> Some False" j "job_scenes w k"] sel by simp
  ultimately show ?thesis using k ne j by auto
qed

lemma prepare_exists:
  assumes "str_trim (rq_job_id payload) \<noteq> []"
      and "single (filter (\<lambda>j. jid j = str_trim (rq_job_id payload)) (ytg_jobs w)) = Inr j"
  shows "\<exists>tasks skip st0. retry_images_prepare w payload = Inr (str_trim (rq_job_id payload), tasks, skip, st0)"
  using assms by (simp add: retry_images_prepare_def Let_def split: prod.splits)

lemma background_facts:
  assumes t: "ls_taken st0 = []" and r: "ls_remaining st0 = []"
      and bg: "runRetryInBackground env k tasks d st0 = (st, b)"
  shows "ls_taken st @ ls_remaining st = map t_scene_id tasks
       \<and> budget_split env (report_of d tasks st)
       \<and> list_all2 (kept (set (ls_taken st))) (ytg_scenes (ls_world st0)) (ytg_scenes (ls_world st))
       \<and> (case b of
            None \<Rightarrow> ls_remaining st = [] \<or> maxDepth env \<le> d \<or> \<not> key_usable env
          | Some body \<Rightarrow> body = requeue_body k (ls_remaining st) d \<and> ls_remaining st \<noteq> []
                         \<and> d < maxDepth env)"
proof -
  define st1 where "st1 = log_both st0 info (BackgroundStarted (length tasks))"
  define st2 where "st2 = retry_loop env d k (re_started env d) (maxRuntimeMs env) 0 tasks st1"
  have t1: "ls_taken st1 = []" and r1: "ls_remaining st1 = []"
    and s1: "ytg_scenes (ls_world st1) = ytg_scenes (ls_world st0)"
    by (simp_all add: st1_def t r)
  from retry_loop_lists [OF r1, of env d k "re_started env d" "maxRuntimeMs env" 0 tasks]
  have l2: "ls_taken st2 @ ls_remaining st2 = map t_scene_id tasks"
    by (simp add: st2_def t1)
  from retry_loop_budget [OF r1, of tasks env d k "re_started env d" "maxRuntimeMs env" 0]
  obtain n where n: "n \<le> length tasks"
    and na: "ls_taken st2 = take n (map t_scene_id tasks)"
    and nb: "ls_remaining st2 = drop n (map t_scene_id tasks)"
    and nc: "\<forall>j<n. \<not> re_now env d j - re_started env d > maxRuntimeMs env"
    and ne: "n < length tasks \<longrightarrow> re_now env d n - re_started env d > maxRuntimeMs env"
    unfolding st2_def [symmetric] t1 by auto
  have len: "length (ls_taken st2) = n" using n na by simp
  have b2: "list_all (within_budget env d) [0..<length (ls_taken st2)]
          \<and> (ls_remaining st2 \<noteq> [] \<longrightarrow> \<not> within_budget env d (length (ls_taken st2)))"
    unfolding len using nc ne nb n by (auto simp: within_budget_def list_all_iff)
  from retry_loop_scenes [of tasks env d k "re_started env d" "maxRuntimeMs env" 0 st1]
  have k2: "list_all2 (kept (set (ls_taken st2))) (ytg_scenes (ls_world st0)) (ytg_scenes (ls_world st2))"
    by (auto simp: st2_def [symmetric] t1 s1)
  have fin: "ls_taken st = ls_taken st2 \<and> ls_remaining st = ls_remaining st2
           \<and> ytg_scenes (ls_world st) = ytg_scenes (ls_world st2)
           \<and> (case b of
            None \<Rightarrow> ls_remaining st2 = [] \<or> maxDepth env \<le> d \<or> \<not> key_usable env
          | Some body \<Rightarrow> body = requeue_body k (ls_remaining st2) d \<and> ls_remaining st2 \<noteq> []
                         \<and> d < maxDepth env)"
    using bg unfolding runRetryInBackground_def Let_def st1_def [symmetric] st2_def [symmetric]
    by (auto simp: key_usable_def persist_packager_def split: if_splits)
  show ?thesis using l2 k2 fin b2 by (auto simp: budget_split_def report_of_def split: option.splits)
qed

text \<open>The reports of a chain of requests for missing images.\<close>

lemma single_same_ids:
  assumes "job_statuses w' = job_statuses w"
      and "single (filter (\<lambda>j. jid j = k) (ytg_jobs w)) = Inr j"
  shows "\<exists>j'. single (filter (\<lambda>j. jid j = k) (ytg_jobs w')) = Inr j'"
proof -
  have len: "length (filter (\<lambda>j. jid j = k) js) = length (filter (\<lambda>p. fst p = k) (map (\<lambda>j. (jid j, status j)) js))"
    for js :: "job_row list"
    by (induction js) auto
  have "length (filter (\<lambda>j. jid j = k) (ytg_jobs w')) = length (filter (\<lambda>j. jid j = k) (ytg_jobs w))"
    using assms(1) by (simp add: len job_statuses_def)
  moreover have "length (filter (\<lambda>j. jid j = k) (ytg_jobs w)) = 1"
    using single_InrD [OF assms(2)] by simp
  ultimately have "length (filter (\<lambda>j. jid j = k) (ytg_jobs w')) = 1" by simp
  then obtain j' where "filter (\<lambda>j. jid j = k) (ytg_jobs w') = [j']"
    by (cases "filter (\<lambda>j. jid j = k) (ytg_jobs w')") auto
  then show ?thesis by (simp add: single_def)
qed

lemma kept_ids: "list_all2 (kept T) xs ys \<Longrightarrow> map scene_id ys = map scene_id xs"
  by (induction rule: list_all2_induct) (auto simp: kept_def)

lemma requeue_body_fields:
  "str_trim (rq_job_id (requeue_body k rem d)) = js_trim k"
  "rq_missing_only (requeue_body k rem d) = Some True"
  "map_option (List.map_filter (\<lambda>n. n)) (rq_scene_ids (requeue_body k rem d)) = Some rem"
  "payload_depth (requeue_body k rem d) = d + 1"
  by (simp_all add: requeue_body_def str_trim_def payload_depth_def env_number_def
        List.map_filter_def comp_def)

lemma chain_accounting:
  "rq_missing_only payload \<noteq> Some False \<Longrightarrow>
   distinct (map scene_id (job_scenes w (str_trim (rq_job_id payload)))) \<Longrightarrow>
   retry_images_prepare w payload = Inr (k, tasks, skip, st0) \<Longrightarrow>
   chain_ok env (payload_depth payload) (map t_scene_id tasks)
     (snd (snd (retry_images_chain env w payload)))"
proof (induction env w payload arbitrary: k tasks skip st0 rule: retry_images_chain.induct)
  case (1 env w payload)
  note mo = "1.prems"(1) and dist = "1.prems"(2) and prep = "1.prems"(3)
  from prepare_InrD [OF prep]
  have k: "k = str_trim (rq_job_id payload)" and kne: "k \<noteq> []"
    and t0: "ls_taken st0 = []" and r0: "ls_remaining st0 = []"
    and s0: "ytg_scenes (ls_world st0) = ytg_scenes w"
    and ids: "map t_scene_id tasks =
           map scene_id (filter (wanted (map_option (List.map_filter (\<lambda>n. n)) (rq_scene_ids payload)) True)
                          (job_scenes w k))"
    using mo by auto
  from prepare_InrD [OF prep] obtain j where j: "single (filter (\<lambda>j. jid j = k) (ytg_jobs w)) = Inr j"
    by auto
  define d where "d = payload_depth payload"
  obtain st b where bg: "runRetryInBackground env k tasks d st0 = (st, b)"
    by (cases "runRetryInBackground env k tasks d st0") auto
  from background_facts [OF t0 r0 bg]
  have split: "ls_taken st @ ls_remaining st = map t_scene_id tasks"
    and bud: "budget_split env (report_of d tasks st)"
    and kp: "list_all2 (kept (set (ls_taken st))) (ytg_scenes w) (ytg_scenes (ls_world st))"
    and bb: "case b of
            None \<Rightarrow> ls_remaining st = [] \<or> maxDepth env \<le> d \<or> \<not> key_usable env
          | Some body \<Rightarrow> body = requeue_body k (ls_remaining st) d \<and> ls_remaining st \<noteq> []
                         \<and> d < maxDepth env"
    by (simp_all add: s0)
  have rep: "br_depth (report_of d tasks st) = d" "br_tasks (report_of d tasks st) = map t_scene_id tasks"
    "br_taken (report_of d tasks st) = ls_taken st" "br_remaining (report_of d tasks st) = ls_remaining st"
    by (simp_all add: report_of_def)
  show ?case
  proof (cases b)
    case None
    have "snd (snd (retry_images_chain env w payload)) = [report_of d tasks st]"
      by (subst retry_images_chain.simps) (simp add: prep bg d_def [symmetric] None Let_def)
    then show ?thesis using bb split bud by (auto simp: None rep d_def [symmetric])
  next
    case (Some body)
    from bb Some have body: "body = requeue_body k (ls_remaining st) d"
      and rne: "ls_remaining st \<noteq> []" and dlt: "d < maxDepth env" by auto
    show ?thesis
    proof (cases "re_fetch_fails env d")
      case True
      have "snd (snd (retry_images_chain env w payload)) = [report_of d tasks st]"
        by (subst retry_images_chain.simps) (simp add: prep bg d_def [symmetric] Some True Let_def)
      then show ?thesis using True split bud by (auto simp: rep d_def [symmetric])
    next
      case False
      define w1 where "w1 = push_console (ls_world st) info RequeueAnswered"
      have sc1: "ytg_scenes w1 = ytg_scenes (ls_world st)" by (simp add: w1_def)
      have js1: "job_statuses w1 = job_statuses w"
        using js_background [of env k tasks d st0] js_prepare [OF prep] by (simp add: w1_def bg)
      have kb: "str_trim (rq_job_id body) = k"
        using requeue_body_fields(1) [of k "ls_remaining st" d] js_trim_idem [of "case rq_job_id payload of None \<Rightarrow> [] | Some s \<Rightarrow> s"]
        unfolding body [symmetric] by (simp add: k str_trim_def)
      from single_same_ids [OF js1 j] obtain j' where
        j': "single (filter (\<lambda>j. jid j = str_trim (rq_job_id body)) (ytg_jobs w1)) = Inr j'"
        unfolding kb by blast
      from prepare_exists [of body w1 j'] kne j' obtain tasks' skip' st0' where
        prep': "retry_images_prepare w1 body = Inr (k, tasks', skip', st0')"
        unfolding kb by auto
      have kj: "list_all2 (kept (set (ls_taken st))) (job_scenes w k) (job_scenes w1 k)"
        using kp by (intro kept_job_scenes) (simp add: sc1)
      have dist1: "distinct (map scene_id (job_scenes w1 (str_trim (rq_job_id body))))"
        using dist kept_ids [OF kj] by (simp add: kb k [symmetric])
      have mo1: "rq_missing_only body \<noteq> Some False" by (simp add: body requeue_body_fields)
      have ih: "chain_ok env (payload_depth body) (map t_scene_id tasks')
                  (snd (snd (retry_images_chain env w1 body)))"
        unfolding w1_def
        by (rule "1.IH" [OF prep, of k "(tasks, skip, st0)" tasks "(skip, st0)" skip st0 _ "payload_depth payload" st b body])
           (simp_all add: bg [unfolded d_def] Some False [unfolded d_def] mo1 dist1 [unfolded w1_def] prep' [unfolded w1_def])
      have ids': "map t_scene_id tasks' = ls_remaining st"
      proof -
        from prepare_InrD [OF prep']
        have "map t_scene_id tasks' =
                map scene_id (filter (wanted (Some (ls_remaining st)) True) (job_scenes w1 k))"
          by (simp add: body requeue_body_fields)
        also have "\<dots> = ls_remaining st"
          by (rule sel_continuation [OF _ _ kj, of "map_option (List.map_filter (\<lambda>n. n)) (rq_scene_ids payload)"])
             (use dist k ids split in simp_all)
        finally show ?thesis .
      qed
      obtain r' rs where rs: "snd (snd (retry_images_chain env w1 body)) = r' # rs"
        using ih by (cases "snd (snd (retry_images_chain env w1 body))") auto
      have unf: "snd (snd (retry_images_chain env w payload)) = report_of d tasks st # r' # rs"
        apply (subst retry_images_chain.simps)
        using rs
        apply (auto simp add: prep bg d_def [symmetric] Some False Let_def w1_def [symmetric] split: prod.splits)
        done
      have ih': "chain_ok env (d + 1) (ls_remaining st) (r' # rs)"
        using ih unfolding rs ids' by (simp add: body requeue_body_fields)
      show ?thesis
        using ih' split rne dlt bud
        by (simp add: unf rep d_def [symmetric])
    qed
  qed
qed

text \<open>The function log only grows, and the warning of the budget test stays in it.\<close>

lemma console_log_both [simp]:
  "console (ls_world (log_both st lv m)) = console (ls_world st) @ [(lv, m)]"
  by (simp add: log_both_def push_console_def)

lemma console_persist [simp]: "console (persist_packager w k p) = console w"
  by (simp add: persist_packager_def)

lemma console_retry_one:
  "set (console (ls_world st)) \<subseteq> set (console (ls_world (retry_one env d i k sid pr st)))"
  by (auto simp: retry_one_def Let_def split: sum.splits option.splits)

lemma console_retry_loop:
  "set (console (ls_world st)) \<subseteq> set (console (ls_world (retry_loop env d k s0 mx i ts st)))
   \<and> (ls_remaining st = [] \<longrightarrow> ls_remaining (retry_loop env d k s0 mx i ts st) \<noteq> [] \<longrightarrow>
        (warn, BudgetExceeded d (length (ls_remaining (retry_loop env d k s0 mx i ts st))))
          \<in> set (console (ls_world (retry_loop env d k s0 mx i ts st))))"
proof (induction ts arbitrary: i st)
  case Nil
  then show ?case by simp
next
  case (Cons t ts)
  show ?case
  proof (cases "re_now env d i - s0 > mx")
    case True
    then show ?thesis by auto
  next
    case False
    define st' where "st' = (if js_trim (t_prompt t) = []
       then st\<lparr>ls_skipped := Suc (ls_skipped st), ls_taken := ls_taken st @ [t_scene_id t]\<rparr>
       else (let st1 = retry_one env d i k (t_scene_id t) (js_trim (t_prompt t))
                     (st\<lparr>ls_taken := ls_taken st @ [t_scene_id t]\<rparr>)
             in st1\<lparr>ls_world := persist_packager (ls_world st1) k (ls_packager st1)\<rparr>))"
    have step: "retry_loop env d k s0 mx i (t # ts) st = retry_loop env d k s0 mx (Suc i) ts st'"
      using False by (simp add: st'_def Let_def)
    have rm: "ls_remaining st' = ls_remaining st"
      by (auto simp: st'_def Let_def retry_one_lists)
    have c: "set (console (ls_world st)) \<subseteq> set (console (ls_world st'))"
      using console_retry_one [of "st\<lparr>ls_taken := ls_taken st @ [t_scene_id t]\<rparr>" env d i k "t_scene_id t" "js_trim (t_prompt t)"]
      by (auto simp: st'_def Let_def)
    show ?thesis
      unfolding step using Cons.IH [of st' "Suc i"] c rm by auto
  qed
qed

lemma console_background:
  assumes r: "ls_remaining st0 = []"
      and bg: "runRetryInBackground env k tasks d st0 = (st, b)"
  shows "set (console (ls_world st0)) \<subseteq> set (console (ls_world st))
       \<and> (ls_remaining st \<noteq> [] \<longrightarrow> logged_remainder (ls_world st) (report_of d tasks st))"
proof -
  define st1 where "st1 = log_both st0 info (BackgroundStarted (length tasks))"
  define st2 where "st2 = retry_loop env d k (re_started env d) (maxRuntimeMs env) 0 tasks st1"
  have r1: "ls_remaining st1 = []" by (simp add: st1_def r)
  have c1: "set (console (ls_world st0)) \<subseteq> set (console (ls_world st1))"
    by (auto simp: st1_def)
  from console_retry_loop [of st1 env d k "re_started env d" "maxRuntimeMs env" 0 tasks]
  have c2: "set (console (ls_world st1)) \<subseteq> set (console (ls_world st2))"
    and l2: "ls_remaining st2 \<noteq> [] \<longrightarrow>
               (warn, BudgetExceeded d (length (ls_remaining st2))) \<in> set (console (ls_world st2))"
    unfolding st2_def [symmetric] using r1 by auto
  have fin: "ls_remaining st = ls_remaining st2
           \<and> set (console (ls_world st2)) \<subseteq> set (console (ls_world st))"
    using bg unfolding runRetryInBackground_def Let_def st1_def [symmetric] st2_def [symmetric]
    by (auto split: if_splits)
  show ?thesis
    using c1 c2 l2 fin by (auto simp: logged_remainder_def report_of_def)
qed

lemma console_prepare:
  "retry_images_prepare w payload = Inr (k, tasks, skip, st0) \<Longrightarrow>
     set (console w) \<subseteq> set (console (ls_world st0)) \<and> ls_remaining st0 = []"
  by (auto simp: retry_images_prepare_def Let_def split: if_splits sum.splits prod.splits)

lemma logged_mono:
  "set (console w) \<subseteq> set (console w') \<Longrightarrow> logged_remainder w r \<Longrightarrow> logged_remainder w' r"
  by (auto simp: logged_remainder_def)

lemma chain_logs:
  "set (console w) \<subseteq> set (console (fst (snd (retry_images_chain env w payload))))
   \<and> (\<forall>r \<in> set (snd (snd (retry_images_chain env w payload))).
        br_remaining r \<noteq> [] \<longrightarrow> logged_remainder (fst (snd (retry_images_chain env w payload))) r)"
proof (induction env w payload rule: retry_images_chain.induct)
  case (1 env w payload)
  show ?case
  proof (cases "retry_images_prepare w payload")
    case (Inl x)
    then show ?thesis by (subst (1 2 3) retry_images_chain.simps) (simp split: prod.splits)
  next
    case (Inr y)
    obtain k ts sk st0 where y: "y = (k, ts, sk, st0)" by (cases y) auto
    note prep = Inr [unfolded y]
    define d where "d = payload_depth payload"
    obtain st b where bg: "runRetryInBackground env k ts d st0 = (st, b)"
      by (cases "runRetryInBackground env k ts d st0") auto
    from console_prepare [OF prep] have c0: "set (console w) \<subseteq> set (console (ls_world st0))"
      and r0: "ls_remaining st0 = []" by auto
    from console_background [OF r0 bg]
    have c1: "set (console (ls_world st0)) \<subseteq> set (console (ls_world st))"
      and l1: "ls_remaining st \<noteq> [] \<longrightarrow> logged_remainder (ls_world st) (report_of d ts st)"
      by auto
    have rr: "br_remaining (report_of d ts st) = ls_remaining st" by (simp add: report_of_def)
    show ?thesis
    proof (cases b)
      case None
      have e: "snd (retry_images_chain env w payload) = (ls_world st, [report_of d ts st])"
        by (subst retry_images_chain.simps) (simp add: prep bg d_def [symmetric] None Let_def)
      show ?thesis unfolding e using c0 c1 l1 by (auto simp: rr)
    next
      case (Some body)
      show ?thesis
      proof (cases "re_fetch_fails env d")
        case True
        have e: "snd (retry_images_chain env w payload)
                  = (push_console (ls_world st) error RequeueFailed, [report_of d ts st])"
          by (subst retry_images_chain.simps) (simp add: prep bg d_def [symmetric] Some True Let_def)
        have m: "set (console (ls_world st)) \<subseteq> set (console (push_console (ls_world st) error RequeueFailed))"
          by (auto simp: push_console_def)
        show ?thesis unfolding e using c0 c1 l1 m logged_mono [OF m] by (auto simp: rr)
      next
        case False
        define w1 where "w1 = push_console (ls_world st) info RequeueAnswered"
        have m: "set (console (ls_world st)) \<subseteq> set (console w1)"
          by (auto simp: w1_def push_console_def)
        have ih: "set (console w1) \<subseteq> set (console (fst (snd (retry_images_chain env w1 body))))
           \<and> (\<forall>r \<in> set (snd (snd (retry_images_chain env w1 body))).
                br_remaining r \<noteq> [] \<longrightarrow> logged_remainder (fst (snd (retry_images_chain env w1 body))) r)"
          unfolding w1_def
          by (rule "1.IH" [OF prep, of k "(ts, sk, st0)" ts "(sk, st0)" sk st0 _ "payload_depth payload" st b body])
             (simp_all add: bg [unfolded d_def] Some False [unfolded d_def])
        have e: "snd (retry_images_chain env w payload)
                  = (fst (snd (retry_images_chain env w1 body)),
                     report_of d ts st # snd (snd (retry_images_chain env w1 body)))"
          by (subst retry_images_chain.simps)
             (simp add: prep bg d_def [symmetric] Some False Let_def w1_def [symmetric] split: prod.splits)
        have big: "set (console (ls_world st)) \<subseteq> set (console (fst (snd (retry_images_chain env w1 body))))"
          using m ih by blast
        show ?thesis unfolding e using c0 c1 l1 ih big logged_mono [OF big] by (auto simp: rr)
      qed
    qed
  qed
qed

lemma chain_ok_concat:
  "chain_ok env d ids rs \<Longrightarrow> concat (map br_taken rs) @ br_remaining (last rs) = ids"
  by (induction env d ids rs rule: chain_ok.induct) auto

lemma chain_ok_length:
  "chain_ok env d ids rs \<Longrightarrow> length rs \<le> nat (maxDepth env - d) + 1"
  by (induction env d ids rs rule: chain_ok.induct) auto

lemma chain_ok_last:
  "chain_ok env d ids rs \<Longrightarrow>
     br_remaining (last rs) = [] \<or> maxDepth env \<le> br_depth (last rs) \<or> \<not> key_usable env
     \<or> re_fetch_fails env (br_depth (last rs))"
  by (induction env d ids rs rule: chain_ok.induct) auto

lemma chain_ok_nonempty: "chain_ok env d ids rs \<Longrightarrow> rs \<noteq> []"
  by (cases rs) auto

lemma maxDepth_bounds:
  "0 \<le> maxDepth env \<and> maxDepth env \<le> 30 \<and> (re_max_depth env = None \<longrightarrow> maxDepth env = 10)"
  by (auto simp: maxDepth_def clamp_env_def env_number_def split: option.splits)

text \<open>The example request and job.\<close>

lemma ex_key_usable: "key_usable (ex_retry_env s)"
  by (simp add: key_usable_def ex_retry_env_def pickJwtKey_def buildEdgeFunctionAuthHeaders_def
        jwtLike_def str_trim_def js_trim_def is_ws_def Let_def)




text \<open>
  The selection of the handler: it skips exactly the scenes that are not wanted, every
  task has a trimmed prompt that is not empty, and no warning is logged.
\<close>

lemma select_tasks_skip:
  "fst (snd (select_tasks wantSet missingOnly j ss)) =
     length (filter (\<lambda>s. \<not> wanted wantSet missingOnly s) ss)"
proof (induction ss)
  case Nil
  then show ?case by simp
next
  case (Cons s ss)
  obtain tasks skip logs where r: "select_tasks wantSet missingOnly j ss = (tasks, skip, logs)"
    by (cases "select_tasks wantSet missingOnly j ss") auto
  have ne: "or_else (str_trim (image_prompt s))
                 (or_else (str_trim (promptByScene rr (scene_id s)))
                    (fallback_prompt s tp a b)) \<noteq> []" for rr tp a b
    by (intro or_else_nonempty fallback_prompt_nonempty)
  show ?case
    using Cons.IH
    by (simp add: r Let_def ne wanted_def split: option.splits)
qed

lemma select_tasks_prompts:
  "t \<in> set (fst (select_tasks wantSet missingOnly j ss)) \<Longrightarrow>
     js_trim (t_prompt t) = t_prompt t \<and> t_prompt t \<noteq> []"
proof (induction ss arbitrary: t)
  case Nil
  then show ?case by simp
next
  case (Cons s ss)
  obtain tasks skip logs where r: "select_tasks wantSet missingOnly j ss = (tasks, skip, logs)"
    by (cases "select_tasks wantSet missingOnly j ss") auto
  have tr: "js_trim (or_else (str_trim a) (or_else (str_trim b) (fallback_prompt s tp x y)))
              = or_else (str_trim a) (or_else (str_trim b) (fallback_prompt s tp x y))" for a b tp x y
    by (simp add: or_else_def str_trim_def fallback_prompt_def js_trim_idem)
  have ih: "t \<in> set tasks \<Longrightarrow> js_trim (t_prompt t) = t_prompt t \<and> t_prompt t \<noteq> []"
    using Cons.IH [of t] by (simp add: r)
  show ?case
    using Cons.prems ih
    by (auto simp: r Let_def tr split: option.splits if_splits)
qed

lemma is_outcome_simps [simp]:
  "\<not> is_outcome (lv, RetryRequested)" "\<not> is_outcome (lv, PromptEmptySkipped s)"
  "\<not> is_outcome (lv, BackgroundStarted n)" "\<not> is_outcome (lv, BudgetExceeded d n)"
  "\<not> is_outcome (lv, ImageStarted s)" "\<not> is_outcome (lv, AssetInsertIgnored s)"
  "\<not> is_outcome (lv, BackgroundFinished a b c e)" "\<not> is_outcome (lv, RequeueAuthCheck d d')"
  "\<not> is_outcome (lv, RequeueKeyEmpty)" "\<not> is_outcome (lv, RequeueKeyNotJwt)"
  "\<not> is_outcome (lv, RequeueAnswered)" "\<not> is_outcome (lv, RequeueFailed)"
  by simp_all

lemma is_outcome_outcome_of [simp]: "is_outcome (outcome_of env d i sid)"
  by (simp add: outcome_of_def split: sum.splits option.splits)

lemma outcome_log_push:
  "outcome_log (push_packager p lv m) =
     map_option (\<lambda>l. if is_outcome (lv, m) then l @ [(lv, m)] else l) (outcome_log p)"
  by (cases p) (simp_all add: outcome_log_def push_packager_def)

lemma log_both_more [simp]:
  "ls_packager (log_both st lv m) = push_packager (ls_packager st) lv m"
  "ls_attempted (log_both st lv m) = ls_attempted st"
  "ls_succeeded (log_both st lv m) = ls_succeeded st"
  "ls_failed (log_both st lv m) = ls_failed st"
  "ls_skipped (log_both st lv m) = ls_skipped st"
  "image_calls (ls_world (log_both st lv m)) = image_calls (ls_world st)"
  "ytg_jobs (ls_world (log_both st lv m)) = ytg_jobs (ls_world st)"
  by (simp_all add: log_both_def push_console_def)

lemma retry_one_outcome:
  "filter is_outcome (console (ls_world (retry_one env d i k sid pr st)))
     = filter is_outcome (console (ls_world st)) @ [outcome_of env d i sid]"
  "outcome_log (ls_packager (retry_one env d i k sid pr st))
     = map_option (\<lambda>l. l @ [outcome_of env d i sid]) (outcome_log (ls_packager st))"
  "ls_attempted (retry_one env d i k sid pr st) = Suc (ls_attempted st)"
  "ls_succeeded (retry_one env d i k sid pr st)
     = ls_succeeded st + (if fst (outcome_of env d i sid) = info then 1 else 0)"
  "ls_failed (retry_one env d i k sid pr st)
     = ls_failed st + (if fst (outcome_of env d i sid) = error then 1 else 0)"
  "ls_skipped (retry_one env d i k sid pr st) = ls_skipped st"
  "image_calls (ls_world (retry_one env d i k sid pr st)) = image_calls (ls_world st) @ [pr]"
  by (auto simp: retry_one_def Let_def outcome_of_def outcome_log_push option.map_comp comp_def
        option.map_ident split: sum.splits option.splits)

text \<open>What the loop and the background work write to the logs and to the counters.\<close>

lemma outcomes_Nil [simp]: "outcomes env d i [] = []"
  by (simp add: outcomes_def)

lemma outcomes_Cons [simp]:
  "outcomes env d i (t # ts) = outcome_of env d i (t_scene_id t) # outcomes env d (Suc i) ts"
  by (simp add: outcomes_def)

lemma is_outcome_outcomes [simp]: "filter is_outcome (outcomes env d i ts) = outcomes env d i ts"
  by (induction ts arbitrary: i) simp_all

lemma retry_loop_outcomes:
  assumes "ls_remaining st = []" and "\<forall>t \<in> set ts. js_trim (t_prompt t) \<noteq> []"
  shows "\<exists>n \<le> length ts.
      ls_taken (retry_loop env d k s0 mx i ts st) = ls_taken st @ take n (map t_scene_id ts)
    \<and> filter is_outcome (console (ls_world (retry_loop env d k s0 mx i ts st)))
        = filter is_outcome (console (ls_world st)) @ outcomes env d i (take n ts)
    \<and> outcome_log (ls_packager (retry_loop env d k s0 mx i ts st))
        = map_option (\<lambda>l. l @ outcomes env d i (take n ts)) (outcome_log (ls_packager st))
    \<and> ls_attempted (retry_loop env d k s0 mx i ts st) = ls_attempted st + n
    \<and> ls_succeeded (retry_loop env d k s0 mx i ts st)
        = ls_succeeded st + length (filter (\<lambda>e. fst e = info) (outcomes env d i (take n ts)))
    \<and> ls_failed (retry_loop env d k s0 mx i ts st)
        = ls_failed st + length (filter (\<lambda>e. fst e = error) (outcomes env d i (take n ts)))
    \<and> ls_skipped (retry_loop env d k s0 mx i ts st) = ls_skipped st
    \<and> image_calls (ls_world (retry_loop env d k s0 mx i ts st))
        = image_calls (ls_world st) @ map (\<lambda>t. js_trim (t_prompt t)) (take n ts)"
  using assms
proof (induction ts arbitrary: i st)
  case Nil
  then show ?case by (simp add: option.map_ident)
next
  case (Cons t ts)
  show ?case
  proof (cases "re_now env d i - s0 > mx")
    case True
    then show ?thesis
      by (intro exI [of _ 0]) (simp add: outcome_log_push option.map_ident)
  next
    case False
    have pt: "js_trim (t_prompt t) \<noteq> []" using Cons.prems(2) by simp
    define sa where "sa = retry_one env d i k (t_scene_id t) (js_trim (t_prompt t))
                     (st\<lparr>ls_taken := ls_taken st @ [t_scene_id t]\<rparr>)"
    define st' where "st' = sa\<lparr>ls_world := persist_packager (ls_world sa) k (ls_packager sa)\<rparr>"
    have step: "retry_loop env d k s0 mx i (t # ts) st = retry_loop env d k s0 mx (Suc i) ts st'"
      using False pt by (simp add: st'_def sa_def Let_def)
    have rm: "ls_remaining st' = []"
      using Cons.prems(1) by (simp add: st'_def sa_def retry_one_lists)
    have f: "ls_taken st' = ls_taken st @ [t_scene_id t]"
      "filter is_outcome (console (ls_world st'))
         = filter is_outcome (console (ls_world st)) @ [outcome_of env d i (t_scene_id t)]"
      "outcome_log (ls_packager st')
         = map_option (\<lambda>l. l @ [outcome_of env d i (t_scene_id t)]) (outcome_log (ls_packager st))"
      "ls_attempted st' = Suc (ls_attempted st)"
      "ls_succeeded st' = ls_succeeded st + (if fst (outcome_of env d i (t_scene_id t)) = info then 1 else 0)"
      "ls_failed st' = ls_failed st + (if fst (outcome_of env d i (t_scene_id t)) = error then 1 else 0)"
      "ls_skipped st' = ls_skipped st"
      "image_calls (ls_world st') = image_calls (ls_world st) @ [js_trim (t_prompt t)]"
      by (simp_all add: st'_def sa_def retry_one_outcome retry_one_lists)
    from Cons.IH [OF rm, of "Suc i"] Cons.prems(2) obtain n where
      n: "n \<le> length ts"
      and g: "ls_taken (retry_loop env d k s0 mx (Suc i) ts st') = ls_taken st' @ take n (map t_scene_id ts)"
        "filter is_outcome (console (ls_world (retry_loop env d k s0 mx (Suc i) ts st')))
          = filter is_outcome (console (ls_world st')) @ outcomes env d (Suc i) (take n ts)"
        "outcome_log (ls_packager (retry_loop env d k s0 mx (Suc i) ts st'))
          = map_option (\<lambda>l. l @ outcomes env d (Suc i) (take n ts)) (outcome_log (ls_packager st'))"
        "ls_attempted (retry_loop env d k s0 mx (Suc i) ts st') = ls_attempted st' + n"
        "ls_succeeded (retry_loop env d k s0 mx (Suc i) ts st')
          = ls_succeeded st' + length (filter (\<lambda>e. fst e = info) (outcomes env d (Suc i) (take n ts)))"
        "ls_failed (retry_loop env d k s0 mx (Suc i) ts st')
          = ls_failed st' + length (filter (\<lambda>e. fst e = error) (outcomes env d (Suc i) (take n ts)))"
        "ls_skipped (retry_loop env d k s0 mx (Suc i) ts st') = ls_skipped st'"
        "image_calls (ls_world (retry_loop env d k s0 mx (Suc i) ts st'))
          = image_calls (ls_world st') @ map (\<lambda>t. js_trim (t_prompt t)) (take n ts)"
      by auto
    show ?thesis
      unfolding step
      by (intro exI [of _ "Suc n"])
         (simp add: n g f option.map_comp comp_def)
  qed
qed

lemma jid_count:
  "job_statuses w' = job_statuses w \<Longrightarrow>
     length (filter (\<lambda>j. jid j = k) (ytg_jobs w')) = length (filter (\<lambda>j. jid j = k) (ytg_jobs w))"
proof -
  have len: "length (filter (\<lambda>j. jid j = k) js)
               = length (filter (\<lambda>p. fst p = k) (map (\<lambda>j. (jid j, status j)) js))"
    for js :: "job_row list"
    by (induction js) auto
  show "job_statuses w' = job_statuses w \<Longrightarrow> ?thesis"
    by (simp add: len job_statuses_def)
qed

lemma job_packager_persist:
  assumes "length (filter (\<lambda>j. jid j = k) (ytg_jobs w)) = 1"
  shows "job_packager (persist_packager w k p) k = p"
proof -
  from assms obtain j where j: "filter (\<lambda>j. jid j = k) (ytg_jobs w) = [j]"
    by (cases "filter (\<lambda>j. jid j = k) (ytg_jobs w)") auto
  have m: "filter (\<lambda>j. jid j = k) (map (\<lambda>j. if jid j = k then j\<lparr>packager := p\<rparr> else j) js)
          = map (\<lambda>j. j\<lparr>packager := p\<rparr>) (filter (\<lambda>j. jid j = k) js)" for js :: "job_row list"
    by (induction js) auto
  show ?thesis
    unfolding job_packager_def persist_packager_def by (simp add: m [of "ytg_jobs w"] j)
qed

lemma background_outcomes:
  assumes t0: "ls_taken st0 = []" and r0: "ls_remaining st0 = []"
      and pr: "\<forall>t \<in> set tasks. js_trim (t_prompt t) \<noteq> []"
      and one: "length (filter (\<lambda>j. jid j = k) (ytg_jobs (ls_world st0))) = 1"
      and bg: "runRetryInBackground env k tasks d st0 = (st, b)"
  shows "filter is_outcome (console (ls_world st))
           = filter is_outcome (console (ls_world st0))
               @ outcomes env d 0 (take (length (ls_taken st)) tasks)
       \<and> outcome_log (job_packager (ls_world st) k)
           = map_option (\<lambda>l. l @ outcomes env d 0 (take (length (ls_taken st)) tasks))
               (outcome_log (ls_packager st0))
       \<and> ls_attempted st = ls_attempted st0 + length (ls_taken st)
       \<and> ls_succeeded st = ls_succeeded st0
           + length (filter (\<lambda>e. fst e = info) (outcomes env d 0 (take (length (ls_taken st)) tasks)))
       \<and> ls_failed st = ls_failed st0
           + length (filter (\<lambda>e. fst e = error) (outcomes env d 0 (take (length (ls_taken st)) tasks)))
       \<and> image_calls (ls_world st)
           = image_calls (ls_world st0) @ map (\<lambda>t. js_trim (t_prompt t)) (take (length (ls_taken st)) tasks)"
proof -
  define st1 where "st1 = log_both st0 info (BackgroundStarted (length tasks))"
  define st2 where "st2 = retry_loop env d k (re_started env d) (maxRuntimeMs env) 0 tasks st1"
  define st3 where "st3 = log_both st2 info
      (BackgroundFinished (ls_attempted st2) (ls_succeeded st2) (ls_failed st2) (ls_skipped st2))"
  define st4 where "st4 = st3\<lparr>ls_world := persist_packager (ls_world st3) k (ls_packager st3)\<rparr>"
  have r1: "ls_remaining st1 = []" and t1: "ls_taken st1 = []"
    by (simp_all add: st1_def r0 t0)
  from retry_loop_outcomes [OF r1 pr, of env d k "re_started env d" "maxRuntimeMs env" 0]
  obtain n where n: "n \<le> length tasks"
    and g: "ls_taken st2 = take n (map t_scene_id tasks)"
      "filter is_outcome (console (ls_world st2))
          = filter is_outcome (console (ls_world st1)) @ outcomes env d 0 (take n tasks)"
      "outcome_log (ls_packager st2)
          = map_option (\<lambda>l. l @ outcomes env d 0 (take n tasks)) (outcome_log (ls_packager st1))"
      "ls_attempted st2 = ls_attempted st1 + n"
      "ls_succeeded st2 = ls_succeeded st1 + length (filter (\<lambda>e. fst e = info) (outcomes env d 0 (take n tasks)))"
      "ls_failed st2 = ls_failed st1 + length (filter (\<lambda>e. fst e = error) (outcomes env d 0 (take n tasks)))"
      "image_calls (ls_world st2) = image_calls (ls_world st1) @ map (\<lambda>t. js_trim (t_prompt t)) (take n tasks)"
    unfolding st2_def [symmetric] t1 by auto
  have len: "length (ls_taken st2) = n" using n g(1) by simp
  have js3: "job_statuses (ls_world st3) = job_statuses (ls_world st0)"
    by (simp add: st3_def st2_def st1_def js_retry_loop)
  have one3: "length (filter (\<lambda>j. jid j = k) (ytg_jobs (ls_world st3))) = 1"
    using jid_count [OF js3, of k] one by simp
  have jp4: "job_packager (ls_world st4) k = ls_packager st3"
    by (simp add: st4_def job_packager_persist [OF one3])
  have f1: "filter is_outcome (console (ls_world st1)) = filter is_outcome (console (ls_world st0))"
    "outcome_log (ls_packager st1) = outcome_log (ls_packager st0)"
    "ls_attempted st1 = ls_attempted st0" "ls_succeeded st1 = ls_succeeded st0"
    "ls_failed st1 = ls_failed st0" "image_calls (ls_world st1) = image_calls (ls_world st0)"
    by (simp_all add: st1_def outcome_log_push option.map_ident)
  have f4: "filter is_outcome (console (ls_world st4)) = filter is_outcome (console (ls_world st2))"
    "outcome_log (ls_packager st3) = outcome_log (ls_packager st2)"
    "ls_attempted st4 = ls_attempted st2" "ls_succeeded st4 = ls_succeeded st2"
    "ls_failed st4 = ls_failed st2" "image_calls (ls_world st4) = image_calls (ls_world st2)"
    "ls_taken st4 = ls_taken st2"
    by (simp_all add: st4_def st3_def outcome_log_push option.map_ident)
  have fin: "filter is_outcome (console (ls_world st)) = filter is_outcome (console (ls_world st4))
           \<and> job_packager (ls_world st) k = job_packager (ls_world st4) k
           \<and> ls_attempted st = ls_attempted st4 \<and> ls_succeeded st = ls_succeeded st4
           \<and> ls_failed st = ls_failed st4 \<and> image_calls (ls_world st) = image_calls (ls_world st4)
           \<and> ls_taken st = ls_taken st4"
    using bg unfolding runRetryInBackground_def Let_def st1_def [symmetric] st2_def [symmetric]
      st3_def [symmetric] st4_def [symmetric]
    by (auto simp: job_packager_def split: if_splits)
  show ?thesis
    using fin f4 f1 g len jp4 by simp
qed

lemma select_tasks_no_warning: "snd (snd (select_tasks wantSet missingOnly j ss)) = []"
proof (induction ss)
  case Nil
  then show ?case by simp
next
  case (Cons s ss)
  obtain tasks skip logs where r: "select_tasks wantSet missingOnly j ss = (tasks, skip, logs)"
    by (cases "select_tasks wantSet missingOnly j ss") auto
  have ne: "or_else (str_trim (image_prompt s))
                 (or_else (str_trim (promptByScene rr (scene_id s)))
                    (fallback_prompt s tp a b)) \<noteq> []" for rr tp a b
    by (intro or_else_nonempty fallback_prompt_nonempty)
  show ?case
    using Cons.IH by (simp add: r Let_def ne split: option.splits)
qed

lemma prepare_more:
  assumes prep: "retry_images_prepare w payload = Inr (k, tasks, skip, st0)"
  shows "skip = length (filter (\<lambda>s. \<not> wanted (map_option (List.map_filter (\<lambda>n. n)) (rq_scene_ids payload))
                                  (rq_missing_only payload \<noteq> Some False) s) (job_scenes w k))
       \<and> (\<forall>t \<in> set tasks. js_trim (t_prompt t) \<noteq> [])
       \<and> filter is_outcome (console (ls_world st0)) = filter is_outcome (console w)
       \<and> outcome_log (ls_packager st0) = outcome_log (job_packager w k)
       \<and> ls_attempted st0 = 0 \<and> ls_succeeded st0 = 0 \<and> ls_failed st0 = 0
       \<and> image_calls (ls_world st0) = image_calls w
       \<and> length (filter (\<lambda>j. jid j = k) (ytg_jobs (ls_world st0))) = 1"
proof -
  let ?W = "map_option (List.map_filter (\<lambda>n. n)) (rq_scene_ids payload)"
  let ?M = "rq_missing_only payload \<noteq> Some False"
  from prepare_InrD [OF prep] obtain j where k: "k = str_trim (rq_job_id payload)" and ne: "k \<noteq> []"
    and j: "single (filter (\<lambda>j. jid j = k) (ytg_jobs w)) = Inr j" by auto
  have jj: "filter (\<lambda>j. jid j = k) (ytg_jobs w) = [j]" using j by (rule single_InrD)
  obtain ts sk lg where sel: "select_tasks ?W ?M j (job_scenes w k) = (ts, sk, lg)"
    by (metis prod_cases3)
  have lg: "lg = []" using select_tasks_no_warning [of ?W ?M j "job_scenes w k"] sel by simp
  have sk: "sk = length (filter (\<lambda>s. \<not> wanted ?W ?M s) (job_scenes w k))"
    using select_tasks_skip [of ?W ?M j "job_scenes w k"] sel by simp
  have pr: "\<forall>t \<in> set ts. js_trim (t_prompt t) \<noteq> []"
    using select_tasks_prompts [of _ ?W ?M j "job_scenes w k"] sel by auto
  have st0: "tasks = ts \<and> skip = sk \<and> ls_attempted st0 = 0 \<and> ls_succeeded st0 = 0 \<and> ls_failed st0 = 0
      \<and> console (ls_world st0) = console w @ [(info, RetryRequested)]
      \<and> image_calls (ls_world st0) = image_calls w
      \<and> ls_packager st0 = (case packager j of None \<Rightarrow> None
                        | Some q \<Rightarrow> Some (q\<lparr>p_logs := p_logs q @ [(info, RetryRequested)]\<rparr>))"
    using prep ne j sel lg unfolding k [symmetric] job_scenes_def
    by (auto simp: retry_images_prepare_def Let_def k [symmetric] persist_packager_def)
  have js: "job_statuses (ls_world st0) = job_statuses w" using js_prepare [OF prep] .
  have one: "length (filter (\<lambda>j. jid j = k) (ytg_jobs (ls_world st0))) = 1"
    using jid_count [OF js, of k] jj by simp
  have jp: "job_packager w k = packager j" by (simp add: job_packager_def jj)
  have ol: "outcome_log (ls_packager st0) = outcome_log (job_packager w k)"
    using st0 by (simp add: jp outcome_log_def split: option.splits)
  show ?thesis using st0 sk pr ol one by simp
qed

lemma chain_response:
  "retry_images_prepare w payload = Inr (k, tasks, skip, st0) \<Longrightarrow>
     fst (retry_images_chain env w payload) =
       (202, Inr \<lparr>rs_job_id = k, attempted = length tasks, succeeded = 0, failed = 0,
                  skipped = skip, accepted = True\<rparr>)"
  by (subst retry_images_chain.simps) (simp add: Let_def split: prod.splits option.splits)

text \<open>One request of a chain, and the first step of the loop.\<close>

lemma chain_step_last:
  assumes "retry_images_prepare w payload = Inr (k, tasks, skip, st0)"
      and "runRetryInBackground env k tasks (payload_depth payload) st0 = (st, None)"
  shows "snd (retry_images_chain env w payload)
           = (ls_world st, [report_of (payload_depth payload) tasks st])"
  by (subst retry_images_chain.simps) (simp add: assms Let_def)

lemma chain_step_more:
  assumes "retry_images_prepare w payload = Inr (k, tasks, skip, st0)"
      and "runRetryInBackground env k tasks (payload_depth payload) st0 = (st, Some body)"
      and "\<not> re_fetch_fails env (payload_depth payload)"
  shows "snd (retry_images_chain env w payload)
           = (fst (snd (retry_images_chain env (push_console (ls_world st) info RequeueAnswered) body)),
              report_of (payload_depth payload) tasks st
                # snd (snd (retry_images_chain env (push_console (ls_world st) info RequeueAnswered) body)))"
  by (subst retry_images_chain.simps) (simp add: assms Let_def split: prod.splits)

lemma prepare_tasks:
  assumes "retry_images_prepare w payload = Inr (k, tasks, skip, st0)"
  shows "\<exists>j. filter (\<lambda>j. jid j = k) (ytg_jobs w) = [j]
           \<and> tasks = fst (select_tasks (map_option (List.map_filter (\<lambda>n. n)) (rq_scene_ids payload))
                             (rq_missing_only payload \<noteq> Some False) j (job_scenes w k))"
proof -
  from prepare_InrD [OF assms] obtain j where k: "k = str_trim (rq_job_id payload)" and ne: "k \<noteq> []"
    and j: "single (filter (\<lambda>j. jid j = k) (ytg_jobs w)) = Inr j" by auto
  have "tasks = fst (select_tasks (map_option (List.map_filter (\<lambda>n. n)) (rq_scene_ids payload))
                             (rq_missing_only payload \<noteq> Some False) j (job_scenes w k))"
    using assms ne j unfolding k [symmetric] job_scenes_def
    by (auto simp: retry_images_prepare_def Let_def k [symmetric] split: prod.splits)
  then show ?thesis using single_InrD [OF j] by blast
qed

lemma kept_empty: "list_all2 (kept {}) xs ys \<Longrightarrow> ys = xs"
  by (induction rule: list_all2_induct) (auto simp: kept_def)

lemma background_scenes:
  "ytg_scenes (ls_world (fst (runRetryInBackground env k tasks d st0)))
     = ytg_scenes (ls_world (retry_loop env d k (re_started env d) (maxRuntimeMs env) 0 tasks
                               (log_both st0 info (BackgroundStarted (length tasks)))))"
  by (simp add: runRetryInBackground_def Let_def)

lemma retry_loop_one_step:
  assumes "\<not> re_now env d 0 - s0 > mx" and "re_now env d (Suc 0) - s0 > mx"
      and "js_trim (t_prompt t) \<noteq> []"
  shows "ytg_scenes (ls_world (retry_loop env d k s0 mx 0 (t # t' # ts) st))
           = ytg_scenes (ls_world (retry_one env d 0 k (t_scene_id t) (js_trim (t_prompt t))
                                     (st\<lparr>ls_taken := ls_taken st @ [t_scene_id t]\<rparr>)))"
  using assms by (simp add: Let_def)

lemma retry_one_stores:
  assumes "re_image env d i = Inr png" and "re_upload_error env d i = None"
  shows "ytg_scenes (ls_world (retry_one env d i k sid pr st))
           = map (\<lambda>r. if scene_matches k sid r
                       then r\<lparr>image_path := Some (re_path env sid),
                              image_url := Some (re_publicUrl env sid),
                              image_prompt := Some pr\<rparr>
                       else r) (ytg_scenes (ls_world st))"
  using assms by (simp add: retry_one_def Let_def)

text \<open>The example environments.\<close>

lemma one_task_budget:
  assumes w: "\<And>i. within_budget env (br_depth r) i \<longleftrightarrow> i = 0"
      and b: "budget_split env r"
      and s: "br_taken r @ br_remaining r = ids"
  shows "br_taken r = take 1 ids \<and> br_remaining r = drop 1 ids"
proof -
  have le: "length (br_taken r) \<le> 1"
  proof (rule ccontr)
    assume "\<not> length (br_taken r) \<le> 1"
    then have "1 \<in> set [0..<length (br_taken r)]" by simp
    with b have "within_budget env (br_depth r) 1"
      unfolding budget_split_def list_all_iff by blast
    then show False by (simp add: w)
  qed
  have ge: "br_remaining r \<noteq> [] \<Longrightarrow> length (br_taken r) \<noteq> 0"
    using b by (simp add: budget_split_def w)
  show ?thesis
  proof (cases "br_taken r")
    case Nil
    then have "br_remaining r = []" using ge by auto
    then show ?thesis using Nil s by auto
  next
    case (Cons x xs)
    then have "xs = []" using le by simp
    then show ?thesis using Cons s by auto
  qed
qed


lemma slow_within: "within_budget ex_slow_env d i \<longleftrightarrow> i = 0"
  by (auto simp: within_budget_def ex_slow_env_def ex_retry_env_def maxRuntimeMs_def clamp_env_def
        env_number_def)

lemma slow_clock:
  "re_started ex_slow_env d = 0" "maxRuntimeMs ex_slow_env = 50000"
  "re_now ex_slow_env d 0 = 0" "re_now ex_slow_env d (Suc 0) = 60000"
  by (simp_all add: ex_slow_env_def ex_retry_env_def maxRuntimeMs_def clamp_env_def env_number_def)

lemma slow_maxDepth: "maxDepth ex_slow_env = 10"
  by (simp add: maxDepth_def ex_slow_env_def ex_retry_env_def clamp_env_def env_number_def)

lemma slow_key: "key_usable ex_slow_env"
  using ex_key_usable [of 60000] by (simp add: key_usable_def ex_slow_env_def)

lemma slow_fetch: "\<not> re_fetch_fails ex_slow_env d"
  by (simp add: ex_slow_env_def ex_retry_env_def)

lemma slow_provider:
  "re_image ex_slow_env d i = Inr ''png''" "re_upload_error ex_slow_env d i = None"
  "re_path ex_slow_env sid = ''path''" "re_publicUrl ex_slow_env sid = ''http://img/new''"
  by (simp_all add: ex_slow_env_def ex_retry_env_def)

lemma slow_outcome: "outcome_of ex_slow_env d i sid = (info, ImageDone sid)"
  by (simp add: outcome_of_def slow_provider)

lemma ex_force_fields:
  "payload_depth ex_force_request = 0" "str_trim (rq_job_id ex_force_request) = ''j1''"
  "map_option (List.map_filter (\<lambda>n. n)) (rq_scene_ids ex_force_request) = Some [1, 2, 3]"
  "(rq_missing_only ex_force_request \<noteq> Some False) = False"
  by (simp_all add: ex_force_request_def payload_depth_def env_number_def str_trim_def trims
        List.map_filter_def)

lemma ex_full_jobs: "filter (\<lambda>j. jid j = ''j1'') (ytg_jobs ex_full_world) = [ex_job SUCCEEDED]"
  by (simp add: ex_full_world_def ex_world_def ex_job_def)

lemma ex_full_scenes:
  "job_scenes ex_full_world ''j1'' = ytg_scenes ex_full_world"
  "ytg_scenes ex_full_world = [ex_scene ''r1'' 1 (Some ''http://img/1''),
                               ex_scene ''r2'' 2 (Some ''http://img/2''),
                               ex_scene ''r3'' 3 (Some ''http://img/3'')]"
  by (simp_all add: job_scenes_def ex_full_world_def ex_scene_def)

lemma ex_full_select:
  "select_tasks (Some [1, 2, 3]) False (ex_job SUCCEEDED)
     [ex_scene ''r1'' 1 (Some ''http://img/1''), ex_scene ''r2'' 2 (Some ''http://img/2''),
      ex_scene ''r3'' 3 (Some ''http://img/3'')]
   = ([\<lparr>t_scene_id = 1,
        t_prompt = ''a rocket, no text, no logo, no watermark, clean composition, high quality, 16:9''\<rparr>,
       \<lparr>t_scene_id = 2,
        t_prompt = ''a rocket, no text, no logo, no watermark, clean composition, high quality, 16:9''\<rparr>,
       \<lparr>t_scene_id = 3,
        t_prompt = ''a rocket, no text, no logo, no watermark, clean composition, high quality, 16:9''\<rparr>],
      0, [])"
  by (simp add: ex_scene_def ex_job_def ex_input_def empty_packager_def truthy_def
        str_trim_def js_trim_def is_ws_def or_else_def fallback_prompt_def topic_of_def)

lemma ex_scene_sel:
  "scene_id (ex_scene rid sid url) = sid" "image_url (ex_scene rid sid url) = url"
  "job_id (ex_scene rid sid url) = ''j1''"
  by (simp_all add: ex_scene_def)

lemma ex_prompt_trim:
  "js_trim ''a rocket, no text, no logo, no watermark, clean composition, high quality, 16:9''
     = ''a rocket, no text, no logo, no watermark, clean composition, high quality, 16:9''"
  by (simp add: js_trim_def is_ws_def)





section \<open>Properties of the image retry request\<close>





section \<open>Properties of the batch continuation\<close>

text \<open>
  Requests for missing images only: on a job whose scenes have pairwise different scene
  ids, every request of the chain takes its tasks in order while the budget test passes
  and records the rest as its remainder; a continuation follows only if the remainder is
  not empty and the depth is below the maximum depth, and it has exactly the remainder as
  its tasks and the depth plus one. The tasks taken along the chain followed by the last
  remainder are the original task list, the chain has at most (maximum depth - first
  depth) + 1 requests, and a last remainder that is not empty is in the function log.
\<close>

lemma missing_only_chain_accounting:
  assumes "rq_missing_only payload \<noteq> Some False"
      and "distinct (map scene_id (job_scenes w (str_trim (rq_job_id payload))))"
      and "retry_images_prepare w payload = Inr (k, tasks, skip, st0)"
      and "retry_images_chain env w payload = (resp, w', reports)"
  shows "chain_ok env (payload_depth payload) (map t_scene_id tasks) reports
       \<and> concat (map br_taken reports) @ br_remaining (last reports) = map t_scene_id tasks
       \<and> length reports \<le> nat (maxDepth env - payload_depth payload) + 1
       \<and> (br_remaining (last reports) = [] \<or> maxDepth env \<le> br_depth (last reports)
            \<or> \<not> key_usable env \<or> re_fetch_fails env (br_depth (last reports)))
       \<and> (br_remaining (last reports) \<noteq> [] \<longrightarrow> logged_remainder w' (last reports))
       \<and> 0 \<le> maxDepth env \<and> maxDepth env \<le> 30
       \<and> (re_max_depth env = None \<longrightarrow> maxDepth env = 10)"
proof -
  have ok: "chain_ok env (payload_depth payload) (map t_scene_id tasks) reports"
    using chain_accounting [OF assms(1-3), of env] assms(4) by simp
  have ne: "reports \<noteq> []" using ok by (rule chain_ok_nonempty)
  have lg: "br_remaining (last reports) \<noteq> [] \<longrightarrow> logged_remainder w' (last reports)"
    using chain_logs [of w env payload] ne assms(4) by simp
  show ?thesis
    using ok chain_ok_concat [OF ok] chain_ok_length [OF ok] chain_ok_last [OF ok] lg
      maxDepth_bounds [of env]
    by blast
qed


text \<open>
  C7, evaluated on the code: the three scenes of job \<^verbatim>\<open>j1\<close> have images and the request
  asks for all three to be made again (\<^verbatim>\<open>missing_only: false\<close>). Every task takes 60 seconds
  against a budget of 50 seconds, and the maximum depth is the default 10. The response
  announces three attempts. The first request takes scene 1 and posts the remainder 2, 3
  with depth 1; but the body it posts says \<^verbatim>\<open>missing_only: true\<close>, so the continuation finds
  no task, since scenes 2 and 3 have images, and the chain ends at depth 1 with no
  remainder recorded. In the whole chain the image provider is called once, one outcome
  is logged, and scenes 2 and 3 keep their old images.
\<close>

theorem forced_retry_continuation_drops_remainder:
  "fst (retry_images_chain ex_slow_env ex_full_world ex_force_request)
     = (202, Inr \<lparr>rs_job_id = ''j1'', attempted = 3, succeeded = 0, failed = 0, skipped = 0,
                  accepted = True\<rparr>)
   \<and> maxDepth ex_slow_env = 10
   \<and> map br_depth (snd (snd (retry_images_chain ex_slow_env ex_full_world ex_force_request))) = [0, 1]
   \<and> map br_tasks (snd (snd (retry_images_chain ex_slow_env ex_full_world ex_force_request)))
       = [[1, 2, 3], []]
   \<and> map br_taken (snd (snd (retry_images_chain ex_slow_env ex_full_world ex_force_request)))
       = [[1], []]
   \<and> map br_remaining (snd (snd (retry_images_chain ex_slow_env ex_full_world ex_force_request)))
       = [[2, 3], []]
   \<and> image_calls (fst (snd (retry_images_chain ex_slow_env ex_full_world ex_force_request)))
       = [''a rocket, no text, no logo, no watermark, clean composition, high quality, 16:9'']
   \<and> filter is_outcome (console (fst (snd (retry_images_chain ex_slow_env ex_full_world ex_force_request))))
       = [(info, ImageDone 1)]
   \<and> map image_url (ytg_scenes (fst (snd (retry_images_chain ex_slow_env ex_full_world ex_force_request))))
       = [Some ''http://img/new'', Some ''http://img/2'', Some ''http://img/3'']"
proof -
  let ?p = "''a rocket, no text, no logo, no watermark, clean composition, high quality, 16:9''"
  let ?ts = "[\<lparr>t_scene_id = 1, t_prompt = ?p\<rparr>, \<lparr>t_scene_id = 2, t_prompt = ?p\<rparr>,
              \<lparr>t_scene_id = 3, t_prompt = ?p\<rparr>]"
  from prepare_exists [of ex_force_request ex_full_world "ex_job SUCCEEDED"]
  obtain tasks skip st0 where
    prep: "retry_images_prepare ex_full_world ex_force_request = Inr (''j1'', tasks, skip, st0)"
    by (auto simp: ex_force_fields ex_full_jobs single_def)
  have tasks: "tasks = ?ts"
    using prepare_tasks [OF prep]
    by (simp add: ex_force_fields ex_full_jobs ex_full_scenes ex_full_select del: select_tasks.simps)
  note pm = prepare_more [OF prep]
  have skip: "skip = 0"
    using pm by (simp add: ex_force_fields ex_full_scenes wanted_def ex_scene_sel)
  from prepare_InrD [OF prep]
  have t0: "ls_taken st0 = []" and r0: "ls_remaining st0 = []"
    and s0: "ytg_scenes (ls_world st0) = ytg_scenes ex_full_world" by auto
  obtain st b where bg: "runRetryInBackground ex_slow_env ''j1'' tasks 0 st0 = (st, b)"
    by (cases "runRetryInBackground ex_slow_env ''j1'' tasks 0 st0") auto
  from background_facts [OF t0 r0 bg]
  have split: "ls_taken st @ ls_remaining st = [1, 2, 3]"
    and bud: "budget_split ex_slow_env (report_of 0 tasks st)"
    and bb: "case b of
            None \<Rightarrow> ls_remaining st = [] \<or> maxDepth ex_slow_env \<le> 0 \<or> \<not> key_usable ex_slow_env
          | Some body \<Rightarrow> body = requeue_body ''j1'' (ls_remaining st) 0 \<and> ls_remaining st \<noteq> []
                         \<and> 0 < maxDepth ex_slow_env"
    by (simp_all add: tasks)
  have tr: "ls_taken st = [1] \<and> ls_remaining st = [2, 3]"
    using one_task_budget [of ex_slow_env "report_of 0 tasks st" "[1, 2, 3]"] bud split
    by (simp add: slow_within report_of_def)
  have b: "b = Some (requeue_body ''j1'' [2, 3] 0)"
    using bb tr by (cases b) (simp_all add: slow_maxDepth slow_key)
  have sc: "ytg_scenes (ls_world st)
              = [(ex_scene ''r1'' 1 (Some ''http://img/1''))
                   \<lparr>image_path := Some ''path'', image_url := Some ''http://img/new'',
                    image_prompt := Some ?p\<rparr>,
                 ex_scene ''r2'' 2 (Some ''http://img/2''), ex_scene ''r3'' 3 (Some ''http://img/3'')]"
  proof -
    obtain t t' ts where tk: "tasks = t # t' # ts"
      and th: "t_scene_id t = 1" "js_trim (t_prompt t) = ?p"
    proof -
      from that [of "hd tasks" "hd (tl tasks)" "tl (tl tasks)"] show ?thesis
        by (simp add: tasks ex_prompt_trim)
    qed
    define S where "S = log_both st0 info (BackgroundStarted (length tasks))"
    have a: "ytg_scenes (ls_world st)
            = ytg_scenes (ls_world (retry_loop ex_slow_env 0 ''j1'' (re_started ex_slow_env 0)
                                      (maxRuntimeMs ex_slow_env) 0 tasks S))"
      unfolding S_def using background_scenes [of ex_slow_env "''j1''" tasks 0 st0]
      by (simp only: bg fst_conv)
    have b: "ytg_scenes (ls_world (retry_loop ex_slow_env 0 ''j1'' (re_started ex_slow_env 0)
                                      (maxRuntimeMs ex_slow_env) 0 (t # t' # ts) S))
            = ytg_scenes (ls_world (retry_one ex_slow_env 0 0 ''j1'' (t_scene_id t) (js_trim (t_prompt t))
                  (S\<lparr>ls_taken := ls_taken S @ [t_scene_id t]\<rparr>)))"
      by (rule retry_loop_one_step) (simp_all add: slow_clock th)
    have c: "ytg_scenes (ls_world (retry_one ex_slow_env 0 0 ''j1'' (t_scene_id t) (js_trim (t_prompt t))
                  (S\<lparr>ls_taken := ls_taken S @ [t_scene_id t]\<rparr>)))
            = map (\<lambda>r. if scene_matches ''j1'' (t_scene_id t) r
                       then r\<lparr>image_path := Some (re_path ex_slow_env (t_scene_id t)),
                              image_url := Some (re_publicUrl ex_slow_env (t_scene_id t)),
                              image_prompt := Some (js_trim (t_prompt t))\<rparr>
                       else r)
                (ytg_scenes (ls_world (S\<lparr>ls_taken := ls_taken S @ [t_scene_id t]\<rparr>)))"
      by (rule retry_one_stores) (simp_all add: slow_provider)
    have d: "ytg_scenes (ls_world S) = ytg_scenes ex_full_world"
      by (simp add: S_def s0)
    from a [unfolded tk] b c
    have "ytg_scenes (ls_world st)
            = map (\<lambda>r. if scene_matches ''j1'' (t_scene_id t) r
                       then r\<lparr>image_path := Some (re_path ex_slow_env (t_scene_id t)),
                              image_url := Some (re_publicUrl ex_slow_env (t_scene_id t)),
                              image_prompt := Some (js_trim (t_prompt t))\<rparr>
                       else r)
                (ytg_scenes (ls_world (S\<lparr>ls_taken := ls_taken S @ [t_scene_id t]\<rparr>)))"
      by (simp only:)
    then show ?thesis
      unfolding th by (simp add: d ex_full_scenes scene_matches_def ex_scene_sel slow_provider)
  qed
  from background_outcomes [OF t0 r0 _ _ bg] pm
  have out: "filter is_outcome (console (ls_world st)) = [(info, ImageDone 1)]"
    and ic: "image_calls (ls_world st) = [?p]"
    by (simp_all add: tr tasks slow_outcome ex_prompt_trim ex_full_world_def ex_world_def)
  define w1 where "w1 = push_console (ls_world st) info RequeueAnswered"
  define body where "body = requeue_body ''j1'' [2, 3] 0"
  have step: "snd (retry_images_chain ex_slow_env ex_full_world ex_force_request)
           = (fst (snd (retry_images_chain ex_slow_env w1 body)),
              report_of 0 tasks st # snd (snd (retry_images_chain ex_slow_env w1 body)))"
    using chain_step_more [OF prep, of ex_slow_env st body] bg
    by (simp add: ex_force_fields b body_def w1_def slow_fetch)
  have bf: "str_trim (rq_job_id body) = ''j1''" "payload_depth body = 1"
    "map_option (List.map_filter (\<lambda>n. n)) (rq_scene_ids body) = Some [2, 3]"
    "rq_missing_only body = Some True"
    using requeue_body_fields [of "''j1''" "[2, 3]" 0] by (simp_all add: body_def trims)
  have js1: "job_statuses w1 = job_statuses ex_full_world"
    using js_background [of ex_slow_env "''j1''" tasks 0 st0] js_prepare [OF prep]
    by (simp add: w1_def bg)
  have "single (filter (\<lambda>j. jid j = ''j1'') (ytg_jobs ex_full_world)) = Inr (ex_job SUCCEEDED)"
    by (simp add: ex_full_jobs single_def)
  from single_same_ids [OF js1 this] obtain j' where
    j': "single (filter (\<lambda>j. jid j = ''j1'') (ytg_jobs w1)) = Inr j'" by blast
  from prepare_exists [of body w1 j'] j'
  obtain tasks1 skip1 st1 where
    prep1: "retry_images_prepare w1 body = Inr (''j1'', tasks1, skip1, st1)"
    by (auto simp: bf)
  have sc1: "ytg_scenes w1 = ytg_scenes (ls_world st)" by (simp add: w1_def)
  have tasks1: "tasks1 = []"
  proof -
    have "map t_scene_id tasks1 = []"
      using prepare_InrD [OF prep1]
      by (simp add: bf job_scenes_def sc1 sc ex_scene_def wanted_def truthy_def)
    then show ?thesis by simp
  qed
  note pm1 = prepare_more [OF prep1]
  from prepare_InrD [OF prep1]
  have t1: "ls_taken st1 = []" and r1: "ls_remaining st1 = []"
    and s1: "ytg_scenes (ls_world st1) = ytg_scenes w1" by auto
  obtain st' b' where bg1: "runRetryInBackground ex_slow_env ''j1'' tasks1 1 st1 = (st', b')"
    by (cases "runRetryInBackground ex_slow_env ''j1'' tasks1 1 st1") auto
  from background_facts [OF t1 r1 bg1]
  have tr1: "ls_taken st' = [] \<and> ls_remaining st' = []"
    and kp1: "list_all2 (kept (set (ls_taken st'))) (ytg_scenes (ls_world st1)) (ytg_scenes (ls_world st'))"
    and bb1: "case b' of
            None \<Rightarrow> True
          | Some body \<Rightarrow> ls_remaining st' \<noteq> []"
    by (auto simp: tasks1 split: option.splits)
  have b': "b' = None" using bb1 tr1 by (cases b') simp_all
  have sc': "ytg_scenes (ls_world st') = ytg_scenes (ls_world st)"
    using kept_empty [of "ytg_scenes (ls_world st1)" "ytg_scenes (ls_world st')"] kp1 tr1
    by (simp add: s1 sc1)
  from background_outcomes [OF t1 r1 _ _ bg1] pm1
  have out': "filter is_outcome (console (ls_world st')) = [(info, ImageDone 1)]"
    and ic': "image_calls (ls_world st') = [?p]"
    by (simp_all add: tr1 tasks1 w1_def out ic push_console_def)
  have last: "snd (retry_images_chain ex_slow_env w1 body)
           = (ls_world st', [report_of 1 tasks1 st'])"
    using chain_step_last [OF prep1, of ex_slow_env st'] bg1 by (simp add: bf b')
  have resp: "fst (retry_images_chain ex_slow_env ex_full_world ex_force_request)
     = (202, Inr \<lparr>rs_job_id = ''j1'', attempted = 3, succeeded = 0, failed = 0, skipped = 0,
                  accepted = True\<rparr>)"
    using chain_response [OF prep, of ex_slow_env] by (simp add: tasks skip)
  show ?thesis
    unfolding step last
    using resp out' ic' sc' sc tr tr1
    by (simp add: slow_maxDepth report_of_def tasks tasks1 ex_scene_def)
qed

end
